(* ===== verification/Mcm_Prelude.thy ===== *)
theory Mcm_Prelude
  imports Main "HOL-Library.Char_ord" "HOL-Library.List_Lexorder"
begin

text \<open>
  The vocabulary every component shares: the exceptions the server throws, the shape of an
  asynchronous operation (a state transformer that either returns or throws), and the few
  operations on JavaScript strings the code uses. Strings are lists of code units of the Latin-1
  range, which is what \<open>char\<close> can hold; every literal of the source is ASCII.
\<close>

named_theorems io_simps \<open>unfolding rules of the operation combinators\<close>
named_theorems js_simps \<open>evaluation rules of the JavaScript string operations\<close>

section \<open>Exceptions\<close>

datatype auth_code =
    WEAK_PASSWORD | DUPLICATE_USERNAME | DUPLICATE_EMAIL | INVALID_EMAIL | INVALID_INPUT
  | INVALID_CREDENTIALS | ACCOUNT_LOCKED | ACCOUNT_DISABLED | ROLES_REVOKED | EMAIL_NOT_VERIFIED
  | AUTH_CODE_INVALID | AUTH_CODE_EXPIRED | REDIRECT_URI_MISMATCH
  | TOKEN_EXPIRED | REFRESH_FAILED | REFRESH_TOKEN_INVALID | SESSION_NOT_FOUND | SESSION_EXPIRED
  | SESSION_IDLE_TIMEOUT | SESSION_ABSOLUTE_TIMEOUT | SESSION_LIMIT_EXCEEDED | UNAUTHORIZED
  | FORBIDDEN | SESSION_OWNER_MISMATCH | SESSION_RENEWAL_PENDING
  | AGENT_IDENTITY_REJECTED | AGENT_IDENTITY_UNAVAILABLE
  | VERIFICATION_TOKEN_INVALID | VERIFICATION_TOKEN_EXPIRED | ALREADY_VERIFIED
  | KEYCLOAK_UNAVAILABLE | RATE_LIMIT_EXCEEDED | UNKNOWN | UNKNOWN_ERROR | TOKEN_INVALID

record auth_error =
  ae_code :: auth_code
  ae_message :: string
  ae_status :: int
  ae_clear_cookies :: "string list option"
  ae_retry_after :: "int option"

text \<open>
  The error classes of the source, one constructor each. \<open>RateLimitError\<close> extends
  \<open>AuthError\<close> there; \<open>auth_error_of\<close> is the \<open>instanceof AuthError\<close> test that covers both.
  \<open>HttpError\<close> is an axios error that carries a response (its status and the \<open>title\<close> of the
  Problem Details body); any other \<open>Error\<close> is \<open>JsError\<close> with its message.
\<close>

datatype exn =
    AuthError auth_error
  | RateLimitError int
  | InvalidScheduleError string
  | BackupJobInputError string
  | DestinationUrlNotAllowedError string
  | OllamaUrlNotAllowedError string
  | BackupSizeCeilingError string
  | OfflineTokenUnusableError string
  | OfflineTokenRevocationError string
  | BackupDestinationInputError string
  | ArtifactVerificationError string
  | HttpError int "string option"
  | JsError string

definition mk_auth_error :: "auth_code \<Rightarrow> string \<Rightarrow> int \<Rightarrow> exn" where
  "mk_auth_error code msg status =
     AuthError \<lparr>ae_code = code, ae_message = msg, ae_status = status,
                ae_clear_cookies = None, ae_retry_after = None\<rparr>"

definition rate_limit_parent :: auth_error where
  "rate_limit_parent =
     \<lparr>ae_code = RATE_LIMIT_EXCEEDED, ae_message = ''Too many requests. Please try again later.'',
      ae_status = 429, ae_clear_cookies = None, ae_retry_after = None\<rparr>"

fun auth_error_of :: "exn \<Rightarrow> auth_error option" where
  "auth_error_of (AuthError e) = Some e"
| "auth_error_of (RateLimitError n) = Some rate_limit_parent"
| "auth_error_of _ = None"

definition auth_status :: "exn \<Rightarrow> int option" where
  "auth_status e = map_option ae_status (auth_error_of e)"

lemma auth_status_simps [simp]:
  "auth_status (AuthError e) = Some (ae_status e)"
  "auth_status (RateLimitError n) = Some 429"
  "auth_status (mk_auth_error c m st) = Some st"
  "auth_status (JsError m) = None"
  "auth_status (HttpError st t) = None"
  by (simp_all add: auth_status_def rate_limit_parent_def mk_auth_error_def)

section \<open>Operations\<close>

text \<open>
  An \<open>async\<close> function run to completion: from a state to its outcome (\<open>Inl\<close> an exception,
  \<open>Inr\<close> a result) and the state it leaves. \<open>bindM\<close> is \<open>await\<close> in sequence, \<open>catchM\<close> is
  \<open>try/catch\<close>, \<open>finallyM\<close> is \<open>try/finally\<close> (an exception of the cleanup replaces the
  outcome, as in JavaScript).
\<close>

type_synonym ('s, 'a) io = "'s \<Rightarrow> (exn + 'a) \<times> 's"

definition returnM :: "'a \<Rightarrow> ('s, 'a) io" where
  "returnM x = (\<lambda>s. (Inr x, s))"

definition throwM :: "exn \<Rightarrow> ('s, 'a) io" where
  "throwM e = (\<lambda>s. (Inl e, s))"

definition bindM :: "('s, 'a) io \<Rightarrow> ('a \<Rightarrow> ('s, 'b) io) \<Rightarrow> ('s, 'b) io" where
  "bindM m f = (\<lambda>s. case fst (m s) of Inl e \<Rightarrow> (Inl e, snd (m s)) | Inr x \<Rightarrow> f x (snd (m s)))"

definition catchM :: "('s, 'a) io \<Rightarrow> (exn \<Rightarrow> ('s, 'a) io) \<Rightarrow> ('s, 'a) io" where
  "catchM m h = (\<lambda>s. case fst (m s) of Inl e \<Rightarrow> h e (snd (m s)) | Inr x \<Rightarrow> (Inr x, snd (m s)))"

definition finallyM :: "('s, 'a) io \<Rightarrow> ('s, unit) io \<Rightarrow> ('s, 'a) io" where
  "finallyM m c = (\<lambda>s. case fst (c (snd (m s))) of
       Inl e \<Rightarrow> (Inl e, snd (c (snd (m s)))) | Inr u \<Rightarrow> (fst (m s), snd (c (snd (m s)))))"

definition attemptM :: "('s, 'a) io \<Rightarrow> ('s, exn + 'a) io" where
  "attemptM m = (\<lambda>s. (Inr (fst (m s)), snd (m s)))"

definition getM :: "('s \<Rightarrow> 'a) \<Rightarrow> ('s, 'a) io" where
  "getM f = (\<lambda>s. (Inr (f s), s))"

definition modifyM :: "('s \<Rightarrow> 's) \<Rightarrow> ('s, unit) io" where
  "modifyM f = (\<lambda>s. (Inr (), f s))"

abbreviation thenM :: "('s, 'a) io \<Rightarrow> ('s, 'b) io \<Rightarrow> ('s, 'b) io" where
  "thenM m k \<equiv> bindM m (\<lambda>_. k)"

definition whenM :: "bool \<Rightarrow> ('s, unit) io \<Rightarrow> ('s, unit) io" where
  "whenM b m = (if b then m else returnM ())"

definition liftE :: "exn + 'a \<Rightarrow> ('s, 'a) io" where
  "liftE r = (\<lambda>s. (r, s))"

lemma returnM_run [io_simps, simp]: "returnM x s = (Inr x, s)"
  by (simp add: returnM_def)

lemma throwM_run [io_simps, simp]: "throwM e s = (Inl e, s)"
  by (simp add: throwM_def)

lemma bindM_run [io_simps]:
  "bindM m f s = (case fst (m s) of Inl e \<Rightarrow> (Inl e, snd (m s)) | Inr x \<Rightarrow> f x (snd (m s)))"
  by (simp add: bindM_def)

lemma catchM_run [io_simps]:
  "catchM m h s = (case fst (m s) of Inl e \<Rightarrow> h e (snd (m s)) | Inr x \<Rightarrow> (Inr x, snd (m s)))"
  by (simp add: catchM_def)

lemma finallyM_run [io_simps]:
  "finallyM m c s = (case fst (c (snd (m s))) of
       Inl e \<Rightarrow> (Inl e, snd (c (snd (m s)))) | Inr u \<Rightarrow> (fst (m s), snd (c (snd (m s)))))"
  by (simp add: finallyM_def)

lemma attemptM_run [io_simps]: "attemptM m s = (Inr (fst (m s)), snd (m s))"
  by (simp add: attemptM_def)

lemma getM_run [io_simps, simp]: "getM f s = (Inr (f s), s)"
  by (simp add: getM_def)

lemma modifyM_run [io_simps, simp]: "modifyM f s = (Inr (), f s)"
  by (simp add: modifyM_def)

lemma whenM_run [io_simps]: "whenM b m s = (if b then m s else (Inr (), s))"
  by (simp add: whenM_def)

lemma liftE_run [io_simps, simp]: "liftE r s = (r, s)"
  by (simp add: liftE_def)

lemma bindM_Inr_iff:
  "bindM m f s = (Inr y, s'') \<longleftrightarrow> (\<exists>x s'. m s = (Inr x, s') \<and> f x s' = (Inr y, s''))"
  by (cases "m s") (auto simp: bindM_def split: sum.splits)

lemma bindM_step [simp]: "m s = (Inr x, s') \<Longrightarrow> bindM m f s = f x s'"
  by (simp add: bindM_def)

lemma bindM_stop [simp]: "m s = (Inl e, s') \<Longrightarrow> bindM m f s = (Inl e, s')"
  by (simp add: bindM_def)

text \<open>A loop over a list whose body may throw, as \<open>for (const x of xs) await body(x)\<close>.\<close>

fun forM :: "'a list \<Rightarrow> ('a \<Rightarrow> ('s, unit) io) \<Rightarrow> ('s, unit) io" where
  "forM [] body = returnM ()"
| "forM (x # xs) body = thenM (body x) (forM xs body)"

section \<open>JavaScript strings\<close>

definition is_js_space :: "char \<Rightarrow> bool" where
  "is_js_space c \<longleftrightarrow> (let n = of_char c :: nat in (9 \<le> n \<and> n \<le> 13) \<or> n = 32 \<or> n = 160)"

definition js_trim_start :: "string \<Rightarrow> string" where
  "js_trim_start s = dropWhile is_js_space s"

definition js_trim_end :: "string \<Rightarrow> string" where
  "js_trim_end s = rev (dropWhile is_js_space (rev s))"

definition js_trim :: "string \<Rightarrow> string" where
  "js_trim s = js_trim_end (js_trim_start s)"

definition js_lower_char :: "char \<Rightarrow> char" where
  "js_lower_char c = (let n = of_char c :: nat in
     if (65 \<le> n \<and> n \<le> 90) \<or> (192 \<le> n \<and> n \<le> 222 \<and> n \<noteq> 215) then char_of (n + 32) else c)"

definition js_to_lower :: "string \<Rightarrow> string" where
  "js_to_lower s = map js_lower_char s"

definition js_starts_with :: "string \<Rightarrow> string \<Rightarrow> bool" where
  "js_starts_with s p \<longleftrightarrow> take (length p) s = p"

fun js_includes :: "string \<Rightarrow> string \<Rightarrow> bool" where
  "js_includes [] p = (p = [])"
| "js_includes (c # s) p = (js_starts_with (c # s) p \<or> js_includes s p)"

text \<open>\<open>s.split(c)\<close> for a one-character separator: never empty, one more piece than separators.\<close>

fun js_split :: "char \<Rightarrow> string \<Rightarrow> string list" where
  "js_split c [] = [[]]"
| "js_split c (x # xs) =
     (if x = c then [] # js_split c xs
      else (case js_split c xs of [] \<Rightarrow> [[x]] | p # ps \<Rightarrow> (x # p) # ps))"

fun js_join :: "string \<Rightarrow> string list \<Rightarrow> string" where
  "js_join sep [] = []"
| "js_join sep [x] = x"
| "js_join sep (x # y # ys) = x @ sep @ js_join sep (y # ys)"

lemma js_starts_with_append [simp]: "js_starts_with (p @ s) p"
  by (simp add: js_starts_with_def)

lemma js_starts_with_iff: "js_starts_with s p \<longleftrightarrow> (\<exists>r. s = p @ r)"
  unfolding js_starts_with_def by (metis append_eq_conv_conj append_take_drop_id)

lemma js_includes_iff: "js_includes s p \<longleftrightarrow> (\<exists>a b. s = a @ p @ b)"
proof (induction s)
  case Nil
  then show ?case by auto
next
  case (Cons c s)
  show ?case
  proof
    assume "js_includes (c # s) p"
    then consider "js_starts_with (c # s) p" | "js_includes s p" by auto
    then show "\<exists>a b. c # s = a @ p @ b"
    proof cases
      case 1
      then show ?thesis by (metis append_Nil js_starts_with_iff)
    next
      case 2
      then show ?thesis using Cons.IH by (metis append_Cons)
    qed
  next
    assume "\<exists>a b. c # s = a @ p @ b"
    then obtain a b where ab: "c # s = a @ p @ b" by blast
    show "js_includes (c # s) p"
    proof (cases a)
      case Nil
      with ab have "js_starts_with (c # s) p" by (auto simp: js_starts_with_iff)
      then show ?thesis by simp
    next
      case (Cons d a')
      with ab have "s = a' @ p @ b" by simp
      with Cons.IH have "js_includes s p" by blast
      then show ?thesis by simp
    qed
  qed
qed

lemma js_split_not_Nil [simp]: "js_split c s \<noteq> []"
  by (induction s) (auto split: list.splits)

lemma js_split_no_sep: "c \<notin> set s \<Longrightarrow> js_split c s = [s]"
  by (induction s) auto

lemma js_split_append_sep:
  "c \<notin> set a \<Longrightarrow> js_split c (a @ c # b) = a # js_split c b"
  by (induction a) auto

lemma js_split_append: "js_split c (a @ c # b) = js_split c a @ js_split c b"
proof (induction a)
  case (Cons x a)
  then show ?case by (cases "js_split c a") auto
qed simp

lemma js_split_pieces: "p \<in> set (js_split c s) \<Longrightarrow> c \<notin> set p"
proof (induction s arbitrary: p)
  case Nil
  then show ?case by simp
next
  case (Cons x xs)
  show ?case
  proof (cases "js_split c xs")
    case Nil
    then show ?thesis by simp
  next
    case (Cons q qs)
    with Cons.IH Cons.prems show ?thesis by (auto split: if_splits)
  qed
qed

section \<open>Numbers as text\<close>

definition digit_char :: "nat \<Rightarrow> char" where
  "digit_char d = char_of (48 + d mod 10)"

fun show_nat :: "nat \<Rightarrow> string" where
  "show_nat n = (if n < 10 then [digit_char n] else show_nat (n div 10) @ [digit_char (n mod 10)])"

declare show_nat.simps [simp del]

definition show_int :: "int \<Rightarrow> string" where
  "show_int i = (if i < 0 then ''-'' @ show_nat (nat (- i)) else show_nat (nat i))"

definition is_digit :: "char \<Rightarrow> bool" where
  "is_digit c \<longleftrightarrow> (let n = of_char c :: nat in 48 \<le> n \<and> n \<le> 57)"

definition digit_val :: "char \<Rightarrow> nat" where
  "digit_val c = of_char c - 48"

fun digits_val :: "nat \<Rightarrow> string \<Rightarrow> nat" where
  "digits_val acc [] = acc"
| "digits_val acc (c # cs) = digits_val (10 * acc + digit_val c) cs"

lemma of_char_digit_char [simp]: "of_char (digit_char d) = (48 + d mod 10 :: nat)"
  by (simp add: digit_char_def)

lemma is_digit_digit_char [simp]: "is_digit (digit_char d)"
proof -
  have "d mod 10 < 10" by simp
  then show ?thesis unfolding is_digit_def Let_def of_char_digit_char by linarith
qed

lemma digit_val_digit_char [simp]: "digit_val (digit_char d) = d mod 10"
  by (simp add: digit_val_def)

lemma digits_val_append: "digits_val acc (xs @ ys) = digits_val (digits_val acc xs) ys"
  by (induction xs arbitrary: acc) auto

lemma digits_val_show_nat [simp]: "digits_val 0 (show_nat n) = n"
proof (induction n rule: show_nat.induct)
  case (1 n)
  then show ?case
    by (subst show_nat.simps) (auto simp: digits_val_append)
qed

lemma show_nat_digits: "\<forall>c \<in> set (show_nat n). is_digit c"
proof (induction n rule: show_nat.induct)
  case (1 n)
  then show ?case by (subst show_nat.simps) auto
qed

lemma show_nat_not_Nil [simp]: "show_nat n \<noteq> []"
  by (subst show_nat.simps) simp

lemma show_nat_inject [simp]: "show_nat m = show_nat n \<longleftrightarrow> m = n"
  by (metis digits_val_show_nat)

text \<open>Reading a decimal integer back, as \<open>parseInt(text, 10)\<close> does on text the code itself printed.\<close>

definition read_int :: "string \<Rightarrow> int option" where
  "read_int t = (case t of
     [] \<Rightarrow> None
   | c # cs \<Rightarrow> if c = CHR ''-'' then (if cs \<noteq> [] \<and> list_all is_digit cs then Some (- int (digits_val 0 cs)) else None)
       else if list_all is_digit t then Some (int (digits_val 0 t)) else None)"

lemma show_nat_not_minus: "show_nat n \<noteq> CHR ''-'' # s"
proof
  assume "show_nat n = CHR ''-'' # s"
  with show_nat_digits [of n] have "is_digit (CHR ''-'')" by simp
  then show False by (simp add: is_digit_def)
qed

lemma read_int_show_int [simp]: "read_int (show_int i) = Some i"
proof -
  have d: "list_all is_digit (show_nat n)" for n using show_nat_digits by (simp add: list_all_iff)
  show ?thesis
  proof (cases "i < 0")
    case True
    then show ?thesis using d by (simp add: show_int_def read_int_def)
  next
    case False
    then obtain c cs where "show_nat (nat i) = c # cs" "c \<noteq> CHR ''-''"
      using show_nat_not_minus by (cases "show_nat (nat i)") auto
    with False d [of "nat i"] digits_val_show_nat [of "nat i"] show ?thesis
      by (simp add: show_int_def read_int_def)
  qed
qed

lemma show_int_inject [simp]: "show_int i = show_int j \<longleftrightarrow> i = j"
  by (metis option.inject read_int_show_int)

text \<open>\<open>Math.ceil(n / d)\<close> and \<open>Math.floor(n / d)\<close> on integers, for a positive divisor.\<close>

definition ceil_div :: "int \<Rightarrow> int \<Rightarrow> int" where
  "ceil_div n d = - ((- n) div d)"

end
