(* ===== verification/Env.thy ===== *)
theory Env
  imports Complex_Main Mcm_Prelude
begin

text \<open>
  \<open>config/env.ts\<close>: the settings the server reads from its process environment, with the source's
  defaults and fall-backs. The environment is a map from names to texts. A numeric variable whose
  text is not a number is \<open>NaN\<close> in the source; such an environment is outside the model and
  \<open>load_env\<close> returns \<open>None\<close> for it. Dollar amounts are exact rationals.
\<close>

type_synonym process_env = "string \<Rightarrow> string option"

definition requireEnv :: "process_env \<Rightarrow> string \<Rightarrow> string option \<Rightarrow> exn + string" where
  "requireEnv p key fallback = (case (case p key of Some v \<Rightarrow> Some v | None \<Rightarrow> fallback) of
     Some v \<Rightarrow> Inr v
   | None \<Rightarrow> Inl (JsError (''Missing required environment variable: '' @ key)))"

definition optionalEnv :: "process_env \<Rightarrow> string \<Rightarrow> string \<Rightarrow> string" where
  "optionalEnv p key fallback = (case p key of Some v \<Rightarrow> v | None \<Rightarrow> fallback)"

section \<open>Numbers in variables\<close>

definition strip_sign :: "string \<Rightarrow> bool \<times> string" where
  "strip_sign s = (case s of [] \<Rightarrow> (False, [])
     | c # cs \<Rightarrow> if c = CHR ''-'' then (True, cs) else if c = CHR ''+'' then (False, cs) else (False, s))"

text \<open>\<open>parseInt(text, 10)\<close>: leading blanks, a sign, then the longest run of digits; \<open>None\<close> is \<open>NaN\<close>.\<close>

definition js_parse_int :: "string \<Rightarrow> int option" where
  "js_parse_int s = (case strip_sign (js_trim_start s) of (neg, t) \<Rightarrow>
     (let ds = takeWhile is_digit t; n = int (digits_val 0 ds)
      in if ds = [] then None else Some (if neg then - n else n)))"

text \<open>\<open>parseFloat(text)\<close> on decimal numerals (\<open>None\<close> for \<open>NaN\<close> and for \<open>Infinity\<close>).\<close>

definition js_exponent :: "string \<Rightarrow> int" where
  "js_exponent t = (case t of [] \<Rightarrow> 0
     | c # cs \<Rightarrow> if c = CHR ''e'' \<or> c = CHR ''E'' then
         (case strip_sign cs of (neg, r) \<Rightarrow> (let n = int (digits_val 0 (takeWhile is_digit r))
            in if neg then - n else n))
       else 0)"

definition js_parse_float :: "string \<Rightarrow> rat option" where
  "js_parse_float s = (case strip_sign (js_trim_start s) of (neg, t) \<Rightarrow>
     (let ds = takeWhile is_digit t; r = dropWhile is_digit t;
          fs = (if r \<noteq> [] \<and> hd r = CHR ''.'' then takeWhile is_digit (tl r) else []);
          rest = (if r \<noteq> [] \<and> hd r = CHR ''.'' then dropWhile is_digit (tl r) else r);
          e = js_exponent rest - int (length fs);
          m = (of_nat (digits_val 0 (ds @ fs)) :: rat);
          x = (if 0 \<le> e then m * 10 ^ nat e else m / 10 ^ nat (- e))
      in if ds @ fs = [] then None else Some (if neg then - x else x)))"

section \<open>The settings\<close>

record env =
  keycloakUrl :: string
  keycloakPublicUrl :: string
  keycloakRealm :: string
  keycloakAdminApiBase :: string
  keycloakClientId :: string
  keycloakClientSecret :: string
  backupConsentClientId :: string
  backupConsentClientSecret :: string
  keycloakServiceClientId :: string
  keycloakServiceClientSecret :: string
  redisUrl :: string
  cookieSecret :: string
  sessionIdleTimeoutMs :: int
  sessionAbsoluteTimeoutMs :: int
  maxConcurrentSessions :: int
  mcServiceUrl :: string
  trustProxy :: bool
  agentRateLimitRequests :: int
  agentRateLimitWindowMs :: int
  agentSessionCostCeilingUsd :: rat
  agentEstimatedTurnCostUsd :: rat
  agentConfigEncKey :: string
  mongoUrl :: string
  mongoDbName :: string
  agentConfigCollection :: string
  appSettingsCollection :: string
  agentOllamaAllowedHosts :: string
  agentOllamaLoopbackPorts :: string
  backupCredentialEncKey :: string
  backupTickSecret :: string
  backupAllowedDestinationHosts :: string
  backupMaxMovies :: int
  backupMaxUncompressedBytes :: int
  backupTickIntervalMs :: int
  backupTickAllowTimeOverride :: bool
  backupDestinationsCollection :: string
  backupJobsCollection :: string
  backupRunsCollection :: string
  nodeEnv :: string
  isDevelopment :: bool

definition bindE :: "exn + 'a \<Rightarrow> ('a \<Rightarrow> exn + 'b) \<Rightarrow> exn + 'b" where
  "bindE r f = (case r of Inl e \<Rightarrow> Inl e | Inr x \<Rightarrow> f x)"

lemma bindE_Inr_iff: "bindE r f = Inr y \<longleftrightarrow> (\<exists>x. r = Inr x \<and> f x = Inr y)"
  by (cases r) (simp_all add: bindE_def)

lemma bindE_simps [simp]: "bindE (Inr x) f = f x" "bindE (Inl e) f = Inl e"
  by (simp_all add: bindE_def)

definition or_text :: "string \<Rightarrow> string \<Rightarrow> string" where
  "or_text a b = (if a = [] then b else a)"

record env_numbers =
  n_idle :: int
  n_absolute :: int
  n_sessions :: int
  n_agent_requests :: int
  n_agent_window :: int
  n_cost_ceiling :: rat
  n_turn_cost :: rat
  n_max_movies :: int
  n_max_bytes :: int
  n_tick :: int

definition read_env_numbers :: "process_env \<Rightarrow> env_numbers option" where
  "read_env_numbers p =
    (case (js_parse_int (optionalEnv p ''SESSION_IDLE_TIMEOUT_MS'' ''1800000''),
           js_parse_int (optionalEnv p ''SESSION_ABSOLUTE_TIMEOUT_MS'' ''86400000''),
           js_parse_int (optionalEnv p ''MAX_CONCURRENT_SESSIONS'' ''10''),
           js_parse_int (optionalEnv p ''AGENT_RATE_LIMIT_REQUESTS'' ''20''),
           js_parse_int (optionalEnv p ''AGENT_RATE_LIMIT_WINDOW_MS'' ''60000''),
           js_parse_float (optionalEnv p ''AGENT_SESSION_COST_CEILING_USD'' ''0.50''),
           js_parse_float (optionalEnv p ''AGENT_ESTIMATED_TURN_COST_USD'' ''0.01''),
           js_parse_int (optionalEnv p ''BACKUP_MAX_MOVIES'' ''25000''),
           js_parse_int (optionalEnv p ''BACKUP_MAX_UNCOMPRESSED_BYTES'' ''67108864''),
           js_parse_int (optionalEnv p ''BACKUP_TICK_INTERVAL_MS'' ''60000'')) of
      (Some a, Some b, Some c, Some d, Some e, Some f, Some g, Some h, Some i, Some j) \<Rightarrow>
        Some \<lparr>n_idle = a, n_absolute = b, n_sessions = c, n_agent_requests = d, n_agent_window = e,
              n_cost_ceiling = f, n_turn_cost = g, n_max_movies = h, n_max_bytes = i, n_tick = j\<rparr>
    | _ \<Rightarrow> None)"

definition load_env :: "process_env \<Rightarrow> exn + env option" where
  "load_env p =
    bindE (requireEnv p ''KEYCLOAK_URL'' (Some ''http://localhost:8099'')) (\<lambda>kcUrl.
    bindE (requireEnv p ''KEYCLOAK_REALM'' (Some ''grumpyrobot'')) (\<lambda>kcRealm.
    bindE (requireEnv p ''KEYCLOAK_CLIENT_ID'' (Some ''movie-collection-manager'')) (\<lambda>kcClient.
    bindE (requireEnv p ''KEYCLOAK_CLIENT_SECRET'' (Some '''')) (\<lambda>kcSecret.
    bindE (requireEnv p ''KEYCLOAK_SERVICE_CLIENT_ID'' (Some ''mcm-bff-service'')) (\<lambda>svcId.
    bindE (requireEnv p ''KEYCLOAK_SERVICE_CLIENT_SECRET'' (Some '''')) (\<lambda>svcSecret.
    bindE (requireEnv p ''REDIS_URL'' (Some ''redis://localhost:6379'')) (\<lambda>redis.
    bindE (requireEnv p ''COOKIE_SECRET'' (Some '''')) (\<lambda>cookie.
    bindE (requireEnv p ''MC_SERVICE_URL'' (Some ''http://localhost:3001'')) (\<lambda>mc.
    Inr (map_option (\<lambda>n. \<lparr>
      keycloakUrl = kcUrl,
      keycloakPublicUrl = or_text (optionalEnv p ''KEYCLOAK_PUBLIC_URL'' '''') kcUrl,
      keycloakRealm = kcRealm,
      keycloakAdminApiBase = kcUrl @ ''/admin/realms/'' @ kcRealm,
      keycloakClientId = kcClient,
      keycloakClientSecret = kcSecret,
      backupConsentClientId = or_text (optionalEnv p ''BACKUP_CONSENT_CLIENT_ID'' '''') kcClient,
      backupConsentClientSecret = or_text (optionalEnv p ''BACKUP_CONSENT_CLIENT_SECRET'' '''') kcSecret,
      keycloakServiceClientId = svcId,
      keycloakServiceClientSecret = svcSecret,
      redisUrl = redis,
      cookieSecret = cookie,
      sessionIdleTimeoutMs = n_idle n,
      sessionAbsoluteTimeoutMs = n_absolute n,
      maxConcurrentSessions = n_sessions n,
      mcServiceUrl = mc,
      trustProxy = (optionalEnv p ''TRUSTED_PROXY'' ''false'' = ''true''),
      agentRateLimitRequests = n_agent_requests n,
      agentRateLimitWindowMs = n_agent_window n,
      agentSessionCostCeilingUsd = n_cost_ceiling n,
      agentEstimatedTurnCostUsd = n_turn_cost n,
      agentConfigEncKey = optionalEnv p ''AGENT_CONFIG_ENC_KEY'' '''',
      mongoUrl = optionalEnv p ''MONGO_URL'' ''mongodb://localhost:27018'',
      mongoDbName = optionalEnv p ''MONGO_DB_NAME'' ''bff_db'',
      agentConfigCollection = optionalEnv p ''AGENT_CONFIG_COLLECTION'' ''user_agent_config'',
      appSettingsCollection = optionalEnv p ''APP_SETTINGS_COLLECTION'' ''app_settings'',
      agentOllamaAllowedHosts = optionalEnv p ''AGENT_OLLAMA_ALLOWED_HOSTS'' '''',
      agentOllamaLoopbackPorts = optionalEnv p ''AGENT_OLLAMA_LOOPBACK_PORTS'' ''11434'',
      backupCredentialEncKey = optionalEnv p ''BACKUP_CREDENTIAL_ENC_KEY'' '''',
      backupTickSecret = optionalEnv p ''BACKUP_TICK_SECRET'' '''',
      backupAllowedDestinationHosts = optionalEnv p ''BACKUP_ALLOWED_DESTINATION_HOSTS'' '''',
      backupMaxMovies = n_max_movies n,
      backupMaxUncompressedBytes = n_max_bytes n,
      backupTickIntervalMs = n_tick n,
      backupTickAllowTimeOverride = (optionalEnv p ''BACKUP_TICK_ALLOW_TIME_OVERRIDE'' '''' = ''1''),
      backupDestinationsCollection = optionalEnv p ''BACKUP_DESTINATIONS_COLLECTION'' ''backup_destinations'',
      backupJobsCollection = optionalEnv p ''BACKUP_JOBS_COLLECTION'' ''backup_jobs'',
      backupRunsCollection = optionalEnv p ''BACKUP_RUNS_COLLECTION'' ''backup_runs'',
      nodeEnv = optionalEnv p ''NODE_ENV'' ''development'',
      isDevelopment = (optionalEnv p ''NODE_ENV'' ''development'' = ''development'')\<rparr>) (read_env_numbers p)))))))))))"

lemma requireEnv_fallback: "requireEnv p k (Some d) = Inr (optionalEnv p k d)"
  by (simp add: requireEnv_def optionalEnv_def split: option.split)

text \<open>Every required variable has a fall-back, so loading never throws.\<close>

lemma load_env_never_throws: "\<exists>r. load_env p = Inr r"
  by (simp add: load_env_def requireEnv_fallback)

lemmas number_eval = js_parse_int_def js_parse_float_def js_exponent_def strip_sign_def
  js_trim_start_def is_js_space_def is_digit_def digit_val_def

lemma env_numbers_default: "read_env_numbers (\<lambda>_. None) = Some \<lparr>n_idle = 1800000, n_absolute = 86400000,
   n_sessions = 10, n_agent_requests = 20, n_agent_window = 60000, n_cost_ceiling = 1 / 2,
   n_turn_cost = 1 / 100, n_max_movies = 25000, n_max_bytes = 67108864, n_tick = 60000\<rparr>"
  by (simp add: read_env_numbers_def optionalEnv_def number_eval)

text \<open>With nothing configured the server loads, keeps the documented session limits
  (ten sessions, thirty minutes idle, a day in all), trusts no proxy, and uses the internal identity
  provider address as the public one and the login client for backup consent.\<close>
theorem env_defaults:
  "\<exists>e. load_env (\<lambda>_. None) = Inr (Some e) \<and> maxConcurrentSessions e = 10 \<and>
     sessionIdleTimeoutMs e = 1800000 \<and> sessionAbsoluteTimeoutMs e = 86400000 \<and> \<not> trustProxy e \<and>
     keycloakPublicUrl e = keycloakUrl e \<and> backupConsentClientId e = keycloakClientId e \<and>
     \<not> backupTickAllowTimeOverride e"
  by (simp add: load_env_def requireEnv_fallback env_numbers_default optionalEnv_def or_text_def)

text \<open>The settings of a server with nothing configured, on which examples are evaluated.\<close>

definition default_env :: env where
  "default_env = (case load_env (\<lambda>_. None) of Inr (Some e) \<Rightarrow> e | _ \<Rightarrow> undefined)"

lemma default_env_simps [simp]:
  "keycloakUrl default_env = ''http://localhost:8099''" "keycloakPublicUrl default_env = ''http://localhost:8099''"
  "keycloakRealm default_env = ''grumpyrobot''" "keycloakClientId default_env = ''movie-collection-manager''"
  "isDevelopment default_env" "sessionAbsoluteTimeoutMs default_env = 86400000"
  "sessionIdleTimeoutMs default_env = 1800000" "maxConcurrentSessions default_env = 10"
  by (simp_all add: default_env_def load_env_def requireEnv_fallback env_numbers_default optionalEnv_def or_text_def)

end
