(* ===== verification/Json.thy ===== *)
theory Json
  imports Mcm_Prelude
begin

text \<open>
  JSON values and their text, as \<open>JSON.stringify\<close> writes it and \<open>JSON.parse\<close> reads it, and the
  deterministic text of \<open>canonicalJson\<close> (\<open>bff-server/backup-artifact.ts\<close>). A number is carried by
  the decimal text JavaScript prints for it; \<open>undefined\<close> is a value of its own, because the source
  distinguishes it. Objects are association lists in insertion order.
\<close>

datatype json =
    JNull | JUndef | JBool bool | JNum string | JStr string
  | JArr "json list" | JObj "(string \<times> json) list"

section \<open>Text of a value\<close>

definition hex_char :: "nat \<Rightarrow> char" where
  "hex_char n = (if n < 10 then char_of (48 + n) else char_of (87 + n))"

definition escape_char :: "char \<Rightarrow> string" where
  "escape_char c = (let n = of_char c :: nat in
     if n = 34 then [char_of (92::nat), c] else if n = 92 then [c, c]
     else if n = 8 then [char_of (92::nat), CHR ''b''] else if n = 9 then [char_of (92::nat), CHR ''t'']
     else if n = 10 then [char_of (92::nat), CHR ''n''] else if n = 12 then [char_of (92::nat), CHR ''f'']
     else if n = 13 then [char_of (92::nat), CHR ''r'']
     else if n < 32 then [char_of (92::nat), CHR ''u'', CHR ''0'', CHR ''0'', hex_char (n div 16), hex_char (n mod 16)]
     else [c])"

definition quote_char :: char where
  "quote_char = CHR 0x22"

definition stringify_string :: "string \<Rightarrow> string" where
  "stringify_string s = [quote_char] @ concat (map escape_char s) @ [quote_char]"

text \<open>\<open>JSON.stringify\<close>: an undefined member is left out, an undefined array element is \<open>null\<close>.\<close>

fun stringify :: "json \<Rightarrow> string" where
  "stringify JNull = ''null''"
| "stringify JUndef = ''null''"
| "stringify (JBool b) = (if b then ''true'' else ''false'')"
| "stringify (JNum t) = t"
| "stringify (JStr s) = stringify_string s"
| "stringify (JArr xs) = ''['' @ js_join '','' (map stringify xs) @ '']''"
| "stringify (JObj es) = ''{'' @ js_join '',''
     (map (\<lambda>(k, v). stringify_string k @ '':'' @ stringify v) (filter (\<lambda>(k, v). v \<noteq> JUndef) es)) @ ''}''"

text \<open>\<open>canonicalJson\<close>: the members of an object sorted by key, arrays left alone.\<close>

lemma json_member_size:
  "(k, v) \<in> set es \<Longrightarrow> size v < Suc (size_list (size_prod (\<lambda>_. 0) size) es)"
  by (induction es) auto

function canonical_json :: "json \<Rightarrow> string" where
  "canonical_json JNull = ''null''"
| "canonical_json JUndef = ''null''"
| "canonical_json (JBool b) = stringify (JBool b)"
| "canonical_json (JNum t) = stringify (JNum t)"
| "canonical_json (JStr s) = stringify (JStr s)"
| "canonical_json (JArr xs) = ''['' @ js_join '','' (map canonical_json xs) @ '']''"
| "canonical_json (JObj es) =
     (let entries = sort_key fst (filter (\<lambda>(k, v). v \<noteq> JUndef) es)
      in ''{'' @ js_join '','' (map (\<lambda>(k, v). stringify_string k @ '':'' @ canonical_json v) entries) @ ''}'')"
  by pat_completeness auto
termination
  by (relation "measure size") (auto dest: json_member_size simp: less_Suc_eq_le size_list_estimation')

section \<open>Reading a value\<close>

definition is_json_space :: "char \<Rightarrow> bool" where
  "is_json_space c \<longleftrightarrow> (of_char c :: nat) \<in> {9, 10, 13, 32}"

definition skip_ws :: "string \<Rightarrow> string" where
  "skip_ws s = dropWhile is_json_space s"

definition is_num_char :: "char \<Rightarrow> bool" where
  "is_num_char c \<longleftrightarrow> is_digit c \<or> c \<in> {CHR ''-'', CHR ''+'', CHR ''.'', CHR ''e'', CHR ''E''}"

definition hex_val :: "char \<Rightarrow> nat option" where
  "hex_val c = (let n = of_char c :: nat in
     if 48 \<le> n \<and> n \<le> 57 then Some (n - 48)
     else if 97 \<le> n \<and> n \<le> 102 then Some (n - 87)
     else if 65 \<le> n \<and> n \<le> 70 then Some (n - 55) else None)"

definition unescape :: "char \<Rightarrow> char option" where
  "unescape c = (let n = of_char c :: nat in
     if n = 34 \<or> n = 92 \<or> n = 47 then Some c else if c = CHR ''b'' then Some (char_of (8::nat))
     else if c = CHR ''t'' then Some (char_of (9::nat)) else if c = CHR ''n'' then Some (char_of (10::nat))
     else if c = CHR ''f'' then Some (char_of (12::nat)) else if c = CHR ''r'' then Some (char_of (13::nat))
     else None)"

text \<open>The body of a string literal, up to its closing quote. A \<open>\u\<close> escape above 00FF is refused.\<close>

fun p_str :: "nat \<Rightarrow> string \<Rightarrow> (string \<times> string) option" where
  "p_str 0 s = None"
| "p_str (Suc n) [] = None"
| "p_str (Suc n) (c # s) =
     (if of_char c = (34::nat) then Some ([], s)
      else if of_char c < (32::nat) then None
      else if of_char c = (92::nat) then
        (case s of
           [] \<Rightarrow> None
         | d # s' \<Rightarrow>
             (if d = CHR ''u'' then
                (case s' of
                   z1 # z2 # a # b # s'' \<Rightarrow>
                     (case (hex_val z1, hex_val z2, hex_val a, hex_val b) of
                        (Some 0, Some 0, Some x, Some y) \<Rightarrow>
                          (case p_str n s'' of None \<Rightarrow> None
                           | Some (t, r) \<Rightarrow> Some (char_of (16 * x + y) # t, r))
                      | _ \<Rightarrow> None)
                 | _ \<Rightarrow> None)
              else (case unescape d of None \<Rightarrow> None
                    | Some e \<Rightarrow> (case p_str n s' of None \<Rightarrow> None | Some (t, r) \<Rightarrow> Some (e # t, r)))))
      else (case p_str n s of None \<Rightarrow> None | Some (t, r) \<Rightarrow> Some (c # t, r)))"

text \<open>A later member of the same key replaces the value and keeps the position.\<close>

fun obj_put :: "(string \<times> json) list \<Rightarrow> string \<Rightarrow> json \<Rightarrow> (string \<times> json) list" where
  "obj_put [] k v = [(k, v)]"
| "obj_put ((k', v') # es) k v = (if k' = k then (k, v) # es else (k', v') # obj_put es k v)"

fun p_val :: "nat \<Rightarrow> string \<Rightarrow> (json \<times> string) option"
  and p_elems :: "nat \<Rightarrow> string \<Rightarrow> (json list \<times> string) option"
  and p_members :: "nat \<Rightarrow> (string \<times> json) list \<Rightarrow> string \<Rightarrow> ((string \<times> json) list \<times> string) option" where
  "p_val 0 s = None"
| "p_val (Suc n) s =
     (case skip_ws s of
        [] \<Rightarrow> None
      | c # r \<Rightarrow>
          (if c = CHR ''{'' then
             (case skip_ws r of
                [] \<Rightarrow> None
              | d # r' \<Rightarrow> if d = CHR ''}'' then Some (JObj [], r')
                  else (case p_members n [] (d # r') of None \<Rightarrow> None | Some (es, t) \<Rightarrow> Some (JObj es, t)))
           else if c = CHR ''['' then
             (case skip_ws r of
                [] \<Rightarrow> None
              | d # r' \<Rightarrow> if d = CHR '']'' then Some (JArr [], r')
                  else (case p_elems n (d # r') of None \<Rightarrow> None | Some (xs, t) \<Rightarrow> Some (JArr xs, t)))
           else if of_char c = (34::nat) then
             (case p_str (Suc (length r)) r of None \<Rightarrow> None | Some (str, t) \<Rightarrow> Some (JStr str, t))
           else if js_starts_with (c # r) ''null'' then Some (JNull, drop 4 (c # r))
           else if js_starts_with (c # r) ''true'' then Some (JBool True, drop 4 (c # r))
           else if js_starts_with (c # r) ''false'' then Some (JBool False, drop 5 (c # r))
           else if is_digit c \<or> c = CHR ''-'' then
             Some (JNum (takeWhile is_num_char (c # r)), dropWhile is_num_char (c # r))
           else None))"
| "p_elems 0 s = None"
| "p_elems (Suc n) s =
     (case p_val n s of None \<Rightarrow> None
      | Some (x, t) \<Rightarrow>
          (case skip_ws t of
             [] \<Rightarrow> None
           | c # r \<Rightarrow> if c = CHR '']'' then Some ([x], r)
               else if c = CHR '','' then
                 (case p_elems n r of None \<Rightarrow> None | Some (xs, u) \<Rightarrow> Some (x # xs, u))
               else None))"
| "p_members 0 acc s = None"
| "p_members (Suc n) acc s =
     (case skip_ws s of
        [] \<Rightarrow> None
      | q # r \<Rightarrow>
          (if of_char q \<noteq> (34::nat) then None
           else (case p_str (Suc (length r)) r of None \<Rightarrow> None
                 | Some (k, t) \<Rightarrow>
                     (case skip_ws t of
                        [] \<Rightarrow> None
                      | c # r2 \<Rightarrow>
                          (if c \<noteq> CHR '':'' then None
                           else (case p_val n r2 of None \<Rightarrow> None
                                 | Some (v, u) \<Rightarrow>
                                     (case skip_ws u of
                                        [] \<Rightarrow> None
                                      | d # r3 \<Rightarrow> if d = CHR ''}'' then Some (obj_put acc k v, r3)
                                          else if d = CHR '','' then p_members n (obj_put acc k v) r3
                                          else None))))))) "

text \<open>
  \<open>JSON.parse\<close>; the nesting and the number of elements are bounded by the length of the text, so
  that much fuel is enough. \<open>None\<close> is the thrown \<open>SyntaxError\<close>.
\<close>

definition json_parse :: "string \<Rightarrow> json option" where
  "json_parse s = (case p_val (Suc (length s)) s of
     None \<Rightarrow> None | Some (j, r) \<Rightarrow> if skip_ws r = [] then Some j else None)"

section \<open>Values that survive the round trip\<close>

definition number_token :: "string \<Rightarrow> bool" where
  "number_token t \<longleftrightarrow> t \<noteq> [] \<and> (is_digit (hd t) \<or> hd t = CHR ''-'') \<and> (\<forall>c \<in> set t. is_num_char c)"

fun plain_json :: "json \<Rightarrow> bool" where
  "plain_json JUndef = False"
| "plain_json (JNum t) = number_token t"
| "plain_json (JArr xs) = (\<forall>x \<in> set xs. plain_json x)"
| "plain_json (JObj es) = (distinct (map fst es) \<and> (\<forall>(k, v) \<in> set es. plain_json v))"
| "plain_json _ = True"

section \<open>The round trip\<close>

definition num_stop :: "string \<Rightarrow> bool" where
  "num_stop r \<longleftrightarrow> r = [] \<or> \<not> is_num_char (hd r)"

lemma hex_val_hex_char: "n < 16 \<Longrightarrow> hex_val (hex_char n) = Some n"
  by (auto simp: hex_val_def hex_char_def)

lemma hex_val_zero [simp]: "hex_val (CHR ''0'') = Some 0"
  by (simp add: hex_val_def)

lemma p_str_escape:
  "p_str (Suc n) (escape_char c @ s) =
     (case p_str n s of None \<Rightarrow> None | Some (t, r) \<Rightarrow> Some (c # t, r))"
proof -
  let ?n = "of_char c :: nat"
  have c: "char_of ?n = c" by simp
  have small: "\<And>k. ?n = k \<Longrightarrow> c = char_of k" using c by metis
  consider "?n = 34" | "?n = 92" | "?n = 8" | "?n = 9" | "?n = 10" | "?n = 12" | "?n = 13"
    | "?n < 32" "?n \<notin> {8, 9, 10, 12, 13}" | "32 \<le> ?n" "?n \<noteq> 34" "?n \<noteq> 92" by fastforce
  then show ?thesis
  proof cases
    case 8
    have "?n div 16 < 16" "?n mod 16 < 16" using 8 by simp_all
    moreover have "16 * (?n div 16) + ?n mod 16 = ?n" by simp
    ultimately show ?thesis using 8
      by (simp add: escape_char_def Let_def hex_val_hex_char c del: mult_div_mod_eq)
        (simp split: option.splits prod.splits)
  next
    case 9
    then show ?thesis by (simp add: escape_char_def Let_def)
  qed (auto simp: escape_char_def Let_def unescape_def dest: small split: option.splits)
qed

lemma p_str_stringify:
  "length s < n \<Longrightarrow> p_str n (concat (map escape_char s) @ quote_char # r) = Some (s, r)"
proof (induction s arbitrary: n)
  case Nil
  then show ?case by (cases n) (simp_all add: quote_char_def)
next
  case (Cons c s)
  then obtain m where "n = Suc m" "length s < m" by (cases n) auto
  then show ?case using Cons.IH by (simp add: p_str_escape)
qed

lemma length_escape: "length s \<le> length (concat (map escape_char s))"
proof (induction s)
  case (Cons c s)
  have "1 \<le> length (escape_char c)" by (simp add: escape_char_def Let_def)
  with Cons show ?case by simp
qed simp

lemma p_str_quoted:
  "p_str (Suc (length (concat (map escape_char s) @ quote_char # r)))
     (concat (map escape_char s) @ quote_char # r) = Some (s, r)"
  using length_escape [of s] by (intro p_str_stringify) simp

lemma obj_put_fresh: "k \<notin> fst ` set es \<Longrightarrow> obj_put es k v = es @ [(k, v)]"
  by (induction es) auto

lemma takeWhile_num:
  "(\<forall>c \<in> set t. is_num_char c) \<Longrightarrow> num_stop r \<Longrightarrow>
     takeWhile is_num_char (t @ r) = t \<and> dropWhile is_num_char (t @ r) = r"
  by (cases r) (auto simp: num_stop_def takeWhile_append2 dropWhile_append2)

lemma js_join_Cons: "js_join sep (x # xs) = x @ (if xs = [] then [] else sep @ js_join sep xs)"
  by (cases xs) auto

lemma stringify_string_head: "stringify_string s = quote_char # (concat (map escape_char s) @ [quote_char])"
  by (simp add: stringify_string_def)

lemma quote_char_simps [simp]:
  "quote_char \<noteq> CHR ''{''" "quote_char \<noteq> CHR ''[''" "of_char quote_char = (34::nat)"
  "\<not> is_json_space quote_char" "quote_char \<noteq> CHR ''}''" "quote_char \<noteq> CHR '']''"
  by (simp_all add: quote_char_def is_json_space_def)

lemma digit_or_minus:
  assumes "is_digit c \<or> c = CHR ''-''"
  shows "c \<noteq> CHR ''{''" "c \<noteq> CHR ''[''" "of_char c \<noteq> (34::nat)" "\<not> is_json_space c"
    "c \<noteq> CHR ''n''" "c \<noteq> CHR ''t''" "c \<noteq> CHR ''f''" "c \<noteq> CHR '']''" "c \<noteq> CHR ''}''"
  using assms by (auto simp: is_digit_def is_json_space_def Let_def)

lemma stringify_start:
  "plain_json j \<Longrightarrow> \<exists>c s. stringify j = c # s \<and> \<not> is_json_space c \<and> c \<noteq> CHR '']'' \<and> c \<noteq> CHR ''}''"
proof (cases j)
  case (JNum t)
  assume "plain_json j"
  with JNum obtain c s where "t = c # s" "is_digit c \<or> c = CHR ''-''"
    by (cases t) (auto simp: number_token_def)
  with JNum digit_or_minus show ?thesis by auto
qed (auto simp: stringify_string_head is_json_space_def)

lemma skip_ws_start: "\<not> is_json_space c \<Longrightarrow> skip_ws (c # s) = c # s"
  by (simp add: skip_ws_def)

lemma json_space_simps [simp]:
  "\<not> is_json_space (CHR '','')" "\<not> is_json_space (CHR '']'')" "\<not> is_json_space (CHR ''}'')"
  "\<not> is_json_space (CHR '':'')" "\<not> is_json_space (CHR ''{'')" "\<not> is_json_space (CHR ''['')"
  "\<not> is_num_char (CHR '','')" "\<not> is_num_char (CHR '']'')" "\<not> is_num_char (CHR ''}'')"
  by (simp_all add: is_json_space_def is_num_char_def is_digit_def)

definition reads :: "json \<Rightarrow> bool" where
  "reads j \<longleftrightarrow> (\<forall>n r. length (stringify j) < n \<longrightarrow> num_stop r \<longrightarrow> p_val n (stringify j @ r) = Some (j, r))"

lemma readsD: "reads j \<Longrightarrow> length (stringify j) < n \<Longrightarrow> num_stop r \<Longrightarrow> p_val n (stringify j @ r) = Some (j, r)"
  by (simp add: reads_def)

lemma p_elems_reads:
  "xs \<noteq> [] \<Longrightarrow> \<forall>x \<in> set xs. reads x \<Longrightarrow>
     length (js_join '','' (map stringify xs)) + 1 < n \<Longrightarrow>
     p_elems n (js_join '','' (map stringify xs) @ CHR '']'' # r) = Some (xs, r)"
proof (induction xs arbitrary: n)
  case Nil
  then show ?case by simp
next
  case (Cons x xs)
  then obtain m where n: "n = Suc m" by (cases n) auto
  show ?case
  proof (cases "xs = []")
    case True
    with Cons.prems n readsD [of x m "CHR '']'' # r"] show ?thesis
      by (simp add: num_stop_def skip_ws_start)
  next
    case False
    let ?rest = "js_join '','' (map stringify xs) @ CHR '']'' # r"
    from False Cons.prems n have x: "p_val m (stringify x @ CHR '','' # ?rest) = Some (x, CHR '','' # ?rest)"
      by (intro readsD) (auto simp: num_stop_def js_join_Cons)
    from False Cons.prems n have "p_elems m ?rest = Some (xs, r)"
      by (intro Cons.IH) (auto simp: js_join_Cons)
    with False n x show ?thesis by (simp add: js_join_Cons skip_ws_start)
  qed
qed

lemma p_members_step:
  "p_members (Suc m) acc (stringify_string k @ CHR '':'' # z) =
     (case p_val m z of None \<Rightarrow> None
      | Some (v, u) \<Rightarrow>
          (case skip_ws u of
             [] \<Rightarrow> None
           | d # r3 \<Rightarrow> if d = CHR ''}'' then Some (obj_put acc k v, r3)
               else if d = CHR '','' then p_members m (obj_put acc k v) r3 else None))"
proof -
  let ?body = "concat (map escape_char k) @ quote_char # CHR '':'' # z"
  have shape: "stringify_string k @ CHR '':'' # z = quote_char # ?body"
    by (simp add: stringify_string_head)
  have "p_str (Suc (length ?body)) ?body = Some (k, CHR '':'' # z)" by (rule p_str_quoted)
  then show ?thesis
    unfolding shape p_members.simps skip_ws_start [OF quote_char_simps(4)]
    by (simp add: skip_ws_start)
qed

definition member_text :: "string \<times> json \<Rightarrow> string" where
  "member_text e = stringify_string (fst e) @ '':'' @ stringify (snd e)"

lemma p_members_reads:
  "es \<noteq> [] \<Longrightarrow> \<forall>e \<in> set es. reads (snd e) \<Longrightarrow> distinct (map fst (acc @ es)) \<Longrightarrow>
     length (js_join '','' (map member_text es)) + 1 < n \<Longrightarrow>
     p_members n acc (js_join '','' (map member_text es) @ CHR ''}'' # r) = Some (acc @ es, r)"
proof (induction es arbitrary: n acc)
  case Nil
  then show ?case by simp
next
  case (Cons e es)
  obtain k v where e: "e = (k, v)" by (cases e)
  from Cons.prems obtain m where n: "n = Suc m" by (cases n) auto
  have fresh: "k \<notin> fst ` set acc" using Cons.prems(3) e by auto
  show ?case
  proof (cases "es = []")
    case True
    with Cons.prems n e have v: "p_val m (stringify v @ CHR ''}'' # r) = Some (v, CHR ''}'' # r)"
      by (intro readsD) (auto simp: num_stop_def member_text_def)
    have shape: "js_join '','' (map member_text (e # es)) @ CHR ''}'' # r =
        stringify_string k @ CHR '':'' # stringify v @ CHR ''}'' # r"
      using True e by (simp add: member_text_def)
    show ?thesis unfolding n shape p_members_step v using fresh True e
      by (simp add: skip_ws_start obj_put_fresh)
  next
    case False
    let ?rest = "js_join '','' (map member_text es) @ CHR ''}'' # r"
    from False Cons.prems n e have v: "p_val m (stringify v @ CHR '','' # ?rest) = Some (v, CHR '','' # ?rest)"
      by (intro readsD) (auto simp: num_stop_def js_join_Cons member_text_def)
    have rest: "p_members m (acc @ [e]) ?rest = Some ((acc @ [e]) @ es, r)"
      using False Cons.prems n by (intro Cons.IH) (auto simp: js_join_Cons)
    have shape: "js_join '','' (map member_text (e # es)) @ CHR ''}'' # r =
        stringify_string k @ CHR '':'' # stringify v @ CHR '','' # ?rest"
      using False e by (simp add: member_text_def js_join_Cons)
    show ?thesis unfolding n shape p_members_step v using fresh e rest
      by (simp add: skip_ws_start obj_put_fresh)
  qed
qed

lemma stringify_obj_plain:
  "\<forall>(k, v) \<in> set es. plain_json v \<Longrightarrow>
     stringify (JObj es) = ''{'' @ js_join '','' (map member_text es) @ ''}''"
proof -
  assume a: "\<forall>(k, v) \<in> set es. plain_json v"
  have "filter (\<lambda>(k, v). v \<noteq> JUndef) es = es" using a by (intro filter_True) auto
  moreover have "(\<lambda>(k, v). stringify_string k @ '':'' @ stringify v) = member_text"
    by (auto simp: member_text_def fun_eq_iff)
  ultimately show ?thesis by (simp only: stringify.simps)
qed

lemma plain_json_reads: "plain_json j \<Longrightarrow> reads j"
proof (induction j rule: stringify.induct)
  case (4 t)
  show ?case unfolding reads_def
  proof (intro allI impI)
    fix n r assume n: "length (stringify (JNum t)) < n" and r: "num_stop r"
    from 4 obtain c s where t: "t = c # s" "is_digit c \<or> c = CHR ''-''" "\<forall>c \<in> set t. is_num_char c"
      by (cases t) (auto simp: number_token_def)
    from n obtain m where "n = Suc m" by (cases n) auto
    with t digit_or_minus [OF t(2)] takeWhile_num [OF t(3) r]
    show "p_val n (stringify (JNum t) @ r) = Some (JNum t, r)"
      by (simp add: skip_ws_start js_starts_with_def)
  qed
next
  case (5 str)
  show ?case unfolding reads_def
  proof (intro allI impI)
    fix n r assume n: "length (stringify (JStr str)) < n"
    then obtain m where "n = Suc m" by (cases n) auto
    then show "p_val n (stringify (JStr str) @ r) = Some (JStr str, r)"
      using p_str_quoted [of str r] by (simp add: stringify_string_head skip_ws_start)
  qed
next
  case (6 xs)
  show ?case unfolding reads_def
  proof (intro allI impI)
    fix n r assume n: "length (stringify (JArr xs)) < n"
    then obtain m where m: "n = Suc m" by (cases n) auto
    have IH: "\<forall>x \<in> set xs. reads x" using 6 by simp
    show "p_val n (stringify (JArr xs) @ r) = Some (JArr xs, r)"
    proof (cases xs)
      case Nil
      with m show ?thesis by (simp add: skip_ws_start)
    next
      case (Cons y ys)
      then obtain c s where "js_join '','' (map stringify xs) = c # s" "\<not> is_json_space c" "c \<noteq> CHR '']''"
        using stringify_start [of y] 6 by (auto simp: js_join_Cons)
      moreover have "p_elems m (js_join '','' (map stringify xs) @ CHR '']'' # r) = Some (xs, r)"
        using IH Cons n m by (intro p_elems_reads) auto
      ultimately show ?thesis using m by (simp add: skip_ws_start)
    qed
  qed
next
  case (7 es)
  have IH: "\<forall>e \<in> set es. reads (snd e)"
  proof
    fix e assume "e \<in> set es"
    with "7.prems" have "plain_json (snd e)" by auto
    moreover from this have "snd e \<noteq> JUndef" by auto
    ultimately show "reads (snd e)" using \<open>e \<in> set es\<close> by (intro "7.IH" [of e "fst e"]) auto
  qed
  have obj: "stringify (JObj es) = ''{'' @ js_join '','' (map member_text es) @ ''}''"
    using "7.prems" by (intro stringify_obj_plain) simp
  show ?case unfolding reads_def obj
  proof (intro allI impI)
    fix n r assume n: "length (''{'' @ js_join '','' (map member_text es) @ ''}'') < n"
    then obtain m where m: "n = Suc m" by (cases n) auto
    show "p_val n ((''{'' @ js_join '','' (map member_text es) @ ''}'') @ r) = Some (JObj es, r)"
    proof (cases es)
      case Nil
      with m show ?thesis by (simp add: skip_ws_start)
    next
      case (Cons y ys)
      then obtain s where s: "js_join '','' (map member_text es) = quote_char # s"
        by (auto simp: js_join_Cons member_text_def stringify_string_head)
      moreover have "p_members m [] (js_join '','' (map member_text es) @ CHR ''}'' # r) = Some ([] @ es, r)"
        using IH Cons n m "7.prems" by (intro p_members_reads) auto
      ultimately show ?thesis using m by (simp add: skip_ws_start)
    qed
  qed
qed (auto simp: reads_def skip_ws_start is_json_space_def js_starts_with_def gr0_conv_Suc
    dest!: less_imp_Suc_add)

lemma json_parse_stringify:
  assumes "plain_json j"
  shows "json_parse (stringify j) = Some j"
  using readsD [OF plain_json_reads [OF assms], of "Suc (length (stringify j))" "[]"]
  by (simp add: json_parse_def num_stop_def skip_ws_def)

text \<open>So the text determines the value.\<close>

lemma stringify_inject: "plain_json i \<Longrightarrow> plain_json j \<Longrightarrow> stringify i = stringify j \<longleftrightarrow> i = j"
  by (metis json_parse_stringify option.inject)

lemma number_token_show_int: "number_token (show_int i)"
proof -
  have d: "\<forall>c \<in> set (show_nat n). is_num_char c" "show_nat n \<noteq> []" "is_digit (hd (show_nat n))" for n
    using show_nat_digits [of n] by (auto simp: is_num_char_def)
  show ?thesis
    using d [of "nat i"] d [of "nat (- i)"] by (auto simp: number_token_def show_int_def is_num_char_def)
qed

end
