(* ===== verification/Redis.thy ===== *)
theory Redis
  imports Mcm_Prelude "HOL-Library.FSet"
begin

text \<open>
  The interface to the Redis server (\<open>RedisLike\<close> in \<open>bff-server/cache-service.ts\<close>). The server is
  not part of the repository: its commands are the parameter \<open>redis\<close> of every operation that uses
  them, over a state type of its own. The locale \<open>redis_up\<close> states what the commands are documented
  to do while the server answers, as their effect on a key-value view of the state. The reference
  server at the end satisfies it and serves to evaluate the operations on concrete inputs.
\<close>

section \<open>What a Redis database holds\<close>

datatype rval = RText string | RSet "string fset"

record entry =
  e_val :: rval
  e_exp :: "int option"

type_synonym kv = "string \<rightharpoonup> entry"

definition live :: "int \<Rightarrow> kv \<Rightarrow> string \<Rightarrow> entry option" where
  "live t v k = (case v k of None \<Rightarrow> None
     | Some e \<Rightarrow> (case e_exp e of None \<Rightarrow> Some e | Some x \<Rightarrow> if t < x then Some e else None))"

definition text_at :: "int \<Rightarrow> kv \<Rightarrow> string \<Rightarrow> string option" where
  "text_at t v k = (case live t v k of None \<Rightarrow> None
     | Some e \<Rightarrow> (case e_val e of RText x \<Rightarrow> Some x | RSet A \<Rightarrow> None))"

definition set_at :: "int \<Rightarrow> kv \<Rightarrow> string \<Rightarrow> string fset" where
  "set_at t v k = (case live t v k of None \<Rightarrow> {||}
     | Some e \<Rightarrow> (case e_val e of RText x \<Rightarrow> {||} | RSet A \<Rightarrow> A))"

definition exp_at :: "int \<Rightarrow> kv \<Rightarrow> string \<Rightarrow> int option" where
  "exp_at t v k = (case live t v k of None \<Rightarrow> None | Some e \<Rightarrow> e_exp e)"

definition count_at :: "int \<Rightarrow> kv \<Rightarrow> string \<Rightarrow> int option" where
  "count_at t v k = (case text_at t v k of None \<Rightarrow> Some 0 | Some x \<Rightarrow> read_int x)"

text \<open>A command for a text is an error on a set, and the other way round.\<close>

definition holds_text :: "int \<Rightarrow> kv \<Rightarrow> string \<Rightarrow> bool" where
  "holds_text t v k \<longleftrightarrow> (case live t v k of None \<Rightarrow> False
     | Some e \<Rightarrow> (case e_val e of RText x \<Rightarrow> True | RSet A \<Rightarrow> False))"

definition holds_set :: "int \<Rightarrow> kv \<Rightarrow> string \<Rightarrow> bool" where
  "holds_set t v k \<longleftrightarrow> (case live t v k of None \<Rightarrow> False
     | Some e \<Rightarrow> (case e_val e of RText x \<Rightarrow> False | RSet A \<Rightarrow> True))"

definition put_text :: "string \<Rightarrow> string \<Rightarrow> int option \<Rightarrow> kv \<Rightarrow> kv" where
  "put_text k x e v = v(k \<mapsto> \<lparr>e_val = RText x, e_exp = e\<rparr>)"

definition put_set :: "string \<Rightarrow> string fset \<Rightarrow> int option \<Rightarrow> kv \<Rightarrow> kv" where
  "put_set k A e v = v(k := if A = {||} then None else Some \<lparr>e_val = RSet A, e_exp = e\<rparr>)"

definition drop_keys :: "string list \<Rightarrow> kv \<Rightarrow> kv" where
  "drop_keys ks v = (\<lambda>k. if k \<in> set ks then None else v k)"

definition put_exp :: "int \<Rightarrow> string \<Rightarrow> int \<Rightarrow> kv \<Rightarrow> kv" where
  "put_exp t k x v = (case live t v k of None \<Rightarrow> v | Some e \<Rightarrow> v(k \<mapsto> e\<lparr>e_exp := Some x\<rparr>))"

section \<open>The commands\<close>

record 'r redis =
  r_get :: "int \<Rightarrow> string \<Rightarrow> ('r, string option) io"
  r_mget :: "int \<Rightarrow> string \<Rightarrow> string \<Rightarrow> ('r, string option \<times> string option) io"
  r_set_ex :: "int \<Rightarrow> string \<Rightarrow> string \<Rightarrow> int \<Rightarrow> ('r, unit) io"
  r_set_nx :: "int \<Rightarrow> string \<Rightarrow> string \<Rightarrow> int \<Rightarrow> ('r, bool) io"
  r_set_xx :: "int \<Rightarrow> string \<Rightarrow> string \<Rightarrow> int \<Rightarrow> ('r, bool) io"
  r_del :: "int \<Rightarrow> string list \<Rightarrow> ('r, int) io"
  r_incr :: "int \<Rightarrow> string \<Rightarrow> ('r, int) io"
  r_incrby :: "int \<Rightarrow> string \<Rightarrow> int \<Rightarrow> ('r, int) io"
  r_expire :: "int \<Rightarrow> string \<Rightarrow> int \<Rightarrow> ('r, unit) io"
  r_smembers :: "int \<Rightarrow> string \<Rightarrow> ('r, string list) io"
  r_sadd :: "int \<Rightarrow> string \<Rightarrow> string \<Rightarrow> ('r, unit) io"
  r_srem :: "int \<Rightarrow> string \<Rightarrow> string \<Rightarrow> ('r, unit) io"
  r_scard :: "int \<Rightarrow> string \<Rightarrow> ('r, int) io"
  r_eval :: "int \<Rightarrow> ('r, int) io \<Rightarrow> ('r, int) io"

text \<open>
  The documented effect of each command at the server's time \<open>t\<close> (milliseconds; a TTL is in
  seconds). \<open>EVAL\<close> runs its script as one step. \<open>order\<close> is the order in which \<open>SMEMBERS\<close> lists a
  set, which the documentation leaves open.
\<close>

locale redis_up =
  fixes R :: "'r redis"
    and view :: "'r \<Rightarrow> kv"
    and order :: "'r \<Rightarrow> string fset \<Rightarrow> string list"
  assumes order_set: "fset_of_list (order s A) = A"
    and order_distinct: "distinct (order s A)"
    and get_result: "\<not> holds_set t (view s) k \<Longrightarrow> fst (r_get R t k s) = Inr (text_at t (view s) k)"
    and get_view: "view (snd (r_get R t k s)) = view s"
    and mget_result: "fst (r_mget R t k l s) = Inr (text_at t (view s) k, text_at t (view s) l)"
    and mget_view: "view (snd (r_mget R t k l s)) = view s"
    and set_ex_result: "0 < ttl \<Longrightarrow> fst (r_set_ex R t k x ttl s) = Inr ()"
    and set_ex_view: "0 < ttl \<Longrightarrow>
      view (snd (r_set_ex R t k x ttl s)) = put_text k x (Some (t + ttl * 1000)) (view s)"
    and set_nx_result: "0 < ttl \<Longrightarrow> fst (r_set_nx R t k x ttl s) = Inr (live t (view s) k = None)"
    and set_nx_view: "0 < ttl \<Longrightarrow> view (snd (r_set_nx R t k x ttl s)) =
      (if live t (view s) k = None then put_text k x (Some (t + ttl * 1000)) (view s) else view s)"
    and set_xx_result: "0 < ttl \<Longrightarrow> fst (r_set_xx R t k x ttl s) = Inr (live t (view s) k \<noteq> None)"
    and set_xx_view: "0 < ttl \<Longrightarrow> view (snd (r_set_xx R t k x ttl s)) =
      (if live t (view s) k \<noteq> None then put_text k x (Some (t + ttl * 1000)) (view s) else view s)"
    and del_result: "fst (r_del R t ks s) = Inr (int (card {k \<in> set ks. live t (view s) k \<noteq> None}))"
    and del_view: "view (snd (r_del R t ks s)) = drop_keys ks (view s)"
    and incrby_result: "\<not> holds_set t (view s) k \<Longrightarrow> count_at t (view s) k = Some n \<Longrightarrow>
      fst (r_incrby R t k m s) = Inr (n + m)"
    and incrby_view: "\<not> holds_set t (view s) k \<Longrightarrow> count_at t (view s) k = Some n \<Longrightarrow>
      view (snd (r_incrby R t k m s)) = put_text k (show_int (n + m)) (exp_at t (view s) k) (view s)"
    and incr_is_incrby: "r_incr R t k s = r_incrby R t k 1 s"
    and expire_result: "0 < ttl \<Longrightarrow> fst (r_expire R t k ttl s) = Inr ()"
    and expire_view: "0 < ttl \<Longrightarrow>
      view (snd (r_expire R t k ttl s)) = put_exp t k (t + ttl * 1000) (view s)"
    and smembers_result: "\<not> holds_text t (view s) k \<Longrightarrow>
      fst (r_smembers R t k s) = Inr (order s (set_at t (view s) k))"
    and smembers_view: "view (snd (r_smembers R t k s)) = view s"
    and sadd_result: "\<not> holds_text t (view s) k \<Longrightarrow> fst (r_sadd R t k x s) = Inr ()"
    and sadd_view: "\<not> holds_text t (view s) k \<Longrightarrow> view (snd (r_sadd R t k x s)) =
      put_set k (finsert x (set_at t (view s) k)) (exp_at t (view s) k) (view s)"
    and srem_result: "\<not> holds_text t (view s) k \<Longrightarrow> fst (r_srem R t k x s) = Inr ()"
    and srem_view: "\<not> holds_text t (view s) k \<Longrightarrow> view (snd (r_srem R t k x s)) =
      put_set k (set_at t (view s) k |-| {|x|}) (exp_at t (view s) k) (view s)"
    and scard_result: "\<not> holds_text t (view s) k \<Longrightarrow>
      fst (r_scard R t k s) = Inr (int (fcard (set_at t (view s) k)))"
    and scard_view: "view (snd (r_scard R t k s)) = view s"
    and eval_atomic: "r_eval R t p s = p s"
begin

lemmas commands = get_result get_view mget_result mget_view set_ex_result set_ex_view set_nx_result
  set_nx_view set_xx_result set_xx_view del_result del_view incrby_result incrby_view incr_is_incrby
  expire_result expire_view smembers_result smembers_view sadd_result sadd_view srem_result srem_view
  scard_result scard_view eval_atomic

lemma order_members: "set (order s A) = fset A"
  by (metis fset_of_list.rep_eq order_set)

end

section \<open>Reading an updated database\<close>

lemma live_put_text [simp]:
  "live t (put_text k x e v) k' =
     (if k' = k then (if (case e of None \<Rightarrow> True | Some y \<Rightarrow> t < y) then Some \<lparr>e_val = RText x, e_exp = e\<rparr> else None)
      else live t v k')"
  by (simp add: live_def put_text_def split: option.split)

lemma live_put_set [simp]:
  "live t (put_set k A e v) k' =
     (if k' = k then (if A \<noteq> {||} \<and> (case e of None \<Rightarrow> True | Some y \<Rightarrow> t < y)
         then Some \<lparr>e_val = RSet A, e_exp = e\<rparr> else None)
      else live t v k')"
  by (simp add: live_def put_set_def split: option.split)

lemma live_drop_keys [simp]: "live t (drop_keys ks v) k = (if k \<in> set ks then None else live t v k)"
  by (simp add: live_def drop_keys_def)

lemma live_put_exp [simp]:
  "live t' (put_exp t k x v) k' =
     (if k' = k then (case live t v k of None \<Rightarrow> live t' v k
        | Some e \<Rightarrow> if t' < x then Some (e\<lparr>e_exp := Some x\<rparr>) else None)
      else live t' v k')"
  by (auto simp: live_def put_exp_def split: option.split)

text \<open>\<open>put_exp\<close> on a key that is not live leaves the database as it is.\<close>

lemma put_exp_absent: "live t v k = None \<Longrightarrow> put_exp t k x v = v"
  by (simp add: put_exp_def)

lemma exp_at_live: "exp_at t v k = Some x \<Longrightarrow> t < x"
  by (auto simp: exp_at_def live_def split: option.splits if_splits)

lemma live_at_exp_at:
  "live t v k = Some e \<Longrightarrow> (case e_exp e of None \<Rightarrow> True | Some y \<Rightarrow> t < y)"
  by (auto simp: live_def split: option.splits if_splits)

section \<open>The reference server\<close>

definition ref_redis :: "kv redis" where
  "ref_redis = \<lparr>
     r_get = (\<lambda>t k s. (if holds_set t s k then Inl (JsError ''WRONGTYPE'') else Inr (text_at t s k), s)),
     r_mget = (\<lambda>t k l s. (Inr (text_at t s k, text_at t s l), s)),
     r_set_ex = (\<lambda>t k x ttl s. (if 0 < ttl then (Inr (), put_text k x (Some (t + ttl * 1000)) s)
        else (Inl (JsError ''ERR invalid expire time''), s))),
     r_set_nx = (\<lambda>t k x ttl s. (if 0 < ttl then
         (if live t s k = None then (Inr True, put_text k x (Some (t + ttl * 1000)) s) else (Inr False, s))
        else (Inl (JsError ''ERR invalid expire time''), s))),
     r_set_xx = (\<lambda>t k x ttl s. (if 0 < ttl then
         (if live t s k \<noteq> None then (Inr True, put_text k x (Some (t + ttl * 1000)) s) else (Inr False, s))
        else (Inl (JsError ''ERR invalid expire time''), s))),
     r_del = (\<lambda>t ks s. (Inr (int (card {k \<in> set ks. live t s k \<noteq> None})), drop_keys ks s)),
     r_incr = (\<lambda>t k s. case count_at t s k of
         Some n \<Rightarrow> if holds_set t s k then (Inl (JsError ''WRONGTYPE''), s)
           else (Inr (n + 1), put_text k (show_int (n + 1)) (exp_at t s k) s)
       | None \<Rightarrow> (Inl (JsError ''ERR value is not an integer''), s)),
     r_incrby = (\<lambda>t k m s. case count_at t s k of
         Some n \<Rightarrow> if holds_set t s k then (Inl (JsError ''WRONGTYPE''), s)
           else (Inr (n + m), put_text k (show_int (n + m)) (exp_at t s k) s)
       | None \<Rightarrow> (Inl (JsError ''ERR value is not an integer''), s)),
     r_expire = (\<lambda>t k ttl s. (Inr (), if 0 < ttl then put_exp t k (t + ttl * 1000) s else drop_keys [k] s)),
     r_smembers = (\<lambda>t k s. (if holds_text t s k then Inl (JsError ''WRONGTYPE'')
        else Inr (sorted_list_of_fset (set_at t s k)), s)),
     r_sadd = (\<lambda>t k x s. if holds_text t s k then (Inl (JsError ''WRONGTYPE''), s)
        else (Inr (), put_set k (finsert x (set_at t s k)) (exp_at t s k) s)),
     r_srem = (\<lambda>t k x s. if holds_text t s k then (Inl (JsError ''WRONGTYPE''), s)
        else (Inr (), put_set k (set_at t s k |-| {|x|}) (exp_at t s k) s)),
     r_scard = (\<lambda>t k s. (if holds_text t s k then Inl (JsError ''WRONGTYPE'')
        else Inr (int (fcard (set_at t s k))), s)),
     r_eval = (\<lambda>t p s. p s)\<rparr>"

definition ref_order :: "kv \<Rightarrow> string fset \<Rightarrow> string list" where
  "ref_order s A = sorted_list_of_fset A"

lemma distinct_sorted_fset: "distinct (sorted_list_of_fset A)"
  by (simp add: sorted_list_of_fset.rep_eq)

interpretation ref: redis_up ref_redis "\<lambda>s. s" ref_order
  by unfold_locales
    (auto simp: ref_redis_def ref_order_def sorted_list_of_fset_simps(2) distinct_sorted_fset
      split: option.splits)

end
