(* ===== verification/World.thy ===== *)
theory World
  imports Redis
begin

text \<open>
  The server's world as one state: the Redis database, the audit trail the handlers write
  (\<open>logger.audit\<close> and \<open>audit()\<close>), and the state of every other external service an operation calls
  (identity provider, movie service, storage destination), whose operations are parameters over
  \<open>'x\<close>. \<open>inRedis\<close> and \<open>inExt\<close> run an operation of one part and leave the others alone.
  Diagnostic log lines (\<open>logger.warn\<close>, \<open>logger.info\<close>) are not kept.
\<close>

record audit_event =
  au_name :: string
  au_fields :: "(string \<times> string) list"

record ('r, 'x) world =
  w_redis :: 'r
  w_audits :: "audit_event list"
  w_ext :: 'x

abbreviation empty_world :: "'x \<Rightarrow> (kv, 'x) world" where
  "empty_world x \<equiv> \<lparr>w_redis = (\<lambda>_. None), w_audits = [], w_ext = x\<rparr>"

type_synonym ('r, 'x, 'a) act = "(('r, 'x) world, 'a) io"

definition inRedis :: "('r, 'a) io \<Rightarrow> ('r, 'x, 'a) act" where
  "inRedis m = (\<lambda>w. (fst (m (w_redis w)), w\<lparr>w_redis := snd (m (w_redis w))\<rparr>))"

definition inExt :: "('x, 'a) io \<Rightarrow> ('r, 'x, 'a) act" where
  "inExt m = (\<lambda>w. (fst (m (w_ext w)), w\<lparr>w_ext := snd (m (w_ext w))\<rparr>))"

definition auditM :: "string \<Rightarrow> (string \<times> string) list \<Rightarrow> ('r, 'x, unit) act" where
  "auditM n fs =
     modifyM (\<lambda>w. w\<lparr>w_audits := w_audits w @ [\<lparr>au_name = n, au_fields = fs\<rparr>]\<rparr>)"

lemma inRedis_run [io_simps]:
  "inRedis m w = (fst (m (w_redis w)), w\<lparr>w_redis := snd (m (w_redis w))\<rparr>)"
  by (simp add: inRedis_def)

lemma inRedis_step: "m (w_redis w) = (Inr x, s) \<Longrightarrow> inRedis m w = (Inr x, w\<lparr>w_redis := s\<rparr>)"
  by (simp add: inRedis_def)

lemma inExt_run [io_simps]: "inExt m w = (fst (m (w_ext w)), w\<lparr>w_ext := snd (m (w_ext w))\<rparr>)"
  by (simp add: inExt_def)

lemma auditM_run [io_simps]:
  "auditM n fs w = (Inr (), w\<lparr>w_audits := w_audits w @ [\<lparr>au_name = n, au_fields = fs\<rparr>]\<rparr>)"
  by (simp add: auditM_def)

end
