(* ===== verification/Http.thy ===== *)
theory Http
  imports Json World
begin

text \<open>
  Outgoing HTTP as the server uses it: requests, responses, and \<open>fetch\<close> as a parameter over the
  state \<open>'h\<close> of the network (an exception is a network failure or a timeout). \<open>encodeURIComponent\<close>
  and the reading of members of parsed JSON are the standard library's. Texts of the model are
  Latin-1, so a byte and a character are the same on ASCII.
\<close>

datatype http_body = BNone | BForm "(string \<times> string) list" | BText string

record http_request =
  rq_method :: string
  rq_url :: string
  rq_headers :: "(string \<times> string) list"
  rq_body :: http_body

record http_response =
  rs_status :: int
  rs_body :: string
  rs_headers :: "string \<Rightarrow> string option"

type_synonym 'h http = "http_request \<Rightarrow> ('h, http_response) io"

definition http_ok :: "http_response \<Rightarrow> bool" where
  "http_ok r \<longleftrightarrow> 200 \<le> rs_status r \<and> rs_status r < 300"

definition syntaxError :: exn where "syntaxError = JsError ''SyntaxError''"
definition typeError :: exn where "typeError = JsError ''TypeError''"

definition parseJson :: "string \<Rightarrow> exn + json" where
  "parseJson t = (case json_parse t of None \<Rightarrow> Inl syntaxError | Some j \<Rightarrow> Inr j)"

definition response_json :: "http_response \<Rightarrow> exn + json" where
  "response_json r = parseJson (rs_body r)"

section \<open>Reading parsed JSON\<close>

definition json_member :: "json \<Rightarrow> string \<Rightarrow> json" where
  "json_member j k = (case j of JObj es \<Rightarrow> (case map_of es k of Some v \<Rightarrow> v | None \<Rightarrow> JUndef) | _ \<Rightarrow> JUndef)"

definition member :: "json \<Rightarrow> string \<Rightarrow> exn + json" where
  "member j k = (if j = JNull \<or> j = JUndef then Inl typeError else Inr (json_member j k))"

definition json_index :: "json \<Rightarrow> nat \<Rightarrow> json" where
  "json_index j n = (case j of JArr xs \<Rightarrow> if n < length xs then xs ! n else JUndef | _ \<Rightarrow> JUndef)"

definition optional_text :: "json \<Rightarrow> string option" where
  "optional_text j = (case j of JStr s \<Rightarrow> Some s | _ \<Rightarrow> None)"

definition optional_int :: "json \<Rightarrow> int option" where
  "optional_int j = (case j of JNum t \<Rightarrow> read_int t | _ \<Rightarrow> None)"

definition json_items :: "json \<Rightarrow> json list" where
  "json_items j = (case j of JArr xs \<Rightarrow> xs | _ \<Rightarrow> [])"

section \<open>URL components\<close>

definition hex_digit :: "nat \<Rightarrow> char" where
  "hex_digit n = (if n mod 16 < 10 then char_of (48 + n mod 16) else char_of (55 + n mod 16))"

definition pct :: "nat \<Rightarrow> string" where
  "pct n = [CHR ''%'', hex_digit (n div 16), hex_digit n]"

definition uri_unreserved :: "char \<Rightarrow> bool" where
  "uri_unreserved c = (let n = of_char c :: nat in
     (48 \<le> n \<and> n \<le> 57) \<or> (65 \<le> n \<and> n \<le> 90) \<or> (97 \<le> n \<and> n \<le> 122) \<or> c \<in> set ''-_.!~*'' \<or> n = 39 \<or> n = 40 \<or> n = 41)"

definition encodeURIComponent :: "string \<Rightarrow> string" where
  "encodeURIComponent s = concat (map (\<lambda>c. let n = of_char c :: nat in
     if uri_unreserved c then [c]
     else if n < 128 then pct n
     else pct (192 + n div 64) @ pct (128 + n mod 64)) s)"

text \<open>The form encoding of \<open>URLSearchParams\<close>: a blank is a plus sign.\<close>

definition formEncode :: "string \<Rightarrow> string" where
  "formEncode s = concat (map (\<lambda>c. let n = of_char c :: nat in
     if (48 \<le> n \<and> n \<le> 57) \<or> (65 \<le> n \<and> n \<le> 90) \<or> (97 \<le> n \<and> n \<le> 122) \<or> c \<in> set ''*-._'' then [c]
     else if n = 32 then ''+''
     else if n < 128 then pct n
     else pct (192 + n div 64) @ pct (128 + n mod 64)) s)"

text \<open>An encoded component never holds a separator of a URL.\<close>

lemma hex_digit_unreserved: "uri_unreserved (hex_digit n)"
proof -
  have lt: "n mod 16 < 16" by simp
  show ?thesis
  proof (cases "n mod 16 < 10")
    case True
    then show ?thesis by (simp add: hex_digit_def uri_unreserved_def Let_def)
  next
    case False
    then have "65 \<le> 55 + n mod 16" "55 + n mod 16 \<le> 90" using lt by linarith+
    with False show ?thesis by (simp add: hex_digit_def uri_unreserved_def Let_def)
  qed
qed

lemma encodeURIComponent_chars:
  "c \<in> set (encodeURIComponent s) \<Longrightarrow> uri_unreserved c \<or> c = CHR ''%''"
  by (auto simp: encodeURIComponent_def pct_def Let_def hex_digit_unreserved split: if_splits)

lemma encodeURIComponent_no_slash: "CHR ''/'' \<notin> set (encodeURIComponent s)"
  using encodeURIComponent_chars [of "CHR ''/''" s] by (auto simp: uri_unreserved_def)

end
