(* ===== verification/Codec.thy ===== *)
theory Codec
  imports Env Http
begin

text \<open>
  The byte encodings of the Node runtime the server uses (\<open>Buffer\<close>): base64 in both alphabets, UTF-8
  on the Latin-1 range, and the numeric reading of a JSON claim in a comparison. A byte string is a
  list of characters.
\<close>

section \<open>Base64\<close>

definition b64_alphabet :: string where
  "b64_alphabet = ''ABCDEFGHIJKLMNOPQRSTUVWXYZabcdefghijklmnopqrstuvwxyz0123456789+/''"

definition b64_char :: "nat \<Rightarrow> char" where
  "b64_char n = (if n < 26 then char_of (65 + n) else if n < 52 then char_of (71 + n)
     else if n < 62 then char_of (n - 4) else if n = 62 then CHR ''+'' else CHR ''/'')"

definition b64_val :: "char \<Rightarrow> nat option" where
  "b64_val c = (let n = of_char c :: nat in
     if 65 \<le> n \<and> n \<le> 90 then Some (n - 65)
     else if 97 \<le> n \<and> n \<le> 122 then Some (n - 71)
     else if 48 \<le> n \<and> n \<le> 57 then Some (n + 4)
     else if n = 43 \<or> n = 45 then Some 62
     else if n = 47 \<or> n = 95 then Some 63
     else None)"

fun b64_encode_vals :: "nat list \<Rightarrow> nat list" where
  "b64_encode_vals [] = []"
| "b64_encode_vals [a] = [a div 4, (a mod 4) * 16]"
| "b64_encode_vals [a, b] = [a div 4, (a mod 4) * 16 + b div 16, (b mod 16) * 4]"
| "b64_encode_vals (a # b # c # r) =
     a div 4 # ((a mod 4) * 16 + b div 16) # ((b mod 16) * 4 + c div 64) # (c mod 64) # b64_encode_vals r"

fun b64_decode_vals :: "nat list \<Rightarrow> nat list" where
  "b64_decode_vals (x # y # z # w # r) =
     (x * 4 + y div 16) # ((y mod 16) * 16 + z div 4) # ((z mod 4) * 64 + w) # b64_decode_vals r"
| "b64_decode_vals [x, y, z] = [x * 4 + y div 16, (y mod 16) * 16 + z div 4]"
| "b64_decode_vals [x, y] = [x * 4 + y div 16]"
| "b64_decode_vals _ = []"

definition b64_pad :: "string \<Rightarrow> string" where
  "b64_pad s = s @ replicate ((4 - length s mod 4) mod 4) (CHR ''='')"

definition base64_encode :: "string \<Rightarrow> string" where
  "base64_encode bs = b64_pad (map b64_char (b64_encode_vals (map of_char bs)))"

definition base64url_encode :: "string \<Rightarrow> string" where
  "base64url_encode bs = map (\<lambda>c. if c = CHR ''+'' then CHR ''-'' else if c = CHR ''/'' then CHR ''_'' else c)
     (map b64_char (b64_encode_vals (map of_char bs)))"

text \<open>\<open>Buffer.from(s, 'base64')\<close>: both alphabets, other characters skipped, the padding ends the text.\<close>

definition base64_decode :: "string \<Rightarrow> string" where
  "base64_decode s = map char_of (b64_decode_vals
     (List.map_filter b64_val (takeWhile (\<lambda>c. c \<noteq> CHR ''='') s)))"

lemma b64_val_char [simp]: "n < 64 \<Longrightarrow> b64_val (b64_char n) = Some n"
  by (auto simp: b64_val_def b64_char_def Let_def)

lemma b64_val_pad: "b64_val (CHR ''='') = None"
  by (simp add: b64_val_def)

lemma b64_char_not_pad: "n < 64 \<Longrightarrow> b64_char n \<noteq> CHR ''=''"
  by (metis b64_val_char b64_val_pad option.distinct(1))

lemma b64_encode_vals_bound: "\<forall>x \<in> set bs. x < 256 \<Longrightarrow> \<forall>x \<in> set (b64_encode_vals bs). x < 64"
  by (induction bs rule: b64_encode_vals.induct) (auto simp: less_mult_imp_div_less; presburger)+

lemma sextet_div: "b < 256 \<Longrightarrow> (m * 16 + b div 16) div 16 = (m :: nat)"
  "c < 256 \<Longrightarrow> (m * 4 + c div 64) div 4 = (m :: nat)"
  by (simp_all add: div_mult_self3)

lemma sextet_mod: "b < 256 \<Longrightarrow> (m * 16 + b div 16) mod 16 = (b div 16 :: nat)"
  "c < 256 \<Longrightarrow> (m * 4 + c div 64) mod 4 = (c div 64 :: nat)"
  by simp_all

lemma b64_decode_encode_vals:
  "\<forall>x \<in> set bs. x < 256 \<Longrightarrow> b64_decode_vals (b64_encode_vals bs) = bs"
  by (induction bs rule: b64_encode_vals.induct) (auto simp: sextet_div sextet_mod)

text \<open>What was encoded is decoded to the same bytes.\<close>

lemma base64_decode_encode: "base64_decode (base64_encode bs) = bs"
proof -
  let ?vs = "b64_encode_vals (map of_char bs)"
  have b: "\<forall>x \<in> set ?vs. x < 64" by (rule b64_encode_vals_bound) auto
  have "takeWhile (\<lambda>c. c \<noteq> CHR ''='') (base64_encode bs) = map b64_char ?vs"
  proof -
    have all: "\<forall>c \<in> set (map b64_char ?vs). c \<noteq> CHR ''=''" using b b64_char_not_pad by auto
    have pad: "takeWhile (\<lambda>c. c \<noteq> CHR ''='') (replicate n (CHR ''='')) = []" for n by (cases n) auto
    show ?thesis unfolding base64_encode_def b64_pad_def
      by (subst takeWhile_append2) (use all in blast, simp only: pad append_Nil2)
  qed
  moreover have "List.map_filter b64_val (map b64_char vs) = vs" if "\<forall>x \<in> set vs. x < 64" for vs
    using that by (induction vs) (auto simp: List.map_filter_simps)
  moreover have "map char_of (map of_char bs :: nat list) = bs" by (simp add: map_idI)
  ultimately show ?thesis
    using b by (simp add: base64_decode_def b64_decode_encode_vals)
qed

section \<open>UTF-8 on the Latin-1 range\<close>

fun utf8_decode :: "string \<Rightarrow> string" where
  "utf8_decode [] = []"
| "utf8_decode (c # cs) = (let n = of_char c :: nat in
     if n < 128 then c # utf8_decode cs
     else (case cs of
        [] \<Rightarrow> [CHR ''?'']
      | d # r \<Rightarrow> (let m = of_char d :: nat in
          if 194 \<le> n \<and> n \<le> 195 \<and> 128 \<le> m \<and> m < 192 then char_of ((n - 192) * 64 + (m - 128)) # utf8_decode r
          else CHR ''?'' # utf8_decode cs)))"

definition utf8_encode :: "string \<Rightarrow> string" where
  "utf8_encode s = concat (map (\<lambda>c. let n = of_char c :: nat in
     if n < 128 then [c] else [char_of (192 + n div 64), char_of (128 + n mod 64)]) s)"

lemma utf8_decode_encode [simp]: "utf8_decode (utf8_encode s) = s"
proof (induction s)
  case Nil
  then show ?case by (simp add: utf8_encode_def)
next
  case (Cons c s)
  define n where "n = (of_char c :: nat)"
  have n: "n < 256" by (simp add: n_def)
  show ?case
  proof (cases "n < 128")
    case True
    with Cons show ?thesis by (simp add: utf8_encode_def Let_def n_def)
  next
    case False
    have q: "n div 64 = 2 \<or> n div 64 = 3" using n False by (auto simp: div_nat_eqI)
    have m: "n mod 64 < 64" by simp
    have r: "n div 64 * 64 + n mod 64 = n" by simp
    have c: "char_of n = c" by (simp add: n_def)
    have u: "128 + n mod 64 < 256" using m by auto
    from q show ?thesis
    proof
      assume q2: "n div 64 = 2"
      with r have e: "128 + n mod 64 = n" by simp
      then have "n < 192" using m by linarith
      with e Cons q2 m u c False show ?thesis
        by (simp add: utf8_encode_def Let_def n_def [symmetric] of_char_mod_256)
    next
      assume q3: "n div 64 = 3"
      with r have e: "192 + n mod 64 = n" by simp
      then have "192 \<le> n" by linarith
      with e Cons q3 m u c False show ?thesis
        by (simp add: utf8_encode_def Let_def n_def [symmetric] of_char_mod_256)
    qed
  qed
qed

section \<open>Numbers of a parsed claim\<close>

text \<open>\<open>Number(x)\<close> on a parsed JSON value, \<open>None\<close> being \<open>NaN\<close>: every comparison with it is false.\<close>

definition js_number :: "json \<Rightarrow> rat option" where
  "js_number j = (case j of
     JNum t \<Rightarrow> js_parse_float t
   | JStr s \<Rightarrow> (let t = js_trim s in if t = [] then Some 0
                else if number_token t then js_parse_float t else None)
   | JNull \<Rightarrow> Some 0
   | JBool b \<Rightarrow> Some (if b then 1 else 0)
   | _ \<Rightarrow> None)"

definition js_le_int :: "json \<Rightarrow> int \<Rightarrow> bool" where
  "js_le_int j n = (case js_number j of Some x \<Rightarrow> x \<le> of_int n | None \<Rightarrow> False)"

definition js_gt_int :: "json \<Rightarrow> int \<Rightarrow> bool" where
  "js_gt_int j n = (case js_number j of Some x \<Rightarrow> of_int n < x | None \<Rightarrow> False)"

end
