(* ===== verification/Keycloak.thy ===== *)
theory Keycloak
  imports Codec
begin

text \<open>
  \<open>bff-server/keycloak.ts\<close>: the calls to the identity provider's token endpoint and its Admin API.
  \<open>idp\<close> holds the module's own state (the discovery document it caches, the clients whose redirect
  addresses are known to be registered), the key cache of \<open>token-service.ts\<close>, and the state \<open>'h\<close> of
  the network behind \<open>fetch\<close>. A response body is cast unchecked in the source: a missing member reads
  as \<open>JUndef\<close>, and reading a member of \<open>null\<close> throws.
\<close>

record 'h idp =
  idp_discovery :: "json option"
  idp_ensured :: "string list"
  idp_jwks :: "json option"
  idp_jwks_time :: int
  idp_http :: 'h

record 'h kc_ctx =
  kcx_env :: env
  kcx_request_id :: "string option"
  kcx_fetch :: "'h http"

type_synonym ('h, 'a) idp_io = "('h idp, 'a) io"

definition keycloakFetch :: "'h kc_ctx \<Rightarrow> http_request \<Rightarrow> ('h, http_response) idp_io" where
  "keycloakFetch K rq = (\<lambda>s.
     let rq' = (case kcx_request_id K of
        None \<Rightarrow> rq
      | Some i \<Rightarrow> if i = [] then rq else rq\<lparr>rq_headers :=
          (if ''X-Request-Id'' \<in> fst ` set (rq_headers rq) then rq_headers rq
           else (''X-Request-Id'', i) # rq_headers rq)\<rparr>);
         r = kcx_fetch K rq' (idp_http s)
     in (fst r, s\<lparr>idp_http := snd r\<rparr>))"

record token_response =
  access_token :: string
  refresh_token :: string
  id_token :: string
  expires_in :: int
  refresh_expires_in :: int

definition json_string :: "json \<Rightarrow> string" where
  "json_string j = (case j of JStr s \<Rightarrow> s | _ \<Rightarrow> [])"

definition json_number_int :: "json \<Rightarrow> int" where
  "json_number_int j = (case j of JNum t \<Rightarrow> (case read_int t of Some i \<Rightarrow> i | None \<Rightarrow> 0) | _ \<Rightarrow> 0)"

definition token_response_of :: "json \<Rightarrow> token_response" where
  "token_response_of j = \<lparr>access_token = json_string (json_member j ''access_token''),
     refresh_token = json_string (json_member j ''refresh_token''),
     id_token = json_string (json_member j ''id_token''),
     expires_in = json_number_int (json_member j ''expires_in''),
     refresh_expires_in = json_number_int (json_member j ''refresh_expires_in'')\<rparr>"

definition get_request :: "string \<Rightarrow> (string \<times> string) list \<Rightarrow> http_request" where
  "get_request url hs = \<lparr>rq_method = ''GET'', rq_url = url, rq_headers = hs, rq_body = BNone\<rparr>"

definition form_post :: "string \<Rightarrow> (string \<times> string) list \<Rightarrow> http_request" where
  "form_post url fs = \<lparr>rq_method = ''POST'', rq_url = url,
     rq_headers = [(''Content-Type'', ''application/x-www-form-urlencoded'')], rq_body = BForm fs\<rparr>"

definition bearer :: "string \<Rightarrow> (string \<times> string) list" where
  "bearer t = [(''Authorization'', ''Bearer '' @ t)]"

definition keycloakUnavailable :: "string \<Rightarrow> int \<Rightarrow> exn" where
  "keycloakUnavailable msg status = mk_auth_error KEYCLOAK_UNAVAILABLE msg status"

section \<open>Discovery and the service token\<close>

definition getDiscovery :: "'h kc_ctx \<Rightarrow> ('h, json) idp_io" where
  "getDiscovery K = bindM (getM idp_discovery) (\<lambda>cached. case cached of
     Some d \<Rightarrow> returnM d
   | None \<Rightarrow>
      bindM (keycloakFetch K (get_request (keycloakUrl (kcx_env K) @ ''/realms/'' @ keycloakRealm (kcx_env K)
               @ ''/.well-known/openid-configuration'') [])) (\<lambda>res.
      if \<not> http_ok res then throwM (keycloakUnavailable ''Failed to fetch Keycloak discovery document'' 503)
      else bindM (liftE (response_json res)) (\<lambda>d.
        thenM (modifyM (\<lambda>s. s\<lparr>idp_discovery := Some d\<rparr>)) (returnM d))))"

definition token_url :: "env \<Rightarrow> string" where
  "token_url E = keycloakUrl E @ ''/realms/'' @ keycloakRealm E @ ''/protocol/openid-connect/token''"

definition getAdminToken :: "'h kc_ctx \<Rightarrow> ('h, string) idp_io" where
  "getAdminToken K = (let E = kcx_env K in
     bindM (keycloakFetch K (form_post (token_url E)
        [(''grant_type'', ''client_credentials''), (''client_id'', keycloakServiceClientId E),
         (''client_secret'', keycloakServiceClientSecret E)])) (\<lambda>res.
     if \<not> http_ok res then throwM (keycloakUnavailable ''Failed to obtain Keycloak admin token'' 503)
     else bindM (liftE (response_json res)) (\<lambda>d.
          bindM (liftE (member d ''access_token'')) (\<lambda>t. returnM (json_string t)))))"

section \<open>Tokens of a member\<close>

definition with_secret :: "env \<Rightarrow> (string \<times> string) list \<Rightarrow> (string \<times> string) list" where
  "with_secret E fs = (if keycloakClientSecret E \<noteq> [] then fs @ [(''client_secret'', keycloakClientSecret E)] else fs)"

definition error_body :: "http_response \<Rightarrow> json" where
  "error_body res = (case response_json res of Inl e \<Rightarrow> JObj [] | Inr j \<Rightarrow> j)"

definition exchangeCodeForTokens ::
    "'h kc_ctx \<Rightarrow> string \<Rightarrow> string \<Rightarrow> string \<Rightarrow> ('h, token_response) idp_io" where
  "exchangeCodeForTokens K code codeVerifier redirectUri = (let E = kcx_env K in
     bindM (getDiscovery K) (\<lambda>discovery.
     bindM (liftE (member discovery ''token_endpoint'')) (\<lambda>ep.
     bindM (keycloakFetch K (form_post (json_string ep) (with_secret E
        [(''grant_type'', ''authorization_code''), (''client_id'', keycloakClientId E), (''code'', code),
         (''code_verifier'', codeVerifier), (''redirect_uri'', redirectUri)]))) (\<lambda>res.
     if \<not> http_ok res
     then bindM (liftE (member (error_body res) ''error'')) (\<lambda>err.
            if err = JStr ''invalid_grant''
            then throwM (mk_auth_error AUTH_CODE_INVALID ''Invalid or expired authorization code'' 400)
            else throwM (mk_auth_error INVALID_CREDENTIALS ''Token exchange failed'' 400))
     else bindM (liftE (response_json res)) (\<lambda>j. returnM (token_response_of j))))))"

definition identityProviderUnavailable :: exn where
  "identityProviderUnavailable =
     AuthError \<lparr>ae_code = KEYCLOAK_UNAVAILABLE, ae_message = ''The identity provider is temporarily unavailable.'',
                ae_status = 503, ae_clear_cookies = None, ae_retry_after = Some 5\<rparr>"

definition refreshTokens :: "'h kc_ctx \<Rightarrow> string \<Rightarrow> ('h, token_response) idp_io" where
  "refreshTokens K refreshToken = (let E = kcx_env K in
     bindM (getDiscovery K) (\<lambda>discovery.
     bindM (liftE (member discovery ''token_endpoint'')) (\<lambda>ep.
     bindM (catchM (keycloakFetch K (form_post (json_string ep) (with_secret E
        [(''grant_type'', ''refresh_token''), (''client_id'', keycloakClientId E),
         (''refresh_token'', refreshToken)])))
        (\<lambda>_. throwM identityProviderUnavailable)) (\<lambda>res.
     if rs_status res = 400 \<or> rs_status res = 401
     then throwM (mk_auth_error REFRESH_FAILED ''Token refresh failed'' 401)
     else if \<not> http_ok res then throwM identityProviderUnavailable
     else bindM (liftE (response_json res)) (\<lambda>j. returnM (token_response_of j))))))"

definition revokeToken :: "'h kc_ctx \<Rightarrow> string \<Rightarrow> string \<Rightarrow> ('h, unit) idp_io" where
  "revokeToken K tok hint = (let E = kcx_env K in
     bindM (keycloakFetch K (form_post (keycloakUrl E @ ''/realms/'' @ keycloakRealm E @
        ''/protocol/openid-connect/revoke'') (with_secret E
        [(''client_id'', keycloakClientId E), (''token'', tok), (''token_type_hint'', hint)]))) (\<lambda>_. returnM ()))"

section \<open>The Admin API\<close>

definition deleteUser :: "'h kc_ctx \<Rightarrow> string \<Rightarrow> ('h, unit) idp_io" where
  "deleteUser K uid = (let E = kcx_env K in
     bindM (getAdminToken K) (\<lambda>admin.
     bindM (keycloakFetch K \<lparr>rq_method = ''DELETE'', rq_url = keycloakAdminApiBase E @ ''/users/'' @ encodeURIComponent uid,
              rq_headers = bearer admin, rq_body = BNone\<rparr>) (\<lambda>res.
     if http_ok res \<or> rs_status res = 404 then returnM ()
     else throwM (keycloakUnavailable (''Failed to delete user at the identity provider (HTTP ''
            @ show_int (rs_status res) @ '')'') 502))))"

text \<open>The id of the first listed client; \<open>None\<close> for the source's \<open>undefined\<close> and empty text.\<close>

definition first_id :: "json \<Rightarrow> exn + string option" where
  "first_id j = (if j = JNull then Inl typeError
     else (let x = json_index j 0 in
       if x = JUndef \<or> x = JNull then Inr None
       else (case json_member x ''id'' of JStr i \<Rightarrow> Inr (if i = [] then None else Some i) | _ \<Rightarrow> Inr None)))"

definition clientInternalId :: "'h kc_ctx \<Rightarrow> string \<Rightarrow> string \<Rightarrow> ('h, string) idp_io" where
  "clientInternalId K admin query =
     bindM (keycloakFetch K (get_request (keycloakAdminApiBase (kcx_env K) @ ''/clients?clientId='' @ query)
              (bearer admin))) (\<lambda>res.
     if \<not> http_ok res then throwM (keycloakUnavailable ''Failed to look up the client'' 502)
     else bindM (liftE (response_json res)) (\<lambda>j. bindM (liftE (first_id j)) (\<lambda>i. case i of
        None \<Rightarrow> throwM (keycloakUnavailable ''Client not found'' 502)
      | Some x \<Rightarrow> returnM x)))"

definition countUsersInClientRole :: "'h kc_ctx \<Rightarrow> string \<Rightarrow> ('h, int) idp_io" where
  "countUsersInClientRole K roleName = (let E = kcx_env K in
     bindM (getAdminToken K) (\<lambda>admin.
     bindM (clientInternalId K admin (encodeURIComponent (keycloakClientId E))) (\<lambda>cid.
     bindM (keycloakFetch K (get_request (keycloakAdminApiBase E @ ''/clients/'' @ cid @ ''/roles/''
              @ encodeURIComponent roleName @ ''/users?briefRepresentation=true&max=1000'') (bearer admin))) (\<lambda>res.
     if \<not> http_ok res then throwM (keycloakUnavailable ''Failed to count role members'' 502)
     else bindM (liftE (response_json res)) (\<lambda>j. returnM (int (length (json_items j))))))))"

definition logoutUserSessions :: "'h kc_ctx \<Rightarrow> string \<Rightarrow> ('h, unit) idp_io" where
  "logoutUserSessions K uid = bindM (getAdminToken K) (\<lambda>admin.
     bindM (keycloakFetch K \<lparr>rq_method = ''POST'',
        rq_url = keycloakAdminApiBase (kcx_env K) @ ''/users/'' @ uid @ ''/logout'',
        rq_headers = bearer admin, rq_body = BNone\<rparr>) (\<lambda>_. returnM ()))"

record register_request =
  rg_username :: string
  rg_email :: string
  rg_firstName :: string
  rg_lastName :: string
  rg_password :: string

definition create_user_body :: "register_request \<Rightarrow> json" where
  "create_user_body r = JObj [(''username'', JStr (rg_username r)), (''email'', JStr (rg_email r)),
     (''firstName'', JStr (rg_firstName r)), (''lastName'', JStr (rg_lastName r)),
     (''enabled'', JBool True), (''emailVerified'', JBool False),
     (''credentials'', JArr [JObj [(''type'', JStr ''password''), (''value'', JStr (rg_password r)),
        (''temporary'', JBool False)]])]"

definition createUser :: "'h kc_ctx \<Rightarrow> register_request \<Rightarrow> ('h, string) idp_io" where
  "createUser K request = bindM (getAdminToken K) (\<lambda>admin.
     bindM (keycloakFetch K \<lparr>rq_method = ''POST'', rq_url = keycloakAdminApiBase (kcx_env K) @ ''/users'',
        rq_headers = (''Content-Type'', ''application/json'') # bearer admin,
        rq_body = BText (stringify (create_user_body request))\<rparr>) (\<lambda>res.
     if \<not> http_ok res
     then (if rs_status res = 409
           then bindM (liftE (member (error_body res) ''errorMessage'')) (\<lambda>m.
              if m = JUndef \<or> m = JNull then throwM (mk_auth_error DUPLICATE_EMAIL ''Email already registered'' 409)
              else (case m of
                 JStr t \<Rightarrow> if js_includes (js_to_lower t) ''username''
                   then throwM (mk_auth_error DUPLICATE_USERNAME ''Username already exists'' 409)
                   else throwM (mk_auth_error DUPLICATE_EMAIL ''Email already registered'' 409)
               | _ \<Rightarrow> throwM typeError))
           else throwM (mk_auth_error INVALID_INPUT ''Failed to create user'' 400))
     else (let loc = (case rs_headers res ''Location'' of Some l \<Rightarrow> l | None \<Rightarrow> []);
               uid = last (js_split (CHR ''/'') loc)
           in if uid = [] then throwM (mk_auth_error UNKNOWN ''Failed to retrieve new user ID'' 500)
              else returnM uid)))"

definition assignMcUserRole :: "'h kc_ctx \<Rightarrow> string \<Rightarrow> ('h, unit) idp_io" where
  "assignMcUserRole K uid = (let E = kcx_env K in
     bindM (getAdminToken K) (\<lambda>admin.
     bindM (clientInternalId K admin (keycloakClientId E)) (\<lambda>cid.
     bindM (keycloakFetch K (get_request (keycloakAdminApiBase E @ ''/clients/'' @ cid @ ''/roles/mc-user'')
              (bearer admin))) (\<lambda>res.
     if \<not> http_ok res then throwM (keycloakUnavailable ''Failed to read the mc-user role'' 502)
     else bindM (liftE (response_json res)) (\<lambda>role.
     bindM (keycloakFetch K \<lparr>rq_method = ''POST'',
        rq_url = keycloakAdminApiBase E @ ''/users/'' @ uid @ ''/role-mappings/clients/'' @ cid,
        rq_headers = (''Content-Type'', ''application/json'') # bearer admin,
        rq_body = BText (stringify (JArr [role]))\<rparr>) (\<lambda>res2.
     if \<not> http_ok res2 then throwM (keycloakUnavailable ''Failed to assign the mc-user role'' 502)
     else returnM ()))))))"

definition sendVerificationEmail :: "'h kc_ctx \<Rightarrow> string \<Rightarrow> string option \<Rightarrow> ('h, unit) idp_io" where
  "sendVerificationEmail K uid redirectUri = bindM (getAdminToken K) (\<lambda>admin.
     bindM (keycloakFetch K \<lparr>rq_method = ''PUT'',
        rq_url = keycloakAdminApiBase (kcx_env K) @ ''/users/'' @ uid @ ''/send-verify-email?client_id=''
          @ formEncode (keycloakClientId (kcx_env K))
          @ (case redirectUri of Some u \<Rightarrow> if u = [] then [] else ''&redirect_uri='' @ formEncode u | None \<Rightarrow> []),
        rq_headers = bearer admin, rq_body = BNone\<rparr>) (\<lambda>res.
     if \<not> http_ok res then throwM (keycloakUnavailable ''Failed to send verification email'' 502)
     else returnM ()))"

fun find_by_email :: "string \<Rightarrow> json list \<Rightarrow> exn + json option" where
  "find_by_email email [] = Inr None"
| "find_by_email email (u # us) = (case json_member u ''email'' of
     JStr e \<Rightarrow> if js_to_lower e = js_to_lower email then Inr (Some u) else find_by_email email us
   | _ \<Rightarrow> Inl typeError)"

definition getUserIdByEmail :: "'h kc_ctx \<Rightarrow> string \<Rightarrow> ('h, string option) idp_io" where
  "getUserIdByEmail K email = bindM (getAdminToken K) (\<lambda>admin.
     bindM (keycloakFetch K (get_request (keycloakAdminApiBase (kcx_env K) @ ''/users?email=''
              @ encodeURIComponent email @ ''&exact=true'') (bearer admin))) (\<lambda>res.
     if \<not> http_ok res then returnM None
     else bindM (liftE (response_json res)) (\<lambda>j.
          bindM (liftE (find_by_email email (json_items j))) (\<lambda>u. case u of
            None \<Rightarrow> returnM None
          | Some x \<Rightarrow> if json_member x ''emailVerified'' = JBool True
              then throwM (mk_auth_error ALREADY_VERIFIED ''Email already verified'' 400)
              else returnM (Some (json_string (json_member x ''id'')))))))"

definition getUserById :: "'h kc_ctx \<Rightarrow> string \<Rightarrow> ('h, json) idp_io" where
  "getUserById K uid = bindM (getAdminToken K) (\<lambda>admin.
     bindM (keycloakFetch K (get_request (keycloakAdminApiBase (kcx_env K) @ ''/users/'' @ uid) (bearer admin))) (\<lambda>res.
     if \<not> http_ok res then throwM (mk_auth_error UNAUTHORIZED ''User not found'' 404)
     else liftE (response_json res)))"

definition decodeJwtPayload :: "string \<Rightarrow> exn + json" where
  "decodeJwtPayload tok = (case js_split (CHR ''.'') tok of
     [h, payload, sig] \<Rightarrow>
       if payload = [] then Inl (mk_auth_error AUTH_CODE_INVALID ''Malformed JWT token'' 400)
       else parseJson (utf8_decode (base64_decode payload))
   | _ \<Rightarrow> Inl (mk_auth_error AUTH_CODE_INVALID ''Malformed JWT token'' 400))"

section \<open>Redirect addresses of a client\<close>

definition ensureClientRedirectUris :: "'h kc_ctx \<Rightarrow> string list \<Rightarrow> string \<Rightarrow> ('h, unit) idp_io" where
  "ensureClientRedirectUris K uris kcClient = (let base = keycloakAdminApiBase (kcx_env K) in
     bindM (getM idp_ensured) (\<lambda>ensured.
     if kcClient \<in> set ensured then returnM ()
     else catchM
      (bindM (getAdminToken K) (\<lambda>admin.
       bindM (keycloakFetch K (get_request (base @ ''/clients?clientId='' @ encodeURIComponent kcClient) (bearer admin))) (\<lambda>r1.
       if \<not> http_ok r1 then returnM ()
       else bindM (liftE (response_json r1)) (\<lambda>j. bindM (liftE (first_id j)) (\<lambda>i. case i of
         None \<Rightarrow> returnM ()
       | Some cid \<Rightarrow>
         bindM (keycloakFetch K (get_request (base @ ''/clients/'' @ cid) (bearer admin))) (\<lambda>r2.
         if \<not> http_ok r2 then returnM ()
         else bindM (liftE (response_json r2)) (\<lambda>client.
         bindM (liftE (member client ''redirectUris'')) (\<lambda>existing.
         let missing = filter (\<lambda>u. JStr u \<notin> set (json_items existing)) uris;
             body = (case client of JObj es \<Rightarrow> JObj (obj_put es ''redirectUris''
                       (JArr (json_items existing @ map JStr missing))) | _ \<Rightarrow> client);
             record_it = modifyM (\<lambda>s. s\<lparr>idp_ensured := idp_ensured s @ [kcClient]\<rparr>) in
         if missing = [] then record_it
         else bindM (keycloakFetch K \<lparr>rq_method = ''PUT'', rq_url = base @ ''/clients/'' @ cid,
                rq_headers = (''Content-Type'', ''application/json'') # bearer admin,
                rq_body = BText (stringify body)\<rparr>) (\<lambda>r3.
              if \<not> http_ok r3 then returnM () else record_it))))))))) (\<lambda>_. returnM ())))"

section \<open>Properties\<close>

text \<open>While the identity provider refuses or does not answer, the registration of a
  client's redirect addresses never throws and is never recorded as done, so the next sign-in tries again.\<close>
theorem redirect_uris_unrecorded:
  assumes "\<And>rq h r h'. kcx_fetch K rq h = (Inr r, h') \<Longrightarrow> \<not> http_ok r"
  shows "fst (ensureClientRedirectUris K uris c s) = Inr () \<and>
         idp_ensured (snd (ensureClientRedirectUris K uris c s)) = idp_ensured s"
proof -
  have f: "idp_ensured (snd (keycloakFetch K rq s)) = idp_ensured s \<and>
      (\<forall>r. fst (keycloakFetch K rq s) = Inr r \<longrightarrow> \<not> http_ok r)" for rq and s :: "'a idp"
    using assms by (auto simp: keycloakFetch_def Let_def split: option.split) (metis prod.collapse)+
  have a: "idp_ensured (snd (getAdminToken K s)) = idp_ensured s" "\<exists>e. fst (getAdminToken K s) = Inl e" for s
    using f by (auto simp: getAdminToken_def Let_def io_simps split: sum.split)
  show ?thesis
    using a [of s] by (auto simp: ensureClientRedirectUris_def Let_def io_simps split: sum.split)
qed

definition offline_ctx :: "unit kc_ctx" where
  "offline_ctx = \<lparr>kcx_env = default_env, kcx_request_id = None,
     kcx_fetch = (\<lambda>rq h. (Inl (JsError ''fetch failed''), h))\<rparr>"

theorem redirect_uris_unrecorded_witness:
  "idp_ensured (snd (ensureClientRedirectUris offline_ctx [''https://a''] ''web''
     \<lparr>idp_discovery = None, idp_ensured = [], idp_jwks = None, idp_jwks_time = 0, idp_http = ()\<rparr>)) = []"
  using redirect_uris_unrecorded [of offline_ctx "[''https://a'']" "''web''"
      "\<lparr>idp_discovery = None, idp_ensured = [], idp_jwks = None, idp_jwks_time = 0, idp_http = ()\<rparr>"]
  by (simp add: offline_ctx_def)

end
