(* ===== verification/Token_Service.thy ===== *)
theory Token_Service
  imports Keycloak
begin

text \<open>
  \<open>bff-server/token-service.ts\<close>: the key cache, the construction of an RSA public key from a JWK, and
  the validation of an access token. The hash and the signature check are Node's \<open>crypto\<close>, a
  parameter; DER, PEM and base64 are modelled. \<open>keycloakConfig.clientId\<close> reads the same variable as
  \<open>env.keycloakClientId\<close>.
\<close>

record crypto =
  cr_verify :: "string \<Rightarrow> string \<Rightarrow> string \<Rightarrow> string \<Rightarrow> exn + bool"
  cr_sha256 :: "string \<Rightarrow> string"

definition JWKS_CACHE_TTL_MS :: int where "JWKS_CACHE_TTL_MS = 5 * 60 * 1000"

definition getJwks :: "'h kc_ctx \<Rightarrow> int \<Rightarrow> ('h, json) idp_io" where
  "getJwks K now = bindM (getM (\<lambda>s. (idp_jwks s, idp_jwks_time s))) (\<lambda>(cache, since).
     (case (if now - since < JWKS_CACHE_TTL_MS then cache else None) of
       Some d \<Rightarrow> returnM d
     | None \<Rightarrow>
        bindM (catchM (\<lambda>s. let r = kcx_fetch K (get_request (keycloakUrl (kcx_env K) @ ''/realms/''
                   @ keycloakRealm (kcx_env K) @ ''/protocol/openid-connect/certs'') []) (idp_http s)
                 in (fst r, s\<lparr>idp_http := snd r\<rparr>))
               (\<lambda>_. throwM (keycloakUnavailable ''Failed to reach Keycloak JWKS endpoint'' 503))) (\<lambda>res.
        if \<not> http_ok res then throwM (keycloakUnavailable ''Failed to fetch JWKS'' 503)
        else bindM (liftE (response_json res)) (\<lambda>d.
             thenM (modifyM (\<lambda>s. s\<lparr>idp_jwks := Some d, idp_jwks_time := now\<rparr>)) (returnM d)))))"

section \<open>Keys\<close>

definition base64urlDecode :: "string \<Rightarrow> string" where
  "base64urlDecode s = base64_decode (b64_pad (map (\<lambda>c. if c = CHR ''-'' then CHR ''+''
      else if c = CHR ''_'' then CHR ''/'' else c) s))"

definition base64urlToBuffer :: "string \<Rightarrow> string" where
  "base64urlToBuffer s = base64urlDecode s"

definition byte :: "nat \<Rightarrow> char" where "byte n = char_of n"

definition encodeLength :: "nat \<Rightarrow> string" where
  "encodeLength n = (if n < 128 then [byte n] else if n < 256 then [byte 129, byte n]
     else [byte 130, byte (n div 256 mod 256), byte (n mod 256)])"

definition encodeInteger :: "string \<Rightarrow> string" where
  "encodeInteger buf = (let content = (if buf \<noteq> [] \<and> 128 \<le> (of_char (hd buf) :: nat) then byte 0 # buf else buf)
     in byte 2 # encodeLength (length content) @ content)"

definition rsa_oid :: string where
  "rsa_oid = map byte [48, 13, 6, 9, 42, 134, 72, 134, 247, 13, 1, 1, 1, 5, 0]"

definition der_spki :: "string \<Rightarrow> string \<Rightarrow> string" where
  "der_spki nBuf eBuf = (let nDer = encodeInteger nBuf; eDer = encodeInteger eBuf;
     sq = byte 48 # encodeLength (length nDer + length eDer) @ nDer @ eDer;
     bitString = byte 0 # sq;
     bitStringDer = byte 3 # encodeLength (length bitString) @ bitString
   in byte 48 # encodeLength (length rsa_oid + length bitStringDer) @ rsa_oid @ bitStringDer)"

fun chunks :: "nat \<Rightarrow> nat \<Rightarrow> string \<Rightarrow> string list" where
  "chunks 0 k s = []"
| "chunks (Suc f) k s = (if s = [] then [] else take k s # chunks f k (drop k s))"

definition constructPemFromJwk :: "json \<Rightarrow> string" where
  "constructPemFromJwk jwk =
    (let spki = base64_encode (der_spki (base64urlToBuffer (json_string (json_member jwk ''n'')))
                                        (base64urlToBuffer (json_string (json_member jwk ''e''))))
     in ''-----BEGIN PUBLIC KEY-----'' @ [CHR 0x0A] @ js_join [CHR 0x0A] (chunks (length spki) 64 spki)
        @ [CHR 0x0A] @ ''-----END PUBLIC KEY-----'')"

section \<open>Claims\<close>

definition validateAtHash :: "crypto \<Rightarrow> json \<Rightarrow> string \<Rightarrow> bool" where
  "validateAtHash C idTokenPayload accessToken = (case json_member idTokenPayload ''at_hash'' of
     JStr h \<Rightarrow> if h = [] then True
       else (let hash = cr_sha256 C (utf8_encode accessToken)
             in h = base64url_encode (take (length hash div 2) hash))
   | JUndef \<Rightarrow> True | JNull \<Rightarrow> True | _ \<Rightarrow> False)"

fun js_replace :: "string \<Rightarrow> string \<Rightarrow> string \<Rightarrow> string" where
  "js_replace [] p r = (if p = [] then r else [])"
| "js_replace (c # s) p r =
     (if js_starts_with (c # s) p then r @ drop (length p) (c # s) else c # js_replace s p r)"

definition acceptedIssuers :: "env \<Rightarrow> string list" where
  "acceptedIssuers E = (let base = [keycloakPublicUrl E @ ''/realms/'' @ keycloakRealm E,
       keycloakUrl E @ ''/realms/'' @ keycloakRealm E] in
     if isDevelopment E
     then base @ concat (map (\<lambda>i. [js_replace i ''localhost'' ''10.0.2.2'', js_replace i ''10.0.2.2'' ''localhost'']) base)
     else base)"

definition unauthorized :: "string \<Rightarrow> exn" where "unauthorized msg = mk_auth_error UNAUTHORIZED msg 401"

definition checkClaims :: "env \<Rightarrow> int \<Rightarrow> json \<Rightarrow> exn + unit" where
  "checkClaims E now payload =
    bindE (member payload ''iss'') (\<lambda>iss.
    let issuer = (if iss = JUndef \<or> iss = JNull then JStr [] else iss);
        aud = json_member payload ''aud'';
        auds = (case aud of JArr xs \<Rightarrow> xs | _ \<Rightarrow> [aud]);
        me = JStr (keycloakClientId E);
        nowSeconds = now div 1000 in
    if issuer \<notin> JStr ` set (acceptedIssuers E) then Inl (unauthorized ''Invalid token issuer'')
    else if \<not> (me \<in> set auds \<or> json_member payload ''azp'' = me) then Inl (unauthorized ''Invalid token audience'')
    else if js_le_int (json_member payload ''exp'') nowSeconds
    then Inl (mk_auth_error TOKEN_EXPIRED ''Token has expired'' 401)
    else if json_member payload ''nbf'' \<noteq> JUndef \<and> js_gt_int (json_member payload ''nbf'') nowSeconds
    then Inl (unauthorized ''Token not yet valid'')
    else Inr ())"

definition findKey :: "json \<Rightarrow> json \<Rightarrow> exn + json option" where
  "findKey jwks kid = bindE (member jwks ''keys'') (\<lambda>keys. case keys of
     JArr ks \<Rightarrow> Inr (List.find (\<lambda>k. json_member k ''kid'' = kid) ks)
   | _ \<Rightarrow> Inl typeError)"

definition signingKeyFor :: "'h kc_ctx \<Rightarrow> int \<Rightarrow> json \<Rightarrow> ('h, json) idp_io" where
  "signingKeyFor K now kid =
    bindM (getJwks K now) (\<lambda>jwks. bindM (liftE (findKey jwks kid)) (\<lambda>k. case k of
      Some key \<Rightarrow> returnM key
    | None \<Rightarrow>
       thenM (modifyM (\<lambda>s. s\<lparr>idp_jwks := None\<rparr>))
       (bindM (getJwks K now) (\<lambda>fresh. bindM (liftE (findKey fresh kid)) (\<lambda>k2. case k2 of
          Some key \<Rightarrow> returnM key
        | None \<Rightarrow> throwM (unauthorized ''Unknown signing key''))))))"

definition signatureAlgorithm :: "string \<Rightarrow> string" where
  "signatureAlgorithm alg = (if alg = ''RS256'' then ''RSA-SHA256'' else if alg = ''RS384'' then ''RSA-SHA384''
     else if alg = ''RS512'' then ''RSA-SHA512'' else alg)"

definition verifySignature :: "crypto \<Rightarrow> json \<Rightarrow> json \<Rightarrow> string \<Rightarrow> string \<Rightarrow> string \<Rightarrow> exn + unit" where
  "verifySignature C header key headerB64 payloadB64 signatureB64 =
    (case cr_verify C (signatureAlgorithm (json_string (json_member header ''alg'')))
            (constructPemFromJwk key) (headerB64 @ ''.'' @ payloadB64) (base64urlToBuffer signatureB64) of
       Inl e \<Rightarrow> Inl (unauthorized ''Token signature verification failed'')
     | Inr ok \<Rightarrow> if ok then Inr () else Inl (unauthorized ''Invalid token signature''))"

record validated_token =
  vt_payload :: json
  vt_header :: json

definition validateJwt :: "crypto \<Rightarrow> 'h kc_ctx \<Rightarrow> int \<Rightarrow> string \<Rightarrow> ('h, validated_token) idp_io" where
  "validateJwt C K now tok = (case js_split (CHR ''.'') tok of
     [headerB64, payloadB64, signatureB64] \<Rightarrow>
       (case (json_parse (utf8_decode (base64urlDecode headerB64)),
              json_parse (utf8_decode (base64urlDecode payloadB64))) of
          (Some header, Some payload) \<Rightarrow>
            thenM (liftE (checkClaims (kcx_env K) now payload))
            (bindM (signingKeyFor K now (json_member header ''kid'')) (\<lambda>key.
             thenM (liftE (verifySignature C header key headerB64 payloadB64 signatureB64))
                   (returnM \<lparr>vt_payload = payload, vt_header = header\<rparr>)))
        | _ \<Rightarrow> throwM (unauthorized ''Malformed JWT''))
   | _ \<Rightarrow> throwM (unauthorized ''Malformed JWT''))"

definition extractRoles :: "json \<Rightarrow> string \<Rightarrow> string list" where
  "extractRoles payload clientId =
    (case json_member (json_member (json_member payload ''resource_access'') clientId) ''roles'' of
       JArr rs \<Rightarrow> map json_string rs | _ \<Rightarrow> [])"

definition isTokenExpiringSoon :: "json \<Rightarrow> int \<Rightarrow> int \<Rightarrow> bool" where
  "isTokenExpiringSoon payload threshold now = js_le_int (json_member payload ''exp'') (now div 1000 + threshold)"

definition isTokenExpired :: "json \<Rightarrow> int \<Rightarrow> bool" where
  "isTokenExpired payload now = js_le_int (json_member payload ''exp'') (now div 1000)"

lemma js_replace_not_Nil: "s \<noteq> [] \<Longrightarrow> b \<noteq> [] \<Longrightarrow> js_replace s a b \<noteq> []"
  by (cases s) auto

lemma acceptedIssuers_nonempty: "[] \<notin> set (acceptedIssuers E)"
proof -
  have "\<forall>i \<in> {keycloakPublicUrl E @ ''/realms/'' @ keycloakRealm E, keycloakUrl E @ ''/realms/'' @ keycloakRealm E}.
      i \<noteq> [] \<and> js_replace i ''localhost'' ''10.0.2.2'' \<noteq> [] \<and> js_replace i ''10.0.2.2'' ''localhost'' \<noteq> []"
    by (simp add: js_replace_not_Nil)
  then show ?thesis unfolding acceptedIssuers_def Let_def by (simp del: append_is_Nil_conv split: if_split) metis
qed

lemma checkClaims_Inr:
  assumes "checkClaims E now payload = Inr ()"
  shows "json_member payload ''iss'' \<in> JStr ` set (acceptedIssuers E)"
    "JStr (keycloakClientId E) \<in> set (case json_member payload ''aud'' of JArr xs \<Rightarrow> xs | a \<Rightarrow> [a]) \<or>
       json_member payload ''azp'' = JStr (keycloakClientId E)"
    "\<not> js_le_int (json_member payload ''exp'') (now div 1000)"
    "\<not> (json_member payload ''nbf'' \<noteq> JUndef \<and> js_gt_int (json_member payload ''nbf'') (now div 1000))"
  using assms acceptedIssuers_nonempty [of E]
  by (auto simp: checkClaims_def Let_def bindE_def member_def split: sum.splits if_splits json.splits)

section \<open>Properties\<close>

text \<open>C3: A token is accepted only when it has three parts, its issuer is one of the two
  addresses of the identity provider (or their development twins), this client is its audience or
  authorised party, its expiry is not reached, its start is, and the signature of exactly its first two
  parts verifies under a key the identity provider publishes for the token's key id.\<close>

theorem jwt_accepted_only_if_valid:
  "case fst (validateJwt C K now tok s) of Inl e \<Rightarrow> True | Inr vt \<Rightarrow>
     (let claim = json_member (vt_payload vt); me = JStr (keycloakClientId (kcx_env K)) in
      \<exists>h p sig key jwks s1. js_split (CHR ''.'') tok = [h, p, sig] \<and>
        json_parse (utf8_decode (base64urlDecode p)) = Some (vt_payload vt) \<and>
        claim ''iss'' \<in> JStr ` set (acceptedIssuers (kcx_env K)) \<and>
        (me \<in> set (case claim ''aud'' of JArr xs \<Rightarrow> xs | a \<Rightarrow> [a]) \<or> claim ''azp'' = me) \<and>
        \<not> js_le_int (claim ''exp'') (now div 1000) \<and>
        \<not> (claim ''nbf'' \<noteq> JUndef \<and> js_gt_int (claim ''nbf'') (now div 1000)) \<and>
        s1 \<in> {s, (snd (getJwks K now s))\<lparr>idp_jwks := None\<rparr>} \<and> fst (getJwks K now s1) = Inr jwks \<and>
        findKey jwks (json_member (vt_header vt) ''kid'') = Inr (Some key) \<and>
        cr_verify C (signatureAlgorithm (json_string (json_member (vt_header vt) ''alg'')))
          (constructPemFromJwk key) (h @ ''.'' @ p) (base64urlToBuffer sig) = Inr True)"
proof -
  have k: "\<exists>jwks s1. s1 \<in> {s, (snd (getJwks K now s))\<lparr>idp_jwks := None\<rparr>} \<and> fst (getJwks K now s1) = Inr jwks \<and>
      findKey jwks kid = Inr (Some key)" if "fst (signingKeyFor K now kid s) = Inr key" for kid key
    using that by (auto simp: signingKeyFor_def io_simps split: sum.splits option.splits prod.splits)
  have v: "cr_verify C (signatureAlgorithm (json_string (json_member header ''alg''))) (constructPemFromJwk key)
      (h @ ''.'' @ p) (base64urlToBuffer sig) = Inr True"
    if "verifySignature C header key h p sig = Inr ()" for header key h p sig
    using that by (auto simp: verifySignature_def split: sum.splits if_splits)
  show ?thesis
  proof (cases "fst (validateJwt C K now tok s)")
    case (Inr vt)
    then obtain h p sig key where a: "js_split (CHR ''.'') tok = [h, p, sig]"
        "json_parse (utf8_decode (base64urlDecode p)) = Some (vt_payload vt)"
        "checkClaims (kcx_env K) now (vt_payload vt) = Inr ()"
        "fst (signingKeyFor K now (json_member (vt_header vt) ''kid'') s) = Inr key"
        "verifySignature C (vt_header vt) key h p sig = Inr ()"
      by (auto simp: validateJwt_def io_simps split: sum.splits list.splits option.splits prod.splits)
    show ?thesis using k [OF a(4)] v [OF a(5)] a(1,2) checkClaims_Inr [OF a(3)] Inr
      unfolding Let_def by (simp only: sum.case) blast
  qed simp
qed

text \<open>A token of the wrong issuer or audience, or past its expiry, is refused without asking the
  identity provider for its keys: the state of the network and the caches stay as they were.\<close>
theorem claims_decide_before_network:
  assumes "js_split (CHR ''.'') tok = [h, p, sig]" "json_parse (utf8_decode (base64urlDecode h)) = Some hd'"
    and "json_parse (utf8_decode (base64urlDecode p)) = Some payload"
    and "checkClaims (kcx_env K) now payload = Inl e"
  shows "validateJwt C K now tok s = (Inl e, s)"
  using assms by (simp add: validateJwt_def io_simps)

lemma base64_encode_chars:
  "c \<in> set (base64_encode bs) \<Longrightarrow> c = CHR ''='' \<or> b64_val c \<noteq> None"
proof -
  have "\<forall>x \<in> set (b64_encode_vals (map of_char bs)). x < 64" by (rule b64_encode_vals_bound) auto
  then show "c \<in> set (base64_encode bs) \<Longrightarrow> c = CHR ''='' \<or> b64_val c \<noteq> None"
    by (auto simp: base64_encode_def b64_pad_def)
qed

lemma base64_encode_no_dot: "CHR ''.'' \<notin> set (base64_encode bs)"
  using base64_encode_chars [of "CHR ''.''" bs] by (auto simp: b64_val_def)

lemma b64_char_plain: "n < 64 \<Longrightarrow> b64_char n \<noteq> CHR ''-'' \<and> b64_char n \<noteq> CHR ''_''"
proof -
  have v: "b64_char 62 = CHR ''+''" "b64_char 63 = CHR ''/''" "b64_val (CHR ''-'') = Some 62" "b64_val (CHR ''_'') = Some 63"
    by (simp_all add: b64_char_def b64_val_def)
  assume n: "n < 64"
  have "b64_char n \<noteq> CHR ''-''"
  proof
    assume e: "b64_char n = CHR ''-''"
    with b64_val_char [OF n] v(3) have "n = 62" by simp
    with e v(1) show False by simp
  qed
  moreover have "b64_char n \<noteq> CHR ''_''"
  proof
    assume e: "b64_char n = CHR ''_''"
    with b64_val_char [OF n] v(4) have "n = 63" by simp
    with e v(2) show False by simp
  qed
  ultimately show ?thesis by simp
qed

text \<open>A text encoded without further change decodes also through the URL-safe reading.\<close>

lemma base64urlDecode_encode: "base64urlDecode (base64_encode bs) = bs"
proof -
  let ?sub = "\<lambda>c. if c = CHR ''-'' then CHR ''+'' else if c = CHR ''_'' then CHR ''/'' else c"
  have b: "\<forall>x \<in> set (b64_encode_vals (map of_char bs)). x < 64" by (rule b64_encode_vals_bound) auto
  have m: "map ?sub (base64_encode bs) = base64_encode bs"
    unfolding base64_encode_def b64_pad_def using b b64_char_plain by (intro map_idI) auto
  have t: "takeWhile (\<lambda>c. c \<noteq> CHR ''='') (s @ replicate n (CHR ''='')) = takeWhile (\<lambda>c. c \<noteq> CHR ''='') s" for s n
    by (induction s) (cases n, auto)
  show ?thesis
    unfolding base64urlDecode_def m using base64_decode_encode [of bs]
    unfolding base64_decode_def b64_pad_def t .
qed

lemma utf8_encoded_json:
  "plain_json j \<Longrightarrow> json_parse (utf8_decode (base64urlDecode (base64_encode (utf8_encode (stringify j))))) = Some j"
  by (simp add: base64urlDecode_encode json_parse_stringify)


definition plain_claims :: "(string \<times> json) list" where
  "plain_claims = [(''iss'', JStr ''http://localhost:8099/realms/grumpyrobot''), (''azp'', JStr ''movie-collection-manager'')]"

lemma plain_claims_accepted: "checkClaims default_env 0 (JObj plain_claims) = Inr ()"
  by (simp add: checkClaims_def plain_claims_def member_def json_member_def acceptedIssuers_def Let_def
      js_le_int_def js_number_def)


definition quiet_ctx :: "unit kc_ctx" where
  "quiet_ctx = \<lparr>kcx_env = default_env, kcx_request_id = None,
     kcx_fetch = (\<lambda>rq h. (Inl (JsError ''fetch failed''), h))\<rparr>"

definition quiet_idp :: "unit idp" where
  "quiet_idp = \<lparr>idp_discovery = None, idp_ensured = [], idp_jwks = None, idp_jwks_time = 0, idp_http = ()\<rparr>"

definition node_crypto :: crypto where
  "node_crypto = \<lparr>cr_verify = (\<lambda>alg pem input sig. Inr (sig = input)), cr_sha256 = (\<lambda>x. x)\<rparr>"

lemma empty_object_token:
  "json_parse (utf8_decode (base64urlDecode ''e30'')) = Some (JObj [])"
proof -
  have "char_of (123 :: nat) = CHR ''{''" "char_of (125 :: nat) = CHR ''}''" by code_simp+
  then have "utf8_decode (base64urlDecode ''e30'') = stringify (JObj [])"
    by (simp add: base64urlDecode_def base64_decode_def b64_pad_def List.map_filter_simps b64_val_def)
  then show ?thesis using json_parse_stringify [of "JObj []"] by simp
qed

theorem claims_decide_before_network_witness:
  "validateJwt node_crypto quiet_ctx 0 ''e30.e30.x'' quiet_idp = (Inl (unauthorized ''Invalid token issuer''), quiet_idp)"
  using claims_decide_before_network [of "''e30.e30.x''" "''e30''" "''e30''" "''x''" "JObj []" "JObj []" quiet_ctx 0]
    empty_object_token
  by (simp add: quiet_ctx_def checkClaims_def member_def json_member_def acceptedIssuers_def Let_def)

end
