(* ===== verification/Secret_Crypto.thy ===== *)
theory Secret_Crypto
  imports Codec
begin

text \<open>
  \<open>bff-server/agent-config-crypto.ts\<close>: sealing of secrets with AES-256-GCM. The cipher is Node's
  \<open>crypto\<close>, a parameter; the random nonce is an argument. The locale \<open>gcm_ok\<close> states what the cipher
  is documented to do: a sealed text opens to itself under the same key, nonce and context, and the
  tag has sixteen bytes.
\<close>

record gcm =
  gcm_seal :: "string \<Rightarrow> string \<Rightarrow> string \<Rightarrow> string \<Rightarrow> string \<times> string"
  gcm_open :: "string \<Rightarrow> string \<Rightarrow> string \<Rightarrow> string \<Rightarrow> string \<Rightarrow> string option"

definition IV_BYTES :: nat where "IV_BYTES = 12"
definition TAG_BYTES :: nat where "TAG_BYTES = 16"
definition KEY_BYTES :: nat where "KEY_BYTES = 32"

definition loadKey :: "string \<Rightarrow> exn + string" where
  "loadKey keyBase64 =
    (if keyBase64 = [] then Inl (JsError ''AGENT_CONFIG_ENC_KEY is not set - cannot encrypt/decrypt agent secrets'')
     else (let key = base64_decode keyBase64 in
       if length key \<noteq> KEY_BYTES
       then Inl (JsError (''AGENT_CONFIG_ENC_KEY must decode to 32 bytes (got '' @ show_nat (length key) @ '')''))
       else Inr key))"

definition encryptSecret :: "gcm \<Rightarrow> string \<Rightarrow> string \<Rightarrow> string \<Rightarrow> string \<Rightarrow> exn + string" where
  "encryptSecret G iv plaintext keyBase64 aad = bindE (loadKey keyBase64) (\<lambda>key.
     case gcm_seal G key iv (utf8_encode aad) (utf8_encode plaintext) of
       (tag, ciphertext) \<Rightarrow> Inr (base64_encode (iv @ tag @ ciphertext)))"

definition decryptSecret :: "gcm \<Rightarrow> string \<Rightarrow> string \<Rightarrow> string \<Rightarrow> exn + string" where
  "decryptSecret G blobBase64 keyBase64 aad = bindE (loadKey keyBase64) (\<lambda>key.
     let raw = base64_decode blobBase64 in
     if length raw < IV_BYTES + TAG_BYTES then Inl (JsError ''Encrypted blob is too short to be valid'')
     else (let iv = take IV_BYTES raw; tag = take TAG_BYTES (drop IV_BYTES raw);
               ciphertext = drop (IV_BYTES + TAG_BYTES) raw
       in case gcm_open G key iv (utf8_encode aad) tag ciphertext of
            None \<Rightarrow> Inl (JsError ''Unsupported state or unable to authenticate data'')
          | Some p \<Rightarrow> Inr (utf8_decode p)))"

definition secretAad :: "string \<Rightarrow> string \<Rightarrow> string" where
  "secretAad uid field = uid @ '':'' @ field"

definition backupSecretAad :: "string \<Rightarrow> string \<Rightarrow> string" where
  "backupSecretAad uid destinationId = uid @ '':backupDestinationSecret:'' @ destinationId"

definition offlineTokenAad :: "string \<Rightarrow> string" where
  "offlineTokenAad uid = uid @ '':offlineRefresh''"

definition backupEncryptionKey :: "env \<Rightarrow> exn + string" where
  "backupEncryptionKey E = (let keyBase64 = backupCredentialEncKey E in
     if keyBase64 = [] then Inl (JsError (''BACKUP_CREDENTIAL_ENC_KEY is not set - a backup destination secret cannot be stored or ''
        @ ''read. It is a separate key from AGENT_CONFIG_ENC_KEY; generate 32 bytes base64.''))
     else if length (base64_decode keyBase64) \<noteq> KEY_BYTES
     then Inl (JsError (''BACKUP_CREDENTIAL_ENC_KEY must decode to 32 bytes (got ''
        @ show_nat (length (base64_decode keyBase64)) @ '')''))
     else Inr keyBase64)"

definition sessionTokensAad :: "string \<Rightarrow> string \<Rightarrow> string" where
  "sessionTokensAad sid uid = sid @ '':'' @ uid @ '':sessionTokens''"

section \<open>The cipher's contract\<close>

locale gcm_ok =
  fixes G :: gcm
  assumes open_iff: "gcm_open G key iv aad tag ct = Some p \<longleftrightarrow> gcm_seal G key iv aad p = (tag, ct)"
    and tag_length: "length (fst (gcm_seal G key iv aad p)) = 16"
begin

lemma decrypt_encrypt:
  assumes "length iv = 12" "encryptSecret G iv p key aad = Inr blob"
  shows "decryptSecret G blob key aad = Inr p"
proof -
  obtain k where k: "loadKey key = Inr k" using assms(2) by (cases "loadKey key") (auto simp: encryptSecret_def)
  obtain tag ct where s: "gcm_seal G k iv (utf8_encode aad) (utf8_encode p) = (tag, ct)" by fastforce
  then have "length tag = 16" using tag_length [of k iv "utf8_encode aad" "utf8_encode p"] by simp
  moreover have "gcm_open G k iv (utf8_encode aad) tag ct = Some (utf8_encode p)" using s by (simp add: open_iff)
  moreover have "blob = base64_encode (iv @ tag @ ct)" using assms(2) k s by (simp add: encryptSecret_def)
  ultimately show ?thesis
    using assms(1) k by (simp add: decryptSecret_def base64_decode_encode Let_def IV_BYTES_def TAG_BYTES_def)
qed

text \<open>
  Under another context a blob opens only if sealing some text in that context yields the very same
  tag and ciphertext.
\<close>

lemma decrypt_elsewhere:
  assumes "length iv = 12" "encryptSecret G iv p key aad = Inr blob"
    and "\<And>k q. gcm_seal G k iv (utf8_encode aad') q \<noteq> gcm_seal G k iv (utf8_encode aad) (utf8_encode p)"
  shows "\<exists>e. decryptSecret G blob key aad' = Inl e"
proof -
  obtain k where k: "loadKey key = Inr k" using assms(2) by (cases "loadKey key") (auto simp: encryptSecret_def)
  obtain tag ct where s: "gcm_seal G k iv (utf8_encode aad) (utf8_encode p) = (tag, ct)" by fastforce
  then have "length tag = 16" using tag_length [of k iv "utf8_encode aad" "utf8_encode p"] by simp
  moreover have "gcm_open G k iv (utf8_encode aad') tag ct = None"
    using assms(3) [of k] s by (metis not_Some_eq open_iff)
  moreover have "blob = base64_encode (iv @ tag @ ct)" using assms(2) k s by (simp add: encryptSecret_def)
  ultimately show ?thesis
    using assms(1) k by (simp add: decryptSecret_def base64_decode_encode Let_def IV_BYTES_def TAG_BYTES_def)
qed

end

text \<open>A reference cipher that keeps key, nonce and context beside the text.\<close>

definition ref_frame :: "string \<Rightarrow> string" where "ref_frame s = show_nat (length s) @ CHR '','' # s"

definition ref_gcm :: gcm where
  "ref_gcm = \<lparr>gcm_seal = (\<lambda>key iv aad p. (replicate 16 (CHR ''t''), ref_frame key @ ref_frame iv @ ref_frame aad @ p)),
     gcm_open = (\<lambda>key iv aad tag ct. let h = ref_frame key @ ref_frame iv @ ref_frame aad in
        if tag = replicate 16 (CHR ''t'') \<and> take (length h) ct = h then Some (drop (length h) ct) else None)\<rparr>"

interpretation ref_gcm: gcm_ok ref_gcm
proof
  show "gcm_open ref_gcm key iv aad tag ct = Some p \<longleftrightarrow> gcm_seal ref_gcm key iv aad p = (tag, ct)" for key iv aad tag ct p
  proof -
    let ?h = "ref_frame key @ ref_frame iv @ ref_frame aad"
    have "take (length ?h) ct = ?h \<and> drop (length ?h) ct = p \<longleftrightarrow> ?h @ p = ct"
      by (metis append_eq_conv_conj append_take_drop_id)
    then show ?thesis by (auto simp: ref_gcm_def Let_def)
  qed
  show "length (fst (gcm_seal ref_gcm key iv aad p)) = 16" for key iv aad p by (simp add: ref_gcm_def)
qed

text \<open>A key text that decodes to 32 bytes.\<close>

definition demo_key :: string where "demo_key = base64_encode (replicate 32 (CHR ''k''))"

lemma demo_key_facts: "base64_decode demo_key = replicate 32 (CHR ''k'')" "demo_key \<noteq> []"
proof -
  show d: "base64_decode demo_key = replicate 32 (CHR ''k'')" by (simp only: demo_key_def base64_decode_encode)
  have "base64_decode [] = []" by (simp add: base64_decode_def List.map_filter_simps)
  with d show "demo_key \<noteq> []" by (metis replicate_empty zero_neq_numeral)
qed

end
