(* ===== verification/Demo_Idp.thy ===== *)
theory Demo_Idp
  imports Token_Service Secret_Crypto
begin

text \<open>
  An identity provider that answers every request with one token grant, and whose keys are cached: a
  concrete instance of the parameters of \<open>Keycloak\<close> and \<open>Token_Service\<close> on which successful runs of
  the operations that use them are evaluated.
\<close>

definition claims_for :: "string \<Rightarrow> json" where
  "claims_for u = JObj (plain_claims @ [(''sub'', JStr u), (''iat'', JNum (show_int 0))])"

definition part :: "json \<Rightarrow> string" where
  "part j = base64_encode (utf8_encode (stringify j))"

definition demo_jwt :: "string \<Rightarrow> string" where
  "demo_jwt u = part (JObj []) @ CHR ''.'' # part (claims_for u) @ CHR ''.'' # ''sig''"

definition grant_json :: "string \<Rightarrow> json" where
  "grant_json u = JObj [(''access_token'', JStr (demo_jwt u)), (''refresh_token'', JStr ''r2''),
     (''expires_in'', JNum (show_int 900)), (''refresh_expires_in'', JNum (show_int 1800))]"

definition yes_crypto :: crypto where
  "yes_crypto = \<lparr>cr_verify = (\<lambda>alg pem input sig. Inr True), cr_sha256 = (\<lambda>x. x)\<rparr>"

definition keyed_env :: env where
  "keyed_env = default_env\<lparr>agentConfigEncKey := demo_key, backupCredentialEncKey := demo_key\<rparr>"

definition grant_ctx :: "string \<Rightarrow> unit kc_ctx" where
  "grant_ctx u = \<lparr>kcx_env = keyed_env, kcx_request_id = None,
     kcx_fetch = (\<lambda>rq h. (Inr \<lparr>rs_status = 200, rs_body = stringify (grant_json u), rs_headers = (\<lambda>_. None)\<rparr>, h))\<rparr>"

definition warm_idp :: "unit idp" where
  "warm_idp = \<lparr>idp_discovery = Some (JObj [(''token_endpoint'', JStr ''http://kc/token'')]), idp_ensured = [],
     idp_jwks = Some (JObj [(''keys'', JArr [JObj []])]), idp_jwks_time = 0, idp_http = ()\<rparr>"

lemma keyed_env_simps [simp]:
  "agentConfigEncKey keyed_env = demo_key" "backupCredentialEncKey keyed_env = demo_key"
  "keycloakUrl keyed_env = keycloakUrl default_env" "keycloakPublicUrl keyed_env = keycloakPublicUrl default_env"
  "keycloakRealm keyed_env = keycloakRealm default_env" "keycloakClientId keyed_env = keycloakClientId default_env"
  "isDevelopment keyed_env = isDevelopment default_env"
  "sessionAbsoluteTimeoutMs keyed_env = sessionAbsoluteTimeoutMs default_env"
  "sessionIdleTimeoutMs keyed_env = sessionIdleTimeoutMs default_env"
  "maxConcurrentSessions keyed_env = maxConcurrentSessions default_env"
  by (simp_all add: keyed_env_def)

lemma keyed_env_key:
  "length (base64_decode (agentConfigEncKey keyed_env)) = 32" "agentConfigEncKey keyed_env \<noteq> []"
  by (simp_all add: demo_key_facts)

lemma claims_for_accepted: "checkClaims keyed_env 0 (claims_for u) = Inr ()"
  by (simp add: checkClaims_def claims_for_def plain_claims_def member_def json_member_def acceptedIssuers_def Let_def
      js_le_int_def js_number_def)

lemma plain_claims_for: "plain_json (claims_for u)"
  by (simp add: claims_for_def plain_claims_def number_token_show_int)

lemma split_demo_jwt: "js_split (CHR ''.'') (demo_jwt u) = [part (JObj []), part (claims_for u), ''sig'']"
  unfolding demo_jwt_def part_def
  by (simp only: js_split_append_sep [OF base64_encode_no_dot]) (simp add: js_split_no_sep)

lemma demo_validate:
  "validateJwt yes_crypto (grant_ctx u') 0 (demo_jwt u) warm_idp =
     (Inr \<lparr>vt_payload = claims_for u, vt_header = JObj []\<rparr>, warm_idp)"
proof -
  have p: "json_parse (utf8_decode (base64urlDecode (part (JObj [])))) = Some (JObj [])"
    "json_parse (utf8_decode (base64urlDecode (part (claims_for u)))) = Some (claims_for u)"
    unfolding part_def by (rule utf8_encoded_json, simp add: plain_claims_for)+
  have k: "signingKeyFor (grant_ctx u') 0 (json_member (JObj []) ''kid'') warm_idp = (Inr (JObj []), warm_idp)"
    by (simp add: signingKeyFor_def getJwks_def io_simps warm_idp_def JWKS_CACHE_TTL_MS_def findKey_def member_def
        json_member_def)
  have v: "verifySignature yes_crypto (JObj []) (JObj []) h p sig = Inr ()" for h p sig
    by (simp add: verifySignature_def yes_crypto_def)
  have c: "checkClaims (kcx_env (grant_ctx u')) 0 (claims_for u) = Inr ()"
    using claims_for_accepted by (simp add: grant_ctx_def)
  show ?thesis by (simp add: validateJwt_def split_demo_jwt p c k v io_simps)
qed

lemma plain_grant: "plain_json (grant_json u)"
  by (simp add: grant_json_def number_token_show_int)

lemma demo_refresh:
  "refreshTokens (grant_ctx u) r warm_idp = (Inr (token_response_of (grant_json u)), warm_idp)"
proof -
  have "response_json \<lparr>rs_status = 200, rs_body = stringify (grant_json u), rs_headers = (\<lambda>_. None)\<rparr> = Inr (grant_json u)"
    by (simp add: response_json_def parseJson_def json_parse_stringify [OF plain_grant])
  then show ?thesis
    by (simp add: refreshTokens_def getDiscovery_def keycloakFetch_def grant_ctx_def io_simps Let_def http_ok_def
        member_def json_member_def warm_idp_def)
qed

lemma grant_access: "access_token (token_response_of (grant_json u)) = demo_jwt u"
  by (simp add: token_response_of_def grant_json_def json_member_def json_string_def)

end
