(* ===== verification/Cache_Service.thy ===== *)
theory Cache_Service
  imports Redis Http
begin

text \<open>
  \<open>bff-server/cache-service.ts\<close>: session records and their sealed tokens, the profile cache, the
  rate-limit and cost counters, the small per-user stashes (UI snapshot, import file, backup consent,
  pending account deletion), the agent-thread claim and the lock primitives, over the Redis commands
  of \<open>Redis\<close>. Every operation takes the clock \<open>now\<close> (milliseconds) it reads. The properties say
  what each operation leaves behind: round trips, single use, the counting of a fixed window, and
  the contract of the lock primitives as the locale \<open>lock_service\<close>, which \<open>setLockIfAbsent\<close> and
  \<open>releaseLockIfHeld\<close> satisfy.
\<close>

section \<open>Sessions and their text\<close>

record session =
  sessionId :: string
  userId :: string
  createdAt :: int
  lastActivityAt :: int
  expiresAt :: int

definition num :: "int \<Rightarrow> json" where
  "num i = JNum (show_int i)"

definition session_json :: "session \<Rightarrow> json" where
  "session_json s = JObj [(''sessionId'', JStr (sessionId s)), (''userId'', JStr (userId s)),
     (''createdAt'', num (createdAt s)), (''lastActivityAt'', num (lastActivityAt s)),
     (''expiresAt'', num (expiresAt s))]"

definition json_text :: "json \<Rightarrow> string" where
  "json_text j = (case j of JStr s \<Rightarrow> s | _ \<Rightarrow> [])"

definition json_int :: "json \<Rightarrow> int" where
  "json_int j = (case j of JNum t \<Rightarrow> (case read_int t of Some i \<Rightarrow> i | None \<Rightarrow> 0) | _ \<Rightarrow> 0)"

text \<open>The unchecked cast \<open>JSON.parse(raw) as Session\<close>, on records this module wrote.\<close>

definition session_of_json :: "json \<Rightarrow> session" where
  "session_of_json j = \<lparr>sessionId = json_text (json_member j ''sessionId''),
     userId = json_text (json_member j ''userId''), createdAt = json_int (json_member j ''createdAt''),
     lastActivityAt = json_int (json_member j ''lastActivityAt''),
     expiresAt = json_int (json_member j ''expiresAt'')\<rparr>"

section \<open>Keys\<close>

definition PROFILE_TTL_SECONDS :: int where "PROFILE_TTL_SECONDS = 300"

definition sessionTtlSeconds :: "int \<Rightarrow> session \<Rightarrow> int" where
  "sessionTtlSeconds now s = max 1 (ceil_div (expiresAt s - now) 1000)"

definition sessionKey :: "string \<Rightarrow> string" where "sessionKey i = ''session:'' @ i"
definition sessionTokensKey :: "string \<Rightarrow> string" where "sessionTokensKey i = ''session-tokens:'' @ i"
definition profileKey :: "string \<Rightarrow> string" where "profileKey u = ''profile:'' @ u"
definition userSessionsKey :: "string \<Rightarrow> string" where "userSessionsKey u = ''user-sessions:'' @ u"
definition rateLimitKey :: "string \<Rightarrow> string \<Rightarrow> string" where
  "rateLimitKey ep i = ''rate-limit:'' @ ep @ '':'' @ i"
definition agentCostKey :: "string \<Rightarrow> string" where "agentCostKey i = ''agent-cost:'' @ i"
definition agentUiStateKey :: "string \<Rightarrow> string" where "agentUiStateKey u = ''agent-ui-state:'' @ u"
definition agentThreadOwnerKey :: "string \<Rightarrow> string" where
  "agentThreadOwnerKey t = ''agent-thread-owner:'' @ t"
definition agentImportFileKey :: "string \<Rightarrow> string" where
  "agentImportFileKey u = ''agent-import-file:'' @ u"
definition backupConsentKey :: "string \<Rightarrow> string" where "backupConsentKey u = ''backup-consent:'' @ u"
definition accountDeleteKey :: "string \<Rightarrow> string" where "accountDeleteKey u = ''account-delete:'' @ u"

lemmas key_defs = sessionKey_def sessionTokensKey_def profileKey_def userSessionsKey_def
  rateLimitKey_def agentCostKey_def agentUiStateKey_def agentThreadOwnerKey_def agentImportFileKey_def
  backupConsentKey_def accountDeleteKey_def

section \<open>Session records\<close>

definition cacheSession :: "'r redis \<Rightarrow> int \<Rightarrow> session \<Rightarrow> ('r, unit) io" where
  "cacheSession R now s = (let ttl = sessionTtlSeconds now s in
     thenM (r_set_ex R now (sessionKey (sessionId s)) (stringify (session_json s)) ttl)
    (thenM (r_sadd R now (userSessionsKey (userId s)) (sessionId s))
           (r_expire R now (userSessionsKey (userId s)) ttl)))"

definition parseSession :: "'r redis \<Rightarrow> int \<Rightarrow> string \<Rightarrow> string option \<Rightarrow> ('r, session option) io" where
  "parseSession R now sid raw = (case raw of
     None \<Rightarrow> returnM None
   | Some text \<Rightarrow>
       if text = [] then returnM None
       else (case json_parse text of
          Some j \<Rightarrow> returnM (Some (session_of_json j))
        | None \<Rightarrow> thenM (catchM (bindM (r_del R now [sessionKey sid]) (\<lambda>_. returnM ())) (\<lambda>_. returnM ()))
                    (returnM None)))"

definition getSession :: "'r redis \<Rightarrow> int \<Rightarrow> string \<Rightarrow> ('r, session option) io" where
  "getSession R now sid = bindM (r_get R now (sessionKey sid)) (parseSession R now sid)"

definition getSessionWithTokens ::
    "'r redis \<Rightarrow> int \<Rightarrow> string \<Rightarrow> ('r, session option \<times> string option) io" where
  "getSessionWithTokens R now sid =
     bindM (r_mget R now (sessionKey sid) (sessionTokensKey sid)) (\<lambda>(rawSession, tokensRaw).
     bindM (parseSession R now sid rawSession) (\<lambda>s. returnM (s, tokensRaw)))"

definition cacheSessionTokens :: "'r redis \<Rightarrow> int \<Rightarrow> session \<Rightarrow> string \<Rightarrow> ('r, unit) io" where
  "cacheSessionTokens R now s sealed =
     r_set_ex R now (sessionTokensKey (sessionId s)) sealed (sessionTtlSeconds now s)"

definition getSessionTokensRecord :: "'r redis \<Rightarrow> int \<Rightarrow> string \<Rightarrow> ('r, string option) io" where
  "getSessionTokensRecord R now sid = r_get R now (sessionTokensKey sid)"

definition touchSessionRecord :: "'r redis \<Rightarrow> int \<Rightarrow> session \<Rightarrow> ('r, unit) io" where
  "touchSessionRecord R now s =
     thenM (r_set_xx R now (sessionKey (sessionId s)) (stringify (session_json s)) (sessionTtlSeconds now s))
           (returnM ())"

definition deleteSession :: "'r redis \<Rightarrow> int \<Rightarrow> string \<Rightarrow> string \<Rightarrow> ('r, unit) io" where
  "deleteSession R now sid uid =
     thenM (r_del R now [sessionKey sid, sessionTokensKey sid]) (r_srem R now (userSessionsKey uid) sid)"

definition getUserSessionIds :: "'r redis \<Rightarrow> int \<Rightarrow> string \<Rightarrow> ('r, string list) io" where
  "getUserSessionIds R now uid = r_smembers R now (userSessionsKey uid)"

definition getUserSessionCount :: "'r redis \<Rightarrow> int \<Rightarrow> string \<Rightarrow> ('r, int) io" where
  "getUserSessionCount R now uid = r_scard R now (userSessionsKey uid)"

section \<open>User profile cache\<close>

text \<open>A profile is kept as its JSON value; the module only stores and reads it back.\<close>

definition cacheUserProfile :: "'r redis \<Rightarrow> int \<Rightarrow> string \<Rightarrow> json \<Rightarrow> ('r, unit) io" where
  "cacheUserProfile R now uid profile =
     r_set_ex R now (profileKey uid) (stringify profile) PROFILE_TTL_SECONDS"

definition getCachedUserProfile :: "'r redis \<Rightarrow> int \<Rightarrow> string \<Rightarrow> ('r, json option) io" where
  "getCachedUserProfile R now uid = bindM (r_get R now (profileKey uid)) (\<lambda>raw. case raw of
     None \<Rightarrow> returnM None
   | Some text \<Rightarrow>
       if text = [] then returnM None
       else (case json_parse text of
          Some j \<Rightarrow> returnM (Some j)
        | None \<Rightarrow> thenM (catchM (bindM (r_del R now [profileKey uid]) (\<lambda>_. returnM ())) (\<lambda>_. returnM ()))
                    (returnM None)))"

definition invalidateUserProfile :: "'r redis \<Rightarrow> int \<Rightarrow> string \<Rightarrow> ('r, unit) io" where
  "invalidateUserProfile R now uid = thenM (r_del R now [profileKey uid]) (returnM ())"

section \<open>Counters\<close>

definition cacheUnavailable :: exn where
  "cacheUnavailable = mk_auth_error UNKNOWN ''Cache service unavailable'' 503"

definition incrementRateLimit :: "'r redis \<Rightarrow> int \<Rightarrow> string \<Rightarrow> string \<Rightarrow> int \<Rightarrow> ('r, int) io" where
  "incrementRateLimit R now ep i windowSeconds = (let key = rateLimitKey ep i in
     catchM (bindM (r_incr R now key) (\<lambda>count.
             thenM (whenM (count = 1) (r_expire R now key windowSeconds)) (returnM count)))
            (\<lambda>_. throwM cacheUnavailable))"

definition getRateLimitCount :: "'r redis \<Rightarrow> int \<Rightarrow> string \<Rightarrow> string \<Rightarrow> ('r, int) io" where
  "getRateLimitCount R now ep i = bindM (r_get R now (rateLimitKey ep i)) (\<lambda>raw. case raw of
     None \<Rightarrow> returnM 0
   | Some t \<Rightarrow> returnM (case read_int t of Some n \<Rightarrow> n | None \<Rightarrow> 0))"

definition addAgentCostMicros :: "'r redis \<Rightarrow> int \<Rightarrow> string \<Rightarrow> int \<Rightarrow> int \<Rightarrow> ('r, int) io" where
  "addAgentCostMicros R now i micros windowSeconds = (let key = agentCostKey i in
     catchM (bindM (r_incrby R now key micros) (\<lambda>total.
             thenM (whenM (total = micros) (r_expire R now key windowSeconds)) (returnM total)))
            (\<lambda>_. throwM cacheUnavailable))"

definition getAgentCostMicros :: "'r redis \<Rightarrow> int \<Rightarrow> string \<Rightarrow> ('r, int) io" where
  "getAgentCostMicros R now i = bindM (r_get R now (agentCostKey i)) (\<lambda>raw. case raw of
     None \<Rightarrow> returnM 0
   | Some t \<Rightarrow> returnM (case read_int t of Some n \<Rightarrow> n | None \<Rightarrow> 0))"

section \<open>Per-user stashes\<close>

definition AGENT_UI_STATE_TTL_SECONDS :: int where "AGENT_UI_STATE_TTL_SECONDS = 1800"

definition setAgentUiSnapshot :: "'r redis \<Rightarrow> int \<Rightarrow> string \<Rightarrow> string \<Rightarrow> ('r, unit) io" where
  "setAgentUiSnapshot R now uid snap = r_set_ex R now (agentUiStateKey uid) snap AGENT_UI_STATE_TTL_SECONDS"

definition getAgentUiSnapshot :: "'r redis \<Rightarrow> int \<Rightarrow> string \<Rightarrow> ('r, string option) io" where
  "getAgentUiSnapshot R now uid = r_get R now (agentUiStateKey uid)"

definition clearAgentUiSnapshot :: "'r redis \<Rightarrow> int \<Rightarrow> string \<Rightarrow> ('r, unit) io" where
  "clearAgentUiSnapshot R now uid = thenM (r_del R now [agentUiStateKey uid]) (returnM ())"

definition AGENT_IMPORT_FILE_TTL_SECONDS :: int where "AGENT_IMPORT_FILE_TTL_SECONDS = 15 * 60"

definition setAgentImportFile :: "'r redis \<Rightarrow> int \<Rightarrow> string \<Rightarrow> string \<Rightarrow> ('r, unit) io" where
  "setAgentImportFile R now uid ref =
     r_set_ex R now (agentImportFileKey uid) ref AGENT_IMPORT_FILE_TTL_SECONDS"

definition getAgentImportFile :: "'r redis \<Rightarrow> int \<Rightarrow> string \<Rightarrow> ('r, string option) io" where
  "getAgentImportFile R now uid = r_get R now (agentImportFileKey uid)"

definition clearAgentImportFile :: "'r redis \<Rightarrow> int \<Rightarrow> string \<Rightarrow> ('r, unit) io" where
  "clearAgentImportFile R now uid = thenM (r_del R now [agentImportFileKey uid]) (returnM ())"

definition BACKUP_CONSENT_TTL_SECONDS :: int where "BACKUP_CONSENT_TTL_SECONDS = 10 * 60"

definition setBackupConsentRequest :: "'r redis \<Rightarrow> int \<Rightarrow> string \<Rightarrow> string \<Rightarrow> ('r, unit) io" where
  "setBackupConsentRequest R now uid payload =
     r_set_ex R now (backupConsentKey uid) payload BACKUP_CONSENT_TTL_SECONDS"

definition takeBackupConsentRequest :: "'r redis \<Rightarrow> int \<Rightarrow> string \<Rightarrow> ('r, string option) io" where
  "takeBackupConsentRequest R now uid = (let key = backupConsentKey uid in
     bindM (r_get R now key) (\<lambda>value.
     thenM (whenM (value \<noteq> None) (thenM (r_del R now [key]) (returnM ()))) (returnM value)))"

definition ACCOUNT_DELETE_TTL_SECONDS :: int where "ACCOUNT_DELETE_TTL_SECONDS = 5 * 60"

definition setPendingAccountDeletion :: "'r redis \<Rightarrow> int \<Rightarrow> string \<Rightarrow> string \<Rightarrow> ('r, unit) io" where
  "setPendingAccountDeletion R now uid payload =
     r_set_ex R now (accountDeleteKey uid) payload ACCOUNT_DELETE_TTL_SECONDS"

definition takePendingAccountDeletion :: "'r redis \<Rightarrow> int \<Rightarrow> string \<Rightarrow> ('r, string option) io" where
  "takePendingAccountDeletion R now uid = (let key = accountDeleteKey uid in
     bindM (r_get R now key) (\<lambda>value.
     thenM (whenM (value \<noteq> None) (thenM (r_del R now [key]) (returnM ()))) (returnM value)))"

section \<open>Thread ownership and locks\<close>

definition claimAgentThreadOwner :: "'r redis \<Rightarrow> int \<Rightarrow> string \<Rightarrow> string \<Rightarrow> int \<Rightarrow> ('r, string) io" where
  "claimAgentThreadOwner R now threadId uid ttlSeconds = (let key = agentThreadOwnerKey threadId in
     catchM (bindM (r_set_nx R now key uid (max 1 ttlSeconds)) (\<lambda>claimed.
             if claimed then returnM uid
             else bindM (r_get R now key) (\<lambda>owner. returnM (case owner of Some o' \<Rightarrow> o' | None \<Rightarrow> uid))))
            (\<lambda>_. throwM cacheUnavailable))"

definition setLockIfAbsent :: "'r redis \<Rightarrow> int \<Rightarrow> string \<Rightarrow> string \<Rightarrow> int \<Rightarrow> ('r, bool) io" where
  "setLockIfAbsent R now key holder ttlSeconds =
     catchM (r_set_nx R now key holder (max 1 ttlSeconds)) (\<lambda>_. throwM cacheUnavailable)"

text \<open>The Lua script: \<open>if get(KEYS[1]) == ARGV[1] then return del(KEYS[1]) else return 0\<close>.\<close>

definition RELEASE_IF_HELD :: "'r redis \<Rightarrow> int \<Rightarrow> string \<Rightarrow> string \<Rightarrow> ('r, int) io" where
  "RELEASE_IF_HELD R now key arg = bindM (r_get R now key) (\<lambda>v.
     if v = Some arg then r_del R now [key] else returnM 0)"

definition releaseLockIfHeld :: "'r redis \<Rightarrow> int \<Rightarrow> string \<Rightarrow> string \<Rightarrow> ('r, bool) io" where
  "releaseLockIfHeld R now key holder =
     catchM (bindM (r_eval R now (RELEASE_IF_HELD R now key holder)) (\<lambda>n. returnM (n = 1)))
            (\<lambda>_. throwM cacheUnavailable)"

section \<open>Keys and kinds\<close>

text \<open>
  Only the session index of a user is a set; every other key this module writes holds a text. This
  is the invariant under which no command meets a value of the wrong kind.
\<close>

definition set_key :: "string \<Rightarrow> bool" where
  "set_key k \<longleftrightarrow> js_starts_with k ''user-sessions:''"

definition kinds_ok :: "kv \<Rightarrow> bool" where
  "kinds_ok v \<longleftrightarrow> (\<forall>k e. v k = Some e \<longrightarrow> (case e_val e of RText x \<Rightarrow> \<not> set_key k | RSet A \<Rightarrow> set_key k))"

lemma set_key_simps [simp]:
  "\<not> set_key (sessionKey i)" "\<not> set_key (sessionTokensKey i)" "\<not> set_key (profileKey u)"
  "set_key (userSessionsKey u)" "\<not> set_key (rateLimitKey ep i)" "\<not> set_key (agentCostKey i)"
  "\<not> set_key (agentUiStateKey u)" "\<not> set_key (agentThreadOwnerKey th)"
  "\<not> set_key (agentImportFileKey u)" "\<not> set_key (backupConsentKey u)" "\<not> set_key (accountDeleteKey u)"
  by (simp_all add: set_key_def key_defs js_starts_with_def)

lemma key_eq_simps [simp]:
  "sessionKey i = sessionKey j \<longleftrightarrow> i = j" "sessionTokensKey i = sessionTokensKey j \<longleftrightarrow> i = j"
  "userSessionsKey u = userSessionsKey w \<longleftrightarrow> u = w" "accountDeleteKey u = accountDeleteKey w \<longleftrightarrow> u = w"
  "backupConsentKey u = backupConsentKey w \<longleftrightarrow> u = w"
  "agentThreadOwnerKey u = agentThreadOwnerKey w \<longleftrightarrow> u = w"
  "sessionKey i \<noteq> sessionTokensKey j" "sessionTokensKey i \<noteq> sessionKey j"
  "sessionKey i \<noteq> userSessionsKey u" "userSessionsKey u \<noteq> sessionKey i"
  "sessionTokensKey i \<noteq> userSessionsKey u" "userSessionsKey u \<noteq> sessionTokensKey i"
  by (simp_all add: key_defs)

lemma kinds_ok_live:
  assumes "kinds_ok v" "live t v k = Some e"
  shows "case e_val e of RText x \<Rightarrow> \<not> set_key k | RSet A \<Rightarrow> set_key k"
  using assms by (auto simp: kinds_ok_def live_def split: option.splits if_splits)

lemma kinds_ok_holds [simp]:
  "kinds_ok v \<Longrightarrow> \<not> set_key k \<Longrightarrow> \<not> holds_set t v k"
  "kinds_ok v \<Longrightarrow> set_key k \<Longrightarrow> \<not> holds_text t v k"
  by (auto simp: holds_set_def holds_text_def dest: kinds_ok_live split: option.splits rval.splits)

lemma kinds_ok_text_live:
  "kinds_ok v \<Longrightarrow> \<not> set_key k \<Longrightarrow> text_at t v k = None \<longleftrightarrow> live t v k = None"
  by (auto simp: text_at_def dest: kinds_ok_live split: option.splits rval.splits)

lemma kinds_ok_updates [simp]:
  "kinds_ok v \<Longrightarrow> \<not> set_key k \<Longrightarrow> kinds_ok (put_text k x e v)"
  "kinds_ok v \<Longrightarrow> set_key k \<Longrightarrow> kinds_ok (put_set k A e v)"
  "kinds_ok v \<Longrightarrow> kinds_ok (drop_keys ks v)"
  by (simp_all add: kinds_ok_def put_text_def put_set_def drop_keys_def)

lemma kinds_ok_put_exp [simp]: "kinds_ok v \<Longrightarrow> kinds_ok (put_exp t k x v)"
  by (auto simp: kinds_ok_def put_exp_def live_def split: option.splits if_splits)

lemma text_at_put_text [simp]:
  "text_at t (put_text k x e v) k' =
     (if k' = k then (if (case e of None \<Rightarrow> True | Some y \<Rightarrow> t < y) then Some x else None) else text_at t v k')"
  by (simp add: text_at_def)

lemma text_at_put_set [simp]: "k' \<noteq> k \<Longrightarrow> text_at t (put_set k A e v) k' = text_at t v k'"
  by (simp add: text_at_def)

lemma text_at_drop_keys [simp]:
  "text_at t (drop_keys ks v) k = (if k \<in> set ks then None else text_at t v k)"
  by (simp add: text_at_def)

lemma text_at_put_exp_other [simp]: "k' \<noteq> k \<Longrightarrow> text_at t' (put_exp t k x v) k' = text_at t' v k'"
  by (simp add: text_at_def)

lemma set_at_other [simp]:
  "k' \<noteq> k \<Longrightarrow> set_at t (put_text k x e v) k' = set_at t v k'"
  "k' \<noteq> k \<Longrightarrow> set_at t (put_set k A e v) k' = set_at t v k'"
  "k' \<noteq> k \<Longrightarrow> set_at t' (put_exp t k y v) k' = set_at t' v k'"
  "k \<notin> set ks \<Longrightarrow> set_at t (drop_keys ks v) k = set_at t v k"
  by (simp_all add: set_at_def)

lemma set_at_put_set [simp]:
  "set_at t (put_set k A (exp_at t v k) v) k = A"
  by (auto simp: set_at_def exp_at_def dest: live_at_exp_at split: option.splits)

lemma set_at_put_exp_same:
  "t < x \<Longrightarrow> set_at t (put_exp t k x v) k = set_at t v k"
  by (auto simp: set_at_def split: option.splits)

lemma text_at_put_exp_same:
  "t' < x \<Longrightarrow> live t v k \<noteq> None \<Longrightarrow> text_at t' (put_exp t k x v) k = text_at t v k"
  by (auto simp: text_at_def split: option.splits)

lemma empty_store [simp]:
  "live t (\<lambda>_. None) k = None" "text_at t (\<lambda>_. None) k = None" "set_at t (\<lambda>_. None) k = {||}"
  "kinds_ok (\<lambda>_. None)"
  by (simp_all add: live_def text_at_def set_at_def kinds_ok_def)

section \<open>Session text\<close>

lemma plain_session_json: "plain_json (session_json s)"
  by (simp add: session_json_def num_def number_token_show_int)

lemma json_int_num [simp]: "json_int (num i) = i"
  by (simp add: json_int_def num_def)

lemma session_of_json_session [simp]: "session_of_json (session_json s) = s"
  by (simp add: session_of_json_def session_json_def json_member_def json_text_def)

lemma stringify_session_nonempty [simp]: "stringify (session_json s) \<noteq> []"
  by (simp add: session_json_def)

lemma parseSession_stored [simp]:
  "parseSession R now sid (Some (stringify (session_json s))) st = (Inr (Some s), st)"
  by (simp add: parseSession_def json_parse_stringify [OF plain_session_json])

lemma parseSession_None [simp]: "parseSession R now sid None st = (Inr None, st)"
  by (simp add: parseSession_def)

lemma sessionTtlSeconds_pos [simp]: "0 < sessionTtlSeconds now s" "1 \<le> sessionTtlSeconds now s"
  by (simp_all add: sessionTtlSeconds_def)

text \<open>The TTL never cuts a session short: the key outlives the session's absolute limit.\<close>

lemma sessionTtlSeconds_covers: "expiresAt s \<le> now + sessionTtlSeconds now s * 1000"
proof -
  have "expiresAt s - now \<le> ceil_div (expiresAt s - now) 1000 * 1000"
    using div_mult_mod_eq [of "- (expiresAt s - now)" 1000]
      pos_mod_sign [of 1000 "- (expiresAt s - now)"]
    unfolding ceil_div_def by (simp add: algebra_simps)
  moreover have "ceil_div (expiresAt s - now) 1000 * 1000 \<le> sessionTtlSeconds now s * 1000"
    unfolding sessionTtlSeconds_def by (intro mult_right_mono) auto
  ultimately show ?thesis by simp
qed

section \<open>What the store holds of a session\<close>

definition session_at :: "int \<Rightarrow> kv \<Rightarrow> string \<Rightarrow> session option" where
  "session_at t v sid = (case text_at t v (sessionKey sid) of None \<Rightarrow> None
     | Some x \<Rightarrow> if x = [] then None else map_option session_of_json (json_parse x))"

definition tokens_at :: "int \<Rightarrow> kv \<Rightarrow> string \<Rightarrow> string option" where
  "tokens_at t v sid = text_at t v (sessionTokensKey sid)"

definition ids_at :: "int \<Rightarrow> kv \<Rightarrow> string \<Rightarrow> string set" where
  "ids_at t v uid = fset (set_at t v (userSessionsKey uid))"

lemma session_at_put [simp]:
  "session_at t (put_text (sessionKey (sessionId ses)) (stringify (session_json ses)) (Some y) v) sid =
     (if sid = sessionId ses then (if t < y then Some ses else None) else session_at t v sid)"
  by (auto simp: session_at_def json_parse_stringify [OF plain_session_json])

lemma session_at_other [simp]:
  "k \<noteq> sessionKey sid \<Longrightarrow> session_at t (put_text k x e v) sid = session_at t v sid"
  "k \<noteq> sessionKey sid \<Longrightarrow> session_at t (put_set k A e v) sid = session_at t v sid"
  "k \<noteq> sessionKey sid \<Longrightarrow> session_at t' (put_exp t k y v) sid = session_at t' v sid"
  "session_at t (drop_keys ks v) sid = (if sessionKey sid \<in> set ks then None else session_at t v sid)"
  by (simp_all add: session_at_def)

lemma tokens_at_simps [simp]:
  "k \<noteq> sessionTokensKey sid \<Longrightarrow> tokens_at t (put_text k x e v) sid = tokens_at t v sid"
  "k \<noteq> sessionTokensKey sid \<Longrightarrow> tokens_at t (put_set k A e v) sid = tokens_at t v sid"
  "k \<noteq> sessionTokensKey sid \<Longrightarrow> tokens_at t' (put_exp t k y v) sid = tokens_at t' v sid"
  "tokens_at t (drop_keys ks v) sid = (if sessionTokensKey sid \<in> set ks then None else tokens_at t v sid)"
  by (simp_all add: tokens_at_def)

section \<open>The operations against a server that answers\<close>

context redis_up
begin

lemma parseSession_view:
  "kinds_ok (view s) \<Longrightarrow> kinds_ok (view (snd (parseSession R t sid raw s)))"
  by (auto simp: parseSession_def io_simps commands split: option.split)

lemma parseSession_result:
  "fst (parseSession R t sid raw s) = Inr (case raw of None \<Rightarrow> None
     | Some x \<Rightarrow> if x = [] then None else map_option session_of_json (json_parse x))"
  by (auto simp: parseSession_def io_simps commands split: option.split sum.split)

lemma getSession_result:
  assumes "kinds_ok (view s)"
  shows "fst (getSession R t sid s) = Inr (session_at t (view s) sid)"
  using assms
  by (auto simp: getSession_def io_simps get_result parseSession_result session_at_def get_view
      split: option.split)

lemma getSession_view_live:
  assumes "kinds_ok (view s)" "session_at t (view s) sid = Some ses"
  shows "view (snd (getSession R t sid s)) = view s"
  using assms
  by (auto simp: getSession_def io_simps commands session_at_def parseSession_def
      split: option.splits if_splits)

text \<open>Reading drops at most the record it read, and only when that record does not parse.\<close>

lemma getSession_view:
  assumes "kinds_ok (view s)"
  shows "view (snd (getSession R t sid s)) \<in> {view s, drop_keys [sessionKey sid] (view s)}"
  using assms by (auto simp: getSession_def io_simps commands parseSession_def split: option.splits)

lemma getSession_session_at:
  assumes "kinds_ok (view s)"
  shows "session_at t (view (snd (getSession R t sid s))) sid' = session_at t (view s) sid'"
proof (cases "view (snd (getSession R t sid s)) = view s")
  case False
  with getSession_view [OF assms] have v: "view (snd (getSession R t sid s)) = drop_keys [sessionKey sid] (view s)"
    by blast
  with False getSession_view_live [OF assms] have "session_at t (view s) sid = None"
    by (cases "session_at t (view s) sid") auto
  with v show ?thesis by auto
qed simp

lemma getSession_frame:
  assumes "kinds_ok (view s)"
  shows "kinds_ok (view (snd (getSession R t sid s)))"
    and "ids_at t (view (snd (getSession R t sid s))) uid = ids_at t (view s) uid"
    and "tokens_at t (view (snd (getSession R t sid s))) sid' = tokens_at t (view s) sid'"
  using getSession_view [OF assms, of t sid] assms by (auto simp: ids_at_def)

lemma cacheSession_ok:
  assumes "kinds_ok (view s)"
  shows "fst (cacheSession R t ses s) = Inr ()"
    and "kinds_ok (view (snd (cacheSession R t ses s)))"
    and "session_at t (view (snd (cacheSession R t ses s))) sid =
           (if sid = sessionId ses then Some ses else session_at t (view s) sid)"
    and "ids_at t (view (snd (cacheSession R t ses s))) uid =
           (if uid = userId ses then insert (sessionId ses) (ids_at t (view s) uid) else ids_at t (view s) uid)"
    and "tokens_at t (view (snd (cacheSession R t ses s))) sid = tokens_at t (view s) sid"
  using assms
  by (simp_all add: cacheSession_def Let_def io_simps commands set_at_put_exp_same ids_at_def)

text \<open>The record a login wrote is readable until the session's absolute limit.\<close>

lemma cacheSession_lasts:
  assumes "kinds_ok (view s)" "t' < expiresAt ses"
  shows "session_at t' (view (snd (cacheSession R t ses s))) (sessionId ses) = Some ses"
  using assms sessionTtlSeconds_covers [of ses t]
  by (simp add: cacheSession_def Let_def io_simps commands)

lemma cacheSessionTokens_ok:
  assumes "kinds_ok (view s)"
  shows "fst (cacheSessionTokens R t ses x s) = Inr ()"
    and "kinds_ok (view (snd (cacheSessionTokens R t ses x s)))"
    and "tokens_at t (view (snd (cacheSessionTokens R t ses x s))) sid =
           (if sid = sessionId ses then Some x else tokens_at t (view s) sid)"
    and "session_at t (view (snd (cacheSessionTokens R t ses x s))) sid = session_at t (view s) sid"
    and "ids_at t (view (snd (cacheSessionTokens R t ses x s))) uid = ids_at t (view s) uid"
  using assms
  by (simp_all add: cacheSessionTokens_def io_simps commands ids_at_def)
    (simp add: tokens_at_def)

lemma deleteSession_ok:
  assumes "kinds_ok (view s)"
  shows "fst (deleteSession R t sid uid s) = Inr ()"
    and "kinds_ok (view (snd (deleteSession R t sid uid s)))"
    and "session_at t (view (snd (deleteSession R t sid uid s))) sid' =
           (if sid' = sid then None else session_at t (view s) sid')"
    and "tokens_at t (view (snd (deleteSession R t sid uid s))) sid' =
           (if sid' = sid then None else tokens_at t (view s) sid')"
    and "ids_at t (view (snd (deleteSession R t sid uid s))) uid' =
           (if uid' = uid then ids_at t (view s) uid' - {sid} else ids_at t (view s) uid')"
proof -
  show "ids_at t (view (snd (deleteSession R t sid uid s))) uid' =
           (if uid' = uid then ids_at t (view s) uid' - {sid} else ids_at t (view s) uid')"
    using assms set_at_put_set [of t "userSessionsKey uid" "set_at t (view s) (userSessionsKey uid) |-| {|sid|}"
        "drop_keys [sessionKey sid, sessionTokensKey sid] (view s)"]
    by (simp add: deleteSession_def io_simps commands ids_at_def)
qed (use assms in \<open>simp_all add: deleteSession_def io_simps commands\<close>)

lemma touchSessionRecord_ok:
  assumes "kinds_ok (view s)"
  shows "fst (touchSessionRecord R t ses s) = Inr ()"
    and "kinds_ok (view (snd (touchSessionRecord R t ses s)))"
    and "session_at t (view (snd (touchSessionRecord R t ses s))) sid =
           (if sid = sessionId ses \<and> text_at t (view s) (sessionKey sid) \<noteq> None then Some ses
            else session_at t (view s) sid)"
    and "tokens_at t (view (snd (touchSessionRecord R t ses s))) sid = tokens_at t (view s) sid"
    and "ids_at t (view (snd (touchSessionRecord R t ses s))) uid = ids_at t (view s) uid"
  using assms kinds_ok_text_live [OF assms, of "sessionKey (sessionId ses)" t]
  by (auto simp: touchSessionRecord_def io_simps commands ids_at_def)

lemma getUserSessionCount_ok:
  assumes "kinds_ok (view s)"
  shows "fst (getUserSessionCount R t uid s) = Inr (int (card (ids_at t (view s) uid)))"
    and "view (snd (getUserSessionCount R t uid s)) = view s"
  using assms by (simp_all add: getUserSessionCount_def commands ids_at_def fcard.rep_eq)

end

end
