(* ===== verification/Lock_Service.thy ===== *)
theory Lock_Service
  imports Cache_Service
begin

text \<open>
  The contract the lock users of \<open>bff-server\<close> rely on, as the locale \<open>lock_service\<close>, and the proof
  that \<open>setLockIfAbsent\<close> and \<open>releaseLockIfHeld\<close> of \<open>bff-server/cache-service.ts\<close> satisfy it; then the
  laws of the fixed-window counters, the take-once stashes and the thread claim of the same module.
\<close>

section \<open>The lock contract\<close>

text \<open>
  \<open>holder t s k\<close> is who holds lock \<open>k\<close> at time \<open>t\<close> in state \<open>s\<close>. \<open>okS\<close> is the invariant of the
  provider's state, \<open>okK\<close> its lock names. A lock is taken only when nobody holds it, lapses after its
  TTL, and is given back only by its holder.
\<close>

locale lock_service =
  fixes acquire :: "int \<Rightarrow> string \<Rightarrow> string \<Rightarrow> int \<Rightarrow> ('s, bool) io"
    and release :: "int \<Rightarrow> string \<Rightarrow> string \<Rightarrow> ('s, bool) io"
    and holder :: "int \<Rightarrow> 's \<Rightarrow> string \<Rightarrow> string option"
    and okS :: "'s \<Rightarrow> bool"
    and okK :: "string \<Rightarrow> bool"
  assumes acquire_result: "okS s \<Longrightarrow> okK k \<Longrightarrow> fst (acquire t k h ttl s) = Inr (holder t s k = None)"
    and acquire_ok: "okS s \<Longrightarrow> okK k \<Longrightarrow> okS (snd (acquire t k h ttl s))"
    and acquire_holder: "okS s \<Longrightarrow> okK k \<Longrightarrow> holder t' (snd (acquire t k h ttl s)) k' =
      (if k' = k \<and> holder t s k = None then (if t' < t + max 1 ttl * 1000 then Some h else None)
       else holder t' s k')"
    and release_result: "okS s \<Longrightarrow> okK k \<Longrightarrow> fst (release t k h s) = Inr (holder t s k = Some h)"
    and release_ok: "okS s \<Longrightarrow> okK k \<Longrightarrow> okS (snd (release t k h s))"
    and release_holder: "okS s \<Longrightarrow> okK k \<Longrightarrow> holder t' (snd (release t k h s)) k' =
      (if k' = k \<and> holder t s k = Some h then None else holder t' s k')"
begin

lemmas laws = acquire_result acquire_ok acquire_holder release_result release_ok release_holder

lemma acquired_by_me:
  assumes "okS s" "okK k" "fst (acquire t k h ttl s) = Inr True"
  shows "holder t (snd (acquire t k h ttl s)) k = Some h"
proof -
  have "t < t + max 1 ttl * 1000" by simp
  with assms show ?thesis by (simp add: laws)
qed

text \<open>While one holder's TTL runs, every other attempt fails and leaves the lock with its holder.\<close>

lemma second_acquire_fails:
  assumes "okS s" "okK k" "fst (acquire t k h ttl s) = Inr True" "t' < t + max 1 ttl * 1000"
  shows "fst (acquire t' k h' ttl' (snd (acquire t k h ttl s))) = Inr False"
    and "holder t' (snd (acquire t' k h' ttl' (snd (acquire t k h ttl s)))) k = Some h"
  using assms by (simp_all add: laws)

text \<open>A release by someone who is not the holder is refused and changes nothing.\<close>

lemma foreign_release:
  assumes "okS s" "okK k" "holder t s k \<noteq> Some h"
  shows "fst (release t k h s) = Inr False" and "holder t' (snd (release t k h s)) k' = holder t' s k'"
  using assms by (auto simp: laws)

text \<open>
  What the holder check compares is the holder's name alone: a party that comes back late with the
  name of the present holder releases the lock, whoever took it.
\<close>

lemma stale_release_same_name:
  assumes "okS s" "okK k" "holder t s k = Some h"
  shows "fst (release t k h s) = Inr True" and "holder t' (snd (release t k h s)) k = None"
  using assms by (simp_all add: laws)

end

section \<open>The provider\<close>

context redis_up
begin

lemma setLockIfAbsent_ok:
  assumes "kinds_ok (view s)" "\<not> set_key k"
  shows "fst (setLockIfAbsent R t k h ttl s) = Inr (text_at t (view s) k = None)"
    and "kinds_ok (view (snd (setLockIfAbsent R t k h ttl s)))"
    and "text_at t' (view (snd (setLockIfAbsent R t k h ttl s))) k' =
      (if k' = k \<and> text_at t (view s) k = None then (if t' < t + max 1 ttl * 1000 then Some h else None)
       else text_at t' (view s) k')"
proof -
  have "0 < max 1 ttl" by simp
  with assms kinds_ok_text_live [OF assms, of t]
  show "fst (setLockIfAbsent R t k h ttl s) = Inr (text_at t (view s) k = None)"
    and "kinds_ok (view (snd (setLockIfAbsent R t k h ttl s)))"
    and "text_at t' (view (snd (setLockIfAbsent R t k h ttl s))) k' =
      (if k' = k \<and> text_at t (view s) k = None then (if t' < t + max 1 ttl * 1000 then Some h else None)
       else text_at t' (view s) k')"
    by (auto simp: setLockIfAbsent_def io_simps set_nx_result set_nx_view)
qed

lemma releaseLockIfHeld_ok:
  assumes "kinds_ok (view s)" "\<not> set_key k"
  shows "fst (releaseLockIfHeld R t k h s) = Inr (text_at t (view s) k = Some h)"
    and "kinds_ok (view (snd (releaseLockIfHeld R t k h s)))"
    and "text_at t' (view (snd (releaseLockIfHeld R t k h s))) k' =
      (if k' = k \<and> text_at t (view s) k = Some h then None else text_at t' (view s) k')"
proof -
  have "text_at t (view s) k = Some h \<Longrightarrow> {k' \<in> set [k]. live t (view s) k' \<noteq> None} = {k}"
    by (auto simp: text_at_def split: option.splits)
  with assms show "fst (releaseLockIfHeld R t k h s) = Inr (text_at t (view s) k = Some h)"
    and "kinds_ok (view (snd (releaseLockIfHeld R t k h s)))"
    and "text_at t' (view (snd (releaseLockIfHeld R t k h s))) k' =
      (if k' = k \<and> text_at t (view s) k = Some h then None else text_at t' (view s) k')"
    by (auto simp: releaseLockIfHeld_def RELEASE_IF_HELD_def io_simps commands)
qed

end

sublocale redis_up \<subseteq> lock: lock_service "setLockIfAbsent R" "releaseLockIfHeld R"
  "\<lambda>t s k. text_at t (view s) k" "\<lambda>s. kinds_ok (view s)" "\<lambda>k. \<not> set_key k"
  by unfold_locales (simp_all add: setLockIfAbsent_ok releaseLockIfHeld_ok)

interpretation ref_lock: lock_service "setLockIfAbsent ref_redis" "releaseLockIfHeld ref_redis"
  "\<lambda>t s k. text_at t s k" kinds_ok "\<lambda>k. \<not> set_key k"
  by (rule ref.lock.lock_service_axioms)

section \<open>Counters, stashes and claims\<close>

context redis_up
begin

lemma incrementRateLimit_ok:
  assumes "kinds_ok (view s)" "count_at t (view s) (rateLimitKey ep i) = Some n" "0 < w"
  shows "fst (incrementRateLimit R t ep i w s) = Inr (n + 1)"
    and "kinds_ok (view (snd (incrementRateLimit R t ep i w s)))"
    and "view (snd (incrementRateLimit R t ep i w s)) =
      (if n = 0 then put_text (rateLimitKey ep i) (show_int 1) (Some (t + w * 1000)) (view s)
       else put_text (rateLimitKey ep i) (show_int (n + 1)) (exp_at t (view s) (rateLimitKey ep i)) (view s))"
proof -
  have e: "put_exp t k y (put_text k x e (view s)) = put_text k x (Some y) (view s)"
    if "e = exp_at t (view s) k" for k x e y
    using that exp_at_live [of t "view s" k] by (auto simp: put_exp_def put_text_def live_def split: option.split)
  show "fst (incrementRateLimit R t ep i w s) = Inr (n + 1)"
    and "kinds_ok (view (snd (incrementRateLimit R t ep i w s)))"
    and "view (snd (incrementRateLimit R t ep i w s)) =
      (if n = 0 then put_text (rateLimitKey ep i) (show_int 1) (Some (t + w * 1000)) (view s)
       else put_text (rateLimitKey ep i) (show_int (n + 1)) (exp_at t (view s) (rateLimitKey ep i)) (view s))"
    using assms
    by (simp_all add: incrementRateLimit_def Let_def io_simps incr_is_incrby incrby_result incrby_view
        expire_result expire_view e)
qed

lemma addAgentCostMicros_ok:
  assumes "kinds_ok (view s)" "count_at t (view s) (agentCostKey i) = Some n" "0 < w"
  shows "fst (addAgentCostMicros R t i m w s) = Inr (n + m)"
    and "kinds_ok (view (snd (addAgentCostMicros R t i m w s)))"
    and "count_at t (view (snd (addAgentCostMicros R t i m w s))) (agentCostKey i) = Some (n + m)"
proof -
  have e: "put_exp t k y (put_text k x e (view s)) = put_text k x (Some y) (view s)"
    if "e = exp_at t (view s) k" for k x e y
    using that exp_at_live [of t "view s" k] by (auto simp: put_exp_def put_text_def live_def split: option.split)
  have x: "case exp_at t (view s) k of None \<Rightarrow> True | Some y \<Rightarrow> t < y" for k
    using exp_at_live [of t "view s" k] by (auto split: option.split)
  show "fst (addAgentCostMicros R t i m w s) = Inr (n + m)"
    and "kinds_ok (view (snd (addAgentCostMicros R t i m w s)))"
    and "count_at t (view (snd (addAgentCostMicros R t i m w s))) (agentCostKey i) = Some (n + m)"
    using assms x [of "agentCostKey i"]
    by (simp_all add: addAgentCostMicros_def Let_def io_simps incrby_result incrby_view
        expire_result expire_view e count_at_def)
qed

lemma takeBackupConsentRequest_ok:
  assumes "kinds_ok (view s)"
  shows "fst (takeBackupConsentRequest R t uid s) = Inr (text_at t (view s) (backupConsentKey uid))"
    and "kinds_ok (view (snd (takeBackupConsentRequest R t uid s)))"
    and "text_at t (view (snd (takeBackupConsentRequest R t uid s))) (backupConsentKey uid) = None"
  using assms by (simp_all add: takeBackupConsentRequest_def Let_def io_simps get_result get_view
      del_result del_view)

lemma takePendingAccountDeletion_ok:
  assumes "kinds_ok (view s)"
  shows "fst (takePendingAccountDeletion R t uid s) = Inr (text_at t (view s) (accountDeleteKey uid))"
    and "kinds_ok (view (snd (takePendingAccountDeletion R t uid s)))"
    and "text_at t (view (snd (takePendingAccountDeletion R t uid s))) (accountDeleteKey uid) = None"
  using assms by (simp_all add: takePendingAccountDeletion_def Let_def io_simps get_result get_view
      del_result del_view)

lemma setPendingAccountDeletion_ok:
  assumes "kinds_ok (view s)"
  shows "fst (setPendingAccountDeletion R t uid x s) = Inr ()"
    and "kinds_ok (view (snd (setPendingAccountDeletion R t uid x s)))"
    and "text_at t' (view (snd (setPendingAccountDeletion R t uid x s))) k =
      (if k = accountDeleteKey uid then (if t' < t + 300000 then Some x else None) else text_at t' (view s) k)"
  using assms
  by (simp_all add: setPendingAccountDeletion_def set_ex_result set_ex_view ACCOUNT_DELETE_TTL_SECONDS_def)

text \<open>The first caller becomes the owner; every later caller is told who it is.\<close>

lemma claimAgentThreadOwner_ok:
  assumes "kinds_ok (view s)"
  shows "fst (claimAgentThreadOwner R t th uid ttl s) =
      Inr (case text_at t (view s) (agentThreadOwnerKey th) of None \<Rightarrow> uid | Some o' \<Rightarrow> o')"
    and "kinds_ok (view (snd (claimAgentThreadOwner R t th uid ttl s)))"
    and "text_at t' (view (snd (claimAgentThreadOwner R t th uid ttl s))) k =
      (if k = agentThreadOwnerKey th \<and> text_at t (view s) k = None
       then (if t' < t + max 1 ttl * 1000 then Some uid else None) else text_at t' (view s) k)"
proof -
  have "0 < max 1 ttl" by simp
  with assms kinds_ok_text_live [OF assms, of "agentThreadOwnerKey th" t]
  show "fst (claimAgentThreadOwner R t th uid ttl s) =
      Inr (case text_at t (view s) (agentThreadOwnerKey th) of None \<Rightarrow> uid | Some o' \<Rightarrow> o')"
    and "kinds_ok (view (snd (claimAgentThreadOwner R t th uid ttl s)))"
    and "text_at t' (view (snd (claimAgentThreadOwner R t th uid ttl s))) k =
      (if k = agentThreadOwnerKey th \<and> text_at t (view s) k = None
       then (if t' < t + max 1 ttl * 1000 then Some uid else None) else text_at t' (view s) k)"
    by (auto simp: claimAgentThreadOwner_def Let_def io_simps set_nx_result set_nx_view get_result get_view
        split: option.splits)
qed

end

section \<open>When the store does not answer\<close>

text \<open>The counters and the locks fail closed: an error of the store is a 503, never a free pass.\<close>

lemma incrementRateLimit_fails_closed:
  "fst (r_incr R t (rateLimitKey ep i) s) = Inl e \<Longrightarrow>
     fst (incrementRateLimit R t ep i w s) = Inl cacheUnavailable"
  by (simp add: incrementRateLimit_def Let_def io_simps)

lemma setLockIfAbsent_fails_closed:
  "fst (r_set_nx R t k h (max 1 ttl) s) = Inl e \<Longrightarrow> fst (setLockIfAbsent R t k h ttl s) = Inl cacheUnavailable"
  by (simp add: setLockIfAbsent_def io_simps)

lemma claimAgentThreadOwner_fails_closed:
  "fst (r_set_nx R t (agentThreadOwnerKey th) uid (max 1 ttl) s) = Inl e \<Longrightarrow>
     fst (claimAgentThreadOwner R t th uid ttl s) = Inl cacheUnavailable"
  by (simp add: claimAgentThreadOwner_def Let_def io_simps)

end
