(* ===== verification/Session_Tokens.thy ===== *)
theory Session_Tokens
  imports Demo_Idp Lock_Service
begin

text \<open>
  \<open>bff-server/session-tokens.ts\<close>: the member's tokens sealed beside the session, and their renewal,
  which at most one request of a session performs at a time. A renewal context \<open>renewal\<close> holds what
  the module takes from elsewhere (cipher, signature check, identity provider, settings) and the values
  it draws (lock holder id, nonce). While a request waits for another's renewal, the steps of the other
  requests are the parameter \<open>others\<close>.
\<close>

record sessionTokens =
  accessToken :: string
  refreshToken :: string
  accessExpiresAt :: int
  refreshExpiresAt :: int

definition RENEW_SKEW_MS :: int where "RENEW_SKEW_MS = 30000"
definition RENEW_LOCK_TTL_SECONDS :: int where "RENEW_LOCK_TTL_SECONDS = 15"
definition RENEW_WAIT_POLL_MS :: int where "RENEW_WAIT_POLL_MS = 100"
definition RENEW_WAIT_ATTEMPTS :: nat where "RENEW_WAIT_ATTEMPTS = 50"

definition token_pair_json :: "sessionTokens \<Rightarrow> json" where
  "token_pair_json t = JObj [(''accessToken'', JStr (accessToken t)), (''refreshToken'', JStr (refreshToken t))]"

definition sealed_json :: "sessionTokens \<Rightarrow> string \<Rightarrow> json" where
  "sealed_json t blob = JObj [(''v'', num 1), (''accessExpiresAt'', num (accessExpiresAt t)),
     (''refreshExpiresAt'', num (refreshExpiresAt t)), (''blob'', JStr blob)]"

definition sealSessionTokens ::
    "gcm \<Rightarrow> env \<Rightarrow> string \<Rightarrow> session \<Rightarrow> sessionTokens \<Rightarrow> exn + string" where
  "sealSessionTokens G E iv s t =
     bindE (encryptSecret G iv (stringify (token_pair_json t)) (agentConfigEncKey E)
              (sessionTokensAad (sessionId s) (userId s)))
       (\<lambda>blob. Inr (stringify (sealed_json t blob)))"

definition openSessionTokens :: "gcm \<Rightarrow> env \<Rightarrow> session \<Rightarrow> string \<Rightarrow> exn + sessionTokens" where
  "openSessionTokens G E s raw =
     bindE (parseJson raw) (\<lambda>r. bindE (member r ''v'') (\<lambda>v.
     case (v, json_member r ''blob'') of
       (JNum one, JStr blob) \<Rightarrow>
         if read_int one \<noteq> Some 1 then Inl (JsError ''Unrecognised session token record'')
         else bindE (decryptSecret G blob (agentConfigEncKey E) (sessionTokensAad (sessionId s) (userId s))) (\<lambda>plain.
              bindE (parseJson plain) (\<lambda>p. bindE (member p ''accessToken'') (\<lambda>a.
              Inr \<lparr>accessToken = json_string a, refreshToken = json_string (json_member p ''refreshToken''),
                   accessExpiresAt = json_number_int (json_member r ''accessExpiresAt''),
                   refreshExpiresAt = json_number_int (json_member r ''refreshExpiresAt'')\<rparr>)))
     | _ \<Rightarrow> Inl (JsError ''Unrecognised session token record'')))"

definition tokensFromGrant :: "token_response \<Rightarrow> int \<Rightarrow> sessionTokens" where
  "tokensFromGrant g now = \<lparr>accessToken = access_token g, refreshToken = refresh_token g,
     accessExpiresAt = now + expires_in g * 1000, refreshExpiresAt = now + refresh_expires_in g * 1000\<rparr>"

section \<open>Renewal\<close>

record ('r, 'h) renewal =
  rn_redis :: "'r redis"
  rn_kc :: "'h kc_ctx"
  rn_crypto :: crypto
  rn_gcm :: gcm
  rn_iv :: string
  rn_holder :: string

definition sessionNotFound :: exn where
  "sessionNotFound = mk_auth_error SESSION_NOT_FOUND ''Your session has ended. Please log in again.'' 401"

definition renewalPending :: exn where
  "renewalPending = AuthError \<lparr>ae_code = SESSION_RENEWAL_PENDING, ae_message = ''Your session is being renewed.'',
     ae_status = 503, ae_clear_cookies = None, ae_retry_after = Some 1\<rparr>"

definition ownerMismatch :: exn where
  "ownerMismatch = mk_auth_error SESSION_OWNER_MISMATCH ''Session could not be renewed.'' 401"

definition quietly :: "('s, 'a) io \<Rightarrow> ('s, unit) io" where
  "quietly m = catchM (thenM m (returnM ())) (\<lambda>_. returnM ())"

lemma quietly_run [io_simps]: "quietly m s = (Inr (), snd (m s))"
  by (simp add: quietly_def catchM_run bindM_run split: sum.split)

definition renew :: "('r, 'h) renewal \<Rightarrow> int \<Rightarrow> session \<Rightarrow> sessionTokens \<Rightarrow> ('r, 'h idp, sessionTokens) act" where
  "renew X now s t =
     bindM (catchM (inExt (refreshTokens (rn_kc X) (refreshToken t))) (\<lambda>err.
        thenM (whenM (auth_status err = Some 401)
                 (thenM (inRedis (deleteSession (rn_redis X) now (sessionId s) (userId s)))
                        (auditM ''session_renewal_rejected'' [(''userId'', userId s)])))
              (throwM err))) (\<lambda>grant.
     let renewed = tokensFromGrant grant now in
     bindM (inExt (validateJwt (rn_crypto X) (rn_kc X) now (accessToken renewed))) (\<lambda>vt.
     if json_member (vt_payload vt) ''sub'' \<noteq> JStr (userId s)
     then thenM (quietly (inExt (revokeToken (rn_kc X) (refreshToken renewed) ''refresh_token'')))
         (thenM (quietly (inRedis (deleteSession (rn_redis X) now (sessionId s) (userId s))))
         (thenM (auditM ''session_refresh_owner_mismatch'' [(''userId'', userId s)])
                (throwM ownerMismatch)))
     else bindM (liftE (sealSessionTokens (rn_gcm X) (kcx_env (rn_kc X)) (rn_iv X) s renewed)) (\<lambda>sealedText.
          thenM (inRedis (cacheSessionTokens (rn_redis X) now s sealedText)) (returnM renewed))))"

text \<open>Poll for another request's renewal: each attempt sleeps while the others take their steps.\<close>

fun waitFrom :: "('r, 'h) renewal \<Rightarrow> (nat \<Rightarrow> ('r, 'h idp) world \<Rightarrow> ('r, 'h idp) world) \<Rightarrow> int \<Rightarrow> nat \<Rightarrow>
    session \<Rightarrow> sessionTokens \<Rightarrow> ('r, 'h idp, sessionTokens) act" where
  "waitFrom X others now 0 s stale = throwM renewalPending"
| "waitFrom X others now (Suc n) s stale =
     thenM (modifyM (others n))
     (bindM (inRedis (getSessionTokensRecord (rn_redis X) (now + RENEW_WAIT_POLL_MS) (sessionId s))) (\<lambda>raw.
      case (case raw of None \<Rightarrow> [] | Some x \<Rightarrow> x) of
        [] \<Rightarrow> throwM sessionNotFound
      | _ \<Rightarrow> bindM (liftE (openSessionTokens (rn_gcm X) (kcx_env (rn_kc X)) s (the raw))) (\<lambda>current.
          if accessExpiresAt stale < accessExpiresAt current then returnM current
          else waitFrom X others (now + RENEW_WAIT_POLL_MS) n s stale)))"

definition waitForRenewal :: "('r, 'h) renewal \<Rightarrow> (nat \<Rightarrow> ('r, 'h idp) world \<Rightarrow> ('r, 'h idp) world) \<Rightarrow> int \<Rightarrow>
    session \<Rightarrow> sessionTokens \<Rightarrow> ('r, 'h idp, sessionTokens) act" where
  "waitForRenewal X others now s stale = waitFrom X others now RENEW_WAIT_ATTEMPTS s stale"

definition renewLock :: "session \<Rightarrow> string" where "renewLock s = ''session-renew:'' @ sessionId s"

definition ensureFreshTokens :: "('r, 'h) renewal \<Rightarrow> (nat \<Rightarrow> ('r, 'h idp) world \<Rightarrow> ('r, 'h idp) world) \<Rightarrow> int \<Rightarrow>
    bool \<Rightarrow> session \<Rightarrow> sessionTokens \<Rightarrow> ('r, 'h idp, sessionTokens) act" where
  "ensureFreshTokens X others now force s t =
     (if \<not> force \<and> RENEW_SKEW_MS < accessExpiresAt t - now then returnM t
      else bindM (inRedis (setLockIfAbsent (rn_redis X) now (renewLock s) (rn_holder X) RENEW_LOCK_TTL_SECONDS)) (\<lambda>ok.
        if \<not> ok then waitForRenewal X others now s t
        else finallyM (renew X now s t)
               (quietly (inRedis (releaseLockIfHeld (rn_redis X) now (renewLock s) (rn_holder X))))))"

lemma renewLock_not_set [simp]: "\<not> set_key (renewLock s)"
  by (simp add: set_key_def renewLock_def js_starts_with_def)

lemma renewLock_other_keys [simp]:
  "renewLock s \<noteq> sessionKey i" "renewLock s \<noteq> sessionTokensKey i" "renewLock s \<noteq> userSessionsKey u"
  by (simp_all add: renewLock_def key_defs)

section \<open>Sealed records\<close>

lemma plain_num [simp]: "plain_json (num i)"
  by (simp add: num_def number_token_show_int)

lemma read_num [simp]: "json_number_int (num i) = i"
  by (simp add: json_number_int_def num_def)

context gcm_ok
begin

lemma open_seal:
  assumes "length iv = 12" "sealSessionTokens G E iv s t = Inr raw"
  shows "openSessionTokens G E s raw = Inr t"
proof -
  obtain blob where b: "encryptSecret G iv (stringify (token_pair_json t)) (agentConfigEncKey E)
      (sessionTokensAad (sessionId s) (userId s)) = Inr blob" "raw = stringify (sealed_json t blob)"
    using assms(2) by (auto simp: sealSessionTokens_def bindE_def split: sum.splits)
  have p: "parseJson (stringify (sealed_json t blob)) = Inr (sealed_json t blob)"
    "parseJson (stringify (token_pair_json t)) = Inr (token_pair_json t)"
    by (simp_all add: parseJson_def json_parse_stringify sealed_json_def token_pair_json_def del: stringify.simps)
  have m: "member (sealed_json t blob) ''v'' = Inr (num 1)" "json_member (sealed_json t blob) ''blob'' = JStr blob"
    "json_member (sealed_json t blob) ''accessExpiresAt'' = num (accessExpiresAt t)"
    "json_member (sealed_json t blob) ''refreshExpiresAt'' = num (refreshExpiresAt t)"
    "member (token_pair_json t) ''accessToken'' = Inr (JStr (accessToken t))"
    "json_member (token_pair_json t) ''refreshToken'' = JStr (refreshToken t)"
    by (simp_all add: sealed_json_def token_pair_json_def member_def json_member_def)
  show ?thesis
    using decrypt_encrypt [OF assms(1) b(1)] unfolding openSessionTokens_def b(2) p m bindE_simps
    by (simp add: p m num_def json_string_def json_number_int_def)
qed

end

section \<open>Properties\<close>

lemma seal_then_open:
  assumes "gcm_ok G" "length iv = 12" "length (base64_decode (agentConfigEncKey E)) = 32" "agentConfigEncKey E \<noteq> []"
  shows "\<exists>raw. sealSessionTokens G E iv s t = Inr raw \<and> openSessionTokens G E s raw = Inr t"
proof -
  have k: "loadKey (agentConfigEncKey E) = Inr (base64_decode (agentConfigEncKey E))"
    using assms(3,4) by (simp add: loadKey_def KEY_BYTES_def)
  obtain tag ct where c: "gcm_seal G (base64_decode (agentConfigEncKey E)) iv
      (utf8_encode (sessionTokensAad (sessionId s) (userId s))) (utf8_encode (stringify (token_pair_json t))) = (tag, ct)"
    by fastforce
  have "\<exists>raw. sealSessionTokens G E iv s t = Inr raw"
    unfolding sealSessionTokens_def encryptSecret_def k bindE_simps c by (simp only: bindE_simps prod.case) blast
  with gcm_ok.open_seal [OF assms(1,2)] show ?thesis by blast
qed

text \<open>C18: The tokens sealed for a session and its owner open for that session and owner to
  exactly what was sealed, both secrets and both expiry times.\<close>

theorem sealed_tokens_roundtrip:
  assumes "gcm_ok G" "length iv = 12" "length (base64_decode (agentConfigEncKey E)) = 32" "agentConfigEncKey E \<noteq> []"
  shows "\<exists>raw. sealSessionTokens G E iv s t = Inr raw \<and> openSessionTokens G E s raw = Inr t"
  using assms by (rule seal_then_open)

definition demo_session :: session where
  "demo_session = \<lparr>sessionId = ''s1'', userId = ''u1'', createdAt = 0, lastActivityAt = 0, expiresAt = 86400000\<rparr>"

definition demo_tokens :: sessionTokens where
  "demo_tokens = \<lparr>accessToken = ''a'', refreshToken = ''r'', accessExpiresAt = 900000, refreshExpiresAt = 1800000\<rparr>"

theorem sealed_tokens_roundtrip_witness:
  "\<exists>raw. sealSessionTokens ref_gcm keyed_env ''nonce-nonce-'' demo_session demo_tokens = Inr raw \<and>
     openSessionTokens ref_gcm keyed_env demo_session raw = Inr demo_tokens"
  using sealed_tokens_roundtrip [OF ref_gcm.gcm_ok_axioms _ keyed_env_key, of "''nonce-nonce-''"] by simp


definition quiet_renewal :: "(kv, unit) renewal" where
  "quiet_renewal = \<lparr>rn_redis = ref_redis, rn_kc = quiet_ctx, rn_crypto = node_crypto, rn_gcm = ref_gcm,
     rn_iv = ''nonce-nonce-'', rn_holder = ''h1''\<rparr>"

lemma quiet_refresh_fails: "fst (refreshTokens quiet_ctx r quiet_idp) = Inl (JsError ''fetch failed'')"
  by (simp add: refreshTokens_def getDiscovery_def quiet_ctx_def quiet_idp_def keycloakFetch_def io_simps Let_def)


text \<open>C4: A renewal that succeeds stored, for this session, the tokens it returns, sealed,
  and the new access token was validated and names the session's owner as its subject.\<close>

theorem renewed_tokens_belong_to_owner:
  assumes "redis_up (rn_redis X) view order" "kinds_ok (view (w_redis w))" "gcm_ok (rn_gcm X)" "length (rn_iv X) = 12"
    and "fst (renew X now s t w) = Inr t'"
  shows "(\<exists>raw. tokens_at now (view (w_redis (snd (renew X now s t w)))) (sessionId s) = Some raw \<and>
            openSessionTokens (rn_gcm X) (kcx_env (rn_kc X)) s raw = Inr t') \<and>
         (\<exists>vt x. fst (validateJwt (rn_crypto X) (rn_kc X) now (accessToken t') x) = Inr vt \<and>
            json_member (vt_payload vt) ''sub'' = JStr (userId s))"
proof -
  obtain g x1 where g: "refreshTokens (rn_kc X) (refreshToken t) (w_ext w) = (Inr g, x1)"
    using assms(5) by (cases "refreshTokens (rn_kc X) (refreshToken t) (w_ext w)")
      (auto simp: renew_def io_simps split: sum.splits)
  let ?t = "tokensFromGrant g now"
  obtain vt x2 where v: "validateJwt (rn_crypto X) (rn_kc X) now (accessToken ?t) x1 = (Inr vt, x2)"
    using assms(5) g by (cases "validateJwt (rn_crypto X) (rn_kc X) now (accessToken ?t) x1")
      (auto simp: renew_def io_simps Let_def split: sum.splits)
  have sub: "json_member (vt_payload vt) ''sub'' = JStr (userId s)"
    using assms(5) g v by (rule_tac ccontr) (simp add: renew_def io_simps Let_def)
  obtain raw where r: "sealSessionTokens (rn_gcm X) (kcx_env (rn_kc X)) (rn_iv X) s ?t = Inr raw"
    using assms(5) g v sub by (cases "sealSessionTokens (rn_gcm X) (kcx_env (rn_kc X)) (rn_iv X) s ?t")
      (auto simp: renew_def io_simps Let_def)
  note c = redis_up.cacheSessionTokens_ok [OF assms(1,2), of now s raw]
  have t': "t' = ?t" using assms(5) g v sub r c(1) by (simp add: renew_def io_simps Let_def)
  have "tokens_at now (view (w_redis (snd (renew X now s t w)))) (sessionId s) = Some raw"
    using g v sub r c by (simp add: renew_def io_simps Let_def)
  with gcm_ok.open_seal [OF assms(3,4) r] v sub show ?thesis unfolding t' by (metis fst_conv)
qed

definition demo_renewal :: "string \<Rightarrow> (kv, unit) renewal" where
  "demo_renewal u = \<lparr>rn_redis = ref_redis, rn_kc = grant_ctx u, rn_crypto = yes_crypto, rn_gcm = ref_gcm,
     rn_iv = ''nonce-nonce-'', rn_holder = ''h1''\<rparr>"

definition demo_renewed :: "string \<Rightarrow> sessionTokens" where
  "demo_renewed u = tokensFromGrant (token_response_of (grant_json u)) 0"

lemma demo_renew: "fst (renew (demo_renewal (userId s)) 0 s t (empty_world warm_idp)) = Inr (demo_renewed (userId s))"
proof -
  have sub: "json_member (claims_for u) ''sub'' = JStr u" for u
    by (simp add: json_member_def claims_for_def plain_claims_def)
  obtain raw where "sealSessionTokens ref_gcm keyed_env ''nonce-nonce-'' s (demo_renewed (userId s)) = Inr raw"
    using seal_then_open [OF ref_gcm.gcm_ok_axioms _ keyed_env_key, of "''nonce-nonce-''"] by force
  moreover have "accessToken (demo_renewed u) = demo_jwt u" for u
    by (simp add: demo_renewed_def tokensFromGrant_def grant_access)
  moreover have "fst (cacheSessionTokens ref_redis 0 s raw (\<lambda>_. None)) = Inr ()" for raw
    by (rule ref.cacheSessionTokens_ok) simp
  ultimately show ?thesis
    by (simp add: renew_def io_simps Let_def demo_renewal_def demo_refresh demo_validate sub
        demo_renewed_def [symmetric] grant_ctx_def [THEN arg_cong [where f = kcx_env]])
qed

theorem renewed_tokens_belong_to_owner_witness:
  "\<exists>raw. tokens_at 0 (w_redis (snd (renew (demo_renewal ''u1'') 0 demo_session demo_tokens (empty_world warm_idp)))) ''s1''
     = Some raw"
  using renewed_tokens_belong_to_owner [of "demo_renewal ''u1''" "\<lambda>s. s" ref_order "empty_world warm_idp" 0 demo_session
      demo_tokens "demo_renewed ''u1''"] demo_renew [of demo_session demo_tokens]
  by (auto simp: demo_renewal_def ref.redis_up_axioms ref_gcm.gcm_ok_axioms demo_session_def)

end
