(* ===== verification/Session_Manager.thy ===== *)
theory Session_Manager
  imports Session_Tokens
begin

text \<open>
  \<open>bff-server/session-manager.ts\<close>: creation of a session under the cap on concurrent sessions,
  eviction of the least recently active one, the two expiry limits, and termination. The fresh session
  id is an argument. The trimming loop of \<open>createSession\<close> stops at the cap or when an eviction makes no
  progress; as a recursion it takes the present count as its bound, because each turn lowers it.
\<close>

section \<open>Eviction\<close>

fun readAll :: "'r redis \<Rightarrow> int \<Rightarrow> string list \<Rightarrow> ('r, session list) io" where
  "readAll R now [] = returnM []"
| "readAll R now (i # is) = bindM (getSession R now i) (\<lambda>s. bindM (readAll R now is) (\<lambda>rest.
     returnM (case s of None \<Rightarrow> rest | Some x \<Rightarrow> x # rest)))"

definition evictOldestSession :: "'r redis \<Rightarrow> env \<Rightarrow> int \<Rightarrow> string \<Rightarrow> ('r, 'x, unit) act" where
  "evictOldestSession R E now uid =
     bindM (inRedis (getUserSessionIds R now uid)) (\<lambda>ids.
     bindM (inRedis (readAll R now ids)) (\<lambda>valid. case sort_key lastActivityAt valid of
        [] \<Rightarrow> returnM ()
      | oldest # _ \<Rightarrow>
          thenM (inRedis (deleteSession R now (sessionId oldest) uid))
                (auditM ''session_evicted'' [(''userId'', uid), (''activeSessions'', show_nat (length valid)),
                   (''maxSessions'', show_int (maxConcurrentSessions E))])))"

fun trimSessions :: "'r redis \<Rightarrow> env \<Rightarrow> int \<Rightarrow> string \<Rightarrow> nat \<Rightarrow> int \<Rightarrow> ('r, 'x, unit) act" where
  "trimSessions R E now uid 0 count = returnM ()"
| "trimSessions R E now uid (Suc fuel) count =
     (if count \<le> maxConcurrentSessions E then returnM ()
      else thenM (evictOldestSession R E now uid)
        (bindM (inRedis (getUserSessionCount R now uid)) (\<lambda>next_count.
           if count \<le> next_count then returnM () else trimSessions R E now uid fuel next_count)))"

section \<open>Creation\<close>

definition newSession :: "env \<Rightarrow> int \<Rightarrow> string \<Rightarrow> string \<Rightarrow> session" where
  "newSession E now freshId uid = \<lparr>sessionId = freshId, userId = uid, createdAt = now, lastActivityAt = now,
     expiresAt = now + sessionAbsoluteTimeoutMs E\<rparr>"

definition createSession ::
    "('r, 'h) renewal \<Rightarrow> int \<Rightarrow> string \<Rightarrow> string \<Rightarrow> sessionTokens \<Rightarrow> ('r, 'x, session) act" where
  "createSession X now freshId uid tokens = (let R = rn_redis X; E = kcx_env (rn_kc X);
       s = newSession E now freshId uid in
     bindM (inRedis (getUserSessionCount R now uid)) (\<lambda>n.
     thenM (whenM (maxConcurrentSessions E \<le> n) (evictOldestSession R E now uid))
    (thenM (inRedis (cacheSession R now s))
    (bindM (liftE (sealSessionTokens (rn_gcm X) E (rn_iv X) s tokens)) (\<lambda>sealedText.
     thenM (inRedis (cacheSessionTokens R now s sealedText))
    (bindM (inRedis (getUserSessionCount R now uid)) (\<lambda>count.
     thenM (trimSessions R E now uid (nat count) count) (returnM s))))))))"

section \<open>Expiry\<close>

datatype expired_session = Absolute string | Idle string | Missing

definition expiryOf :: "'r redis \<Rightarrow> env \<Rightarrow> int \<Rightarrow> session option \<Rightarrow> string \<Rightarrow> ('r, expired_session option) io" where
  "expiryOf R E now so sid = (case so of
     None \<Rightarrow> returnM (Some Missing)
   | Some s \<Rightarrow>
      if expiresAt s < now
      then thenM (deleteSession R now sid (userId s)) (returnM (Some (Absolute (userId s))))
      else if sessionIdleTimeoutMs E < now - lastActivityAt s
      then thenM (deleteSession R now sid (userId s)) (returnM (Some (Idle (userId s))))
      else returnM None)"

definition readLiveSession :: "'r redis \<Rightarrow> env \<Rightarrow> int \<Rightarrow> string \<Rightarrow> ('r, expired_session + session) io" where
  "readLiveSession R E now sid = bindM (getSession R now sid) (\<lambda>s.
     bindM (expiryOf R E now s sid) (\<lambda>x. returnM (case x of Some e \<Rightarrow> Inl e | None \<Rightarrow> Inr (the s))))"

definition readLiveSessionWithTokens ::
    "'r redis \<Rightarrow> env \<Rightarrow> int \<Rightarrow> string \<Rightarrow> ('r, expired_session + session \<times> string option) io" where
  "readLiveSessionWithTokens R E now sid = bindM (getSessionWithTokens R now sid) (\<lambda>(s, tokensRaw).
     bindM (expiryOf R E now s sid) (\<lambda>x. returnM (case x of Some e \<Rightarrow> Inl e | None \<Rightarrow> Inr (the s, tokensRaw))))"

definition getValidSession :: "'r redis \<Rightarrow> env \<Rightarrow> int \<Rightarrow> string \<Rightarrow> ('r, session option) io" where
  "getValidSession R E now sid = bindM (readLiveSession R E now sid) (\<lambda>r.
     returnM (case r of Inl e \<Rightarrow> None | Inr s \<Rightarrow> Some s))"

definition touchSession :: "'r redis \<Rightarrow> int \<Rightarrow> session \<Rightarrow> ('r, unit) io" where
  "touchSession R now s = touchSessionRecord R now (s\<lparr>lastActivityAt := now\<rparr>)"

section \<open>Termination\<close>

definition terminateSession :: "'r redis \<Rightarrow> int \<Rightarrow> string \<Rightarrow> string \<Rightarrow> ('r, unit) io" where
  "terminateSession R now sid uid = deleteSession R now sid uid"

definition terminateAllSessions :: "'r redis \<Rightarrow> int \<Rightarrow> string \<Rightarrow> ('r, unit) io" where
  "terminateAllSessions R now uid = bindM (getUserSessionIds R now uid)
     (\<lambda>ids. forM ids (\<lambda>sid. deleteSession R now sid uid))"

definition getActiveSessionCount :: "'r redis \<Rightarrow> int \<Rightarrow> string \<Rightarrow> ('r, int) io" where
  "getActiveSessionCount R now uid = getUserSessionCount R now uid"

section \<open>Lemmas\<close>

definition healthy :: "int \<Rightarrow> kv \<Rightarrow> string \<Rightarrow> bool" where
  "healthy t v uid \<longleftrightarrow> (\<forall>i \<in> ids_at t v uid. \<exists>s. session_at t v i = Some s \<and> sessionId s = i)"

context redis_up
begin

lemma getUserSessionIds_ok:
  assumes "kinds_ok (view s)"
  shows "\<exists>ids. fst (getUserSessionIds R t uid s) = Inr ids \<and> distinct ids \<and> set ids = ids_at t (view s) uid"
    and "view (snd (getUserSessionIds R t uid s)) = view s"
  using assms order_distinct order_members by (simp_all add: getUserSessionIds_def commands ids_at_def)

lemma readAll_ok:
  assumes "kinds_ok (view s)"
  shows "fst (readAll R t is s) = Inr (List.map_filter (session_at t (view s)) is) \<and>
    kinds_ok (view (snd (readAll R t is s))) \<and>
    (\<forall>i. session_at t (view (snd (readAll R t is s))) i = session_at t (view s) i) \<and>
    (\<forall>u. ids_at t (view (snd (readAll R t is s))) u = ids_at t (view s) u) \<and>
    (\<forall>i. tokens_at t (view (snd (readAll R t is s))) i = tokens_at t (view s) i)"
  using assms
proof (induction "is" arbitrary: s)
  case Nil
  then show ?case by (simp add: List.map_filter_simps)
next
  case (Cons i "is")
  let ?s = "snd (getSession R t i s)"
  have f: "kinds_ok (view ?s)" "\<And>j. session_at t (view ?s) j = session_at t (view s) j"
    "\<And>u. ids_at t (view ?s) u = ids_at t (view s) u" "\<And>j. tokens_at t (view ?s) j = tokens_at t (view s) j"
    using getSession_frame [OF Cons.prems] getSession_session_at [OF Cons.prems] by auto
  then have "List.map_filter (session_at t (view ?s)) is = List.map_filter (session_at t (view s)) is"
    by (simp add: List.map_filter_def)
  with Cons.IH [OF f(1)] f getSession_result [OF Cons.prems, of t i] show ?case
    by (auto simp: io_simps List.map_filter_simps split: option.split)
qed

text \<open>Eviction removes one session of the user, a least recently active one, when any is readable.\<close>

lemma evictOldestSession_ok:
  fixes w :: "('r, 'x) world" and t :: int and uid :: string and E :: env
  assumes "kinds_ok (view (w_redis w))"
  defines "w' \<equiv> snd (evictOldestSession R E t uid w)"
  shows "fst (evictOldestSession R E t uid w) = Inr ()" and "kinds_ok (view (w_redis w'))"
    and "ids_at t (view (w_redis w')) uid \<subseteq> ids_at t (view (w_redis w)) uid"
    and "\<forall>i \<in> ids_at t (view (w_redis w)) uid. session_at t (view (w_redis w)) i = None \<Longrightarrow>
      ids_at t (view (w_redis w')) uid = ids_at t (view (w_redis w)) uid"
proof -
  obtain ids where ids: "fst (getUserSessionIds R t uid (w_redis w)) = Inr ids"
      "set ids = ids_at t (view (w_redis w)) uid"
    using getUserSessionIds_ok(1) [OF assms(1)] by blast
  let ?s = "snd (getUserSessionIds R t uid (w_redis w))"
  have v: "view ?s = view (w_redis w)" by (rule getUserSessionIds_ok(2) [OF assms(1)])
  note r = readAll_ok [of ?s t ids, unfolded v, OF assms(1)]
  let ?valid = "List.map_filter (session_at t (view (w_redis w))) ids"
  have "(fst (evictOldestSession R E t uid w) = Inr () \<and> kinds_ok (view (w_redis w')) \<and>
     ids_at t (view (w_redis w')) uid \<subseteq> ids_at t (view (w_redis w)) uid) \<and>
     ((\<forall>i \<in> ids_at t (view (w_redis w)) uid. session_at t (view (w_redis w)) i = None) \<longrightarrow>
      ids_at t (view (w_redis w')) uid = ids_at t (view (w_redis w)) uid)"
  proof (cases "sort_key lastActivityAt ?valid")
    case Nil
    then show ?thesis using ids r by (simp add: w'_def evictOldestSession_def io_simps)
  next
    case (Cons o' os)
    then have "o' \<in> set ?valid" by (metis list.set_intros(1) set_sort)
    then have ne: "\<exists>i \<in> set ids. session_at t (view (w_redis w)) i \<noteq> None"
      by (auto simp: List.map_filter_def)
    have k: "kinds_ok (view (snd (readAll R t ids ?s)))" using r by blast
    note d = deleteSession_ok [OF k, of t "sessionId o'" uid]
    show ?thesis using ids r d ne Cons by (auto simp: w'_def evictOldestSession_def io_simps)
  qed
  then show "fst (evictOldestSession R E t uid w) = Inr ()" "kinds_ok (view (w_redis w'))"
    "ids_at t (view (w_redis w')) uid \<subseteq> ids_at t (view (w_redis w)) uid"
    "\<forall>i \<in> ids_at t (view (w_redis w)) uid. session_at t (view (w_redis w)) i = None \<Longrightarrow>
      ids_at t (view (w_redis w')) uid = ids_at t (view (w_redis w)) uid"
    by blast+
qed

text \<open>
  A user's index is healthy when every id in it names a readable record that carries that id. On such
  an index an eviction removes exactly one session, a least recently active one.
\<close>

lemma evict_healthy:
  fixes w :: "('r, 'x) world" and t :: int and uid :: string and E :: env
  assumes "kinds_ok (view (w_redis w))" "healthy t (view (w_redis w)) uid" "ids_at t (view (w_redis w)) uid \<noteq> {}"
  defines "v \<equiv> view (w_redis w)" and "v' \<equiv> view (w_redis (snd (evictOldestSession R E t uid w)))"
  shows "\<exists>m \<in> ids_at t v uid. ids_at t v' uid = ids_at t v uid - {m} \<and>
     (\<forall>i \<in> ids_at t v uid. lastActivityAt (the (session_at t v m)) \<le> lastActivityAt (the (session_at t v i))) \<and>
     (\<forall>i. session_at t v' i = (if i = m then None else session_at t v i)) \<and>
     (\<forall>i. tokens_at t v' i = (if i = m then None else tokens_at t v i))"
proof -
  obtain ids where ids: "fst (getUserSessionIds R t uid (w_redis w)) = Inr ids" "set ids = ids_at t v uid"
    using getUserSessionIds_ok(1) [OF assms(1)] unfolding v_def by blast
  let ?s = "snd (getUserSessionIds R t uid (w_redis w))"
  have vs: "view ?s = v" unfolding v_def by (rule getUserSessionIds_ok(2) [OF assms(1)])
  have kv: "kinds_ok v" using assms(1) unfolding v_def .
  note r = readAll_ok [of ?s t ids, unfolded vs, OF kv]
  let ?valid = "List.map_filter (session_at t v) ids"
  have set_valid: "set ?valid = {x. \<exists>i \<in> ids_at t v uid. session_at t v i = Some x}"
    using ids(2) by (force simp: List.map_filter_def image_iff)
  obtain m ms where sorted: "sort_key lastActivityAt ?valid = m # ms"
  proof (cases "sort_key lastActivityAt ?valid")
    case Nil
    then have "?valid = []" by (metis set_empty set_sort)
    with set_valid assms(2,3) show ?thesis by (fastforce simp: healthy_def v_def)
  qed blast
  have hm: "healthy t v uid" using assms(2) unfolding v_def .
  have "m \<in> set ?valid" using sorted by (metis list.set_intros(1) set_sort)
  then have m: "sessionId m \<in> ids_at t v uid" "session_at t v (sessionId m) = Some m"
    using set_valid hm by (auto simp: healthy_def)
  have least: "lastActivityAt m \<le> lastActivityAt x" if "x \<in> set ?valid" for x
  proof -
    have "sorted (map lastActivityAt (m # ms))" using sorted_sort_key [of lastActivityAt ?valid] unfolding sorted .
    moreover have "x \<in> set (m # ms)" using that sorted by (metis set_sort)
    ultimately show ?thesis by auto
  qed
  have k: "kinds_ok (view (snd (readAll R t ids ?s)))" using r by blast
  note d = deleteSession_ok [OF k, of t "sessionId m" uid]
  have v': "v' = view (snd (deleteSession R t (sessionId m) uid (snd (readAll R t ids ?s))))"
    using ids(1) r sorted d(1) by (simp add: v'_def evictOldestSession_def io_simps)
  have 1: "lastActivityAt (the (session_at t v (sessionId m))) \<le> lastActivityAt (the (session_at t v i))"
    if "i \<in> ids_at t v uid" for i
  proof -
    have "\<exists>x. session_at t v i = Some x" using bspec [OF hm [unfolded healthy_def] that] by (elim exE conjE) (rule exI)
    then obtain x where x: "session_at t v i = Some x" ..
    with set_valid that have "x \<in> set ?valid" by blast
    with least x m(2) show ?thesis by simp
  qed
  have 2: "ids_at t v' uid = ids_at t v uid - {sessionId m}" using r d(5) by (simp add: v')
  have 3: "session_at t v' i = (if i = sessionId m then None else session_at t v i)" for i using r d(3) by (simp add: v')
  have 4: "tokens_at t v' i = (if i = sessionId m then None else tokens_at t v i)" for i using r d(4) by (simp add: v')
  show ?thesis using m(1) 1 2 3 4 by blast
qed

lemma healthy_after_evict:
  assumes "healthy t v uid" "ids_at t v' uid = ids_at t v uid - {m}"
    and "\<forall>i. session_at t v' i = (if i = m then None else session_at t v i)"
  shows "healthy t v' uid"
  using assms by (simp add: healthy_def)

text \<open>The trimming loop ends at the cap and spares the most recently active session.\<close>

lemma trimSessions_ok:
  fixes w :: "('r, 'x) world" and t :: int and uid :: string and E :: env
  assumes "kinds_ok (view (w_redis w))" "healthy t (view (w_redis w)) uid"
    and "1 \<le> maxConcurrentSessions E" "int (card (ids_at t (view (w_redis w)) uid)) = count" "nat count \<le> fuel"
    and "session_at t (view (w_redis w)) n = Some s" "n \<in> ids_at t (view (w_redis w)) uid"
    and "\<forall>i \<in> ids_at t (view (w_redis w)) uid - {n}.
           lastActivityAt (the (session_at t (view (w_redis w)) i)) < lastActivityAt s"
  shows "fst (trimSessions R E t uid fuel count w) = Inr () \<and>
    int (card (ids_at t (view (w_redis (snd (trimSessions R E t uid fuel count w)))) uid)) \<le> maxConcurrentSessions E \<and>
    session_at t (view (w_redis (snd (trimSessions R E t uid fuel count w)))) n = Some s \<and>
    tokens_at t (view (w_redis (snd (trimSessions R E t uid fuel count w)))) n = tokens_at t (view (w_redis w)) n"
  using assms
proof (induction fuel arbitrary: count w)
  case 0
  have "finite (ids_at t (view (w_redis w)) uid)" by (simp add: ids_at_def)
  with 0 have "0 < card (ids_at t (view (w_redis w)) uid)" by (auto simp: card_gt_0_iff)
  with 0 show ?case by simp
next
  case (Suc fuel)
  let ?v = "view (w_redis w)"
  have fin: "finite (ids_at t ?v uid)" by (simp add: ids_at_def)
  show ?case
  proof (cases "count \<le> maxConcurrentSessions E")
    case True
    then show ?thesis using Suc.prems by simp
  next
    case False
    let ?w = "snd (evictOldestSession R E t uid w)"
    note e = evictOldestSession_ok [OF Suc.prems(1), where E = E and t = t and uid = uid]
    obtain m where m: "m \<in> ids_at t ?v uid" "ids_at t (view (w_redis ?w)) uid = ids_at t ?v uid - {m}"
        "\<forall>i \<in> ids_at t ?v uid. lastActivityAt (the (session_at t ?v m)) \<le> lastActivityAt (the (session_at t ?v i))"
        "\<forall>i. session_at t (view (w_redis ?w)) i = (if i = m then None else session_at t ?v i)"
        "\<forall>i. tokens_at t (view (w_redis ?w)) i = (if i = m then None else tokens_at t ?v i)"
      using evict_healthy [OF Suc.prems(1,2), where E = E] Suc.prems(7) by blast
    have "2 \<le> card (ids_at t ?v uid)" using False Suc.prems(3,4) by linarith
    then obtain i where i: "i \<in> ids_at t ?v uid" "i \<noteq> n"
      using Suc.prems(7) fin by (metis card_le_Suc0_iff_eq not_less_eq_eq numeral_2_eq_2)
    have mn: "m \<noteq> n"
    proof
      assume "m = n"
      then have "lastActivityAt s \<le> lastActivityAt (the (session_at t ?v i))" using m(3) i(1) Suc.prems(6) by force
      moreover have "lastActivityAt (the (session_at t ?v i)) < lastActivityAt s" using Suc.prems(8) i by blast
      ultimately show False by simp
    qed
    have card: "int (card (ids_at t (view (w_redis ?w)) uid)) = count - 1"
    proof -
      have "0 < card (ids_at t ?v uid)" using m(1) fin by (auto simp: card_gt_0_iff)
      then show ?thesis using m(1) fin Suc.prems(4) unfolding m(2) by (simp add: card_Diff_singleton of_nat_diff)
    qed
    let ?w2 = "?w\<lparr>w_redis := snd (getUserSessionCount R t uid (w_redis ?w))\<rparr>"
    have c: "fst (getUserSessionCount R t uid (w_redis ?w)) = Inr (count - 1)" "view (w_redis ?w2) = view (w_redis ?w)"
      using getUserSessionCount_ok [OF e(2), of t uid] card by simp_all
    have "fst (trimSessions R E t uid fuel (count - 1) ?w2) = Inr () \<and>
      int (card (ids_at t (view (w_redis (snd (trimSessions R E t uid fuel (count - 1) ?w2)))) uid)) \<le> maxConcurrentSessions E \<and>
      session_at t (view (w_redis (snd (trimSessions R E t uid fuel (count - 1) ?w2)))) n = Some s \<and>
      tokens_at t (view (w_redis (snd (trimSessions R E t uid fuel (count - 1) ?w2)))) n = tokens_at t (view (w_redis ?w2)) n"
    proof (rule Suc.IH)
      show "healthy t (view (w_redis ?w2)) uid"
        unfolding c(2) using healthy_after_evict Suc.prems(2) m(2,4) by blast
    qed (use c e(2) card Suc.prems m mn in auto)
    then show ?thesis using False e(1) c m(5) mn by (simp add: io_simps)
  qed
qed

lemma evict_keeps_healthy:
  fixes w :: "('r, 'x) world" and t :: int and uid :: string and E :: env
  assumes "kinds_ok (view (w_redis w))" "healthy t (view (w_redis w)) uid"
  defines "v' \<equiv> view (w_redis (snd (evictOldestSession R E t uid w)))"
  shows "healthy t v' uid" and "ids_at t v' uid \<subseteq> ids_at t (view (w_redis w)) uid"
    and "\<forall>i \<in> ids_at t v' uid. session_at t v' i = session_at t (view (w_redis w)) i"
proof -
  have "healthy t v' uid \<and> ids_at t v' uid \<subseteq> ids_at t (view (w_redis w)) uid \<and>
    (\<forall>i \<in> ids_at t v' uid. session_at t v' i = session_at t (view (w_redis w)) i)"
  proof (cases "ids_at t (view (w_redis w)) uid = {}")
    case True
    then have "ids_at t v' uid = {}"
      using evictOldestSession_ok(3) [OF assms(1), where E = E and t = t and uid = uid] unfolding v'_def by auto
    with True show ?thesis by (simp add: healthy_def)
  next
    case False
    obtain m where m: "ids_at t v' uid = ids_at t (view (w_redis w)) uid - {m}"
      "\<forall>i. session_at t v' i = (if i = m then None else session_at t (view (w_redis w)) i)"
      using evict_healthy [OF assms(1,2) False, where E = E] unfolding v'_def by blast
    show ?thesis using healthy_after_evict [OF assms(2) m] m by auto
  qed
  then show "healthy t v' uid" "ids_at t v' uid \<subseteq> ids_at t (view (w_redis w)) uid"
    "\<forall>i \<in> ids_at t v' uid. session_at t v' i = session_at t (view (w_redis w)) i" by blast+
qed

lemma createSession_ok:
  fixes w :: "('r, 'x) world" and X :: "('r, 'h) renewal"
  assumes "rn_redis X = R" "kinds_ok (view (w_redis w))" "healthy t (view (w_redis w)) uid"
    and "i \<notin> ids_at t (view (w_redis w)) uid" "1 \<le> maxConcurrentSessions (kcx_env (rn_kc X))"
    and "\<forall>j \<in> ids_at t (view (w_redis w)) uid. lastActivityAt (the (session_at t (view (w_redis w)) j)) < t"
    and "sealSessionTokens (rn_gcm X) (kcx_env (rn_kc X)) (rn_iv X) (newSession (kcx_env (rn_kc X)) t i uid) tokens = Inr sealedText"
  defines "n \<equiv> newSession (kcx_env (rn_kc X)) t i uid"
    and "w' \<equiv> snd (createSession X t i uid tokens w)"
  shows "fst (createSession X t i uid tokens w) = Inr n \<and>
    int (card (ids_at t (view (w_redis w')) uid)) \<le> maxConcurrentSessions (kcx_env (rn_kc X)) \<and>
    session_at t (view (w_redis w')) i = Some n \<and> tokens_at t (view (w_redis w')) i = Some sealedText"
proof -
  let ?E = "kcx_env (rn_kc X)"
  have n: "sessionId n = i" "userId n = uid" "lastActivityAt n = t" by (simp_all add: n_def newSession_def)
  note c0 = getUserSessionCount_ok [OF assms(2), of t uid]
  let ?w0 = "w\<lparr>w_redis := snd (getUserSessionCount R t uid (w_redis w))\<rparr>"
  have v0: "view (w_redis ?w0) = view (w_redis w)" using c0(2) by simp
  define c where "c = int (card (ids_at t (view (w_redis w)) uid))"
  define w1 where "w1 = (if maxConcurrentSessions ?E \<le> c then snd (evictOldestSession R ?E t uid ?w0) else ?w0)"
  have k0: "kinds_ok (view (w_redis ?w0))" "healthy t (view (w_redis ?w0)) uid" using assms(2,3) v0 by simp_all
  note e = evictOldestSession_ok [OF k0(1), where E = ?E and t = t and uid = uid]
  note h = evict_keeps_healthy [OF k0, where E = ?E]
  have k1: "kinds_ok (view (w_redis w1))" "healthy t (view (w_redis w1)) uid"
    "ids_at t (view (w_redis w1)) uid \<subseteq> ids_at t (view (w_redis w)) uid"
    "\<forall>j \<in> ids_at t (view (w_redis w1)) uid. session_at t (view (w_redis w1)) j = session_at t (view (w_redis w)) j"
    using e(2) h k0 v0 by (simp_all add: w1_def)
  let ?s2 = "snd (cacheSession R t n (w_redis w1))"
  note c2 = cacheSession_ok [OF k1(1), of t n]
  let ?s3 = "snd (cacheSessionTokens R t n sealedText ?s2)"
  note c3 = cacheSessionTokens_ok [OF c2(2), of t n sealedText]
  note c4 = getUserSessionCount_ok [OF c3(2), of t uid]
  let ?w4 = "w1\<lparr>w_redis := snd (getUserSessionCount R t uid ?s3)\<rparr>"
  have v4: "view (w_redis ?w4) = view ?s3" using c4(2) by simp
  have ids4: "ids_at t (view (w_redis ?w4)) uid = insert i (ids_at t (view (w_redis w1)) uid)"
    unfolding v4 c3(5) c2(4) n by simp
  have ses4: "session_at t (view (w_redis ?w4)) j = (if j = i then Some n else session_at t (view (w_redis w1)) j)" for j
    unfolding v4 c3(4) c2(3) n ..
  have tok4: "tokens_at t (view (w_redis ?w4)) i = Some sealedText" unfolding v4 c3(3) n by simp
  let ?cnt = "int (card (ids_at t (view (snd (getUserSessionCount R t uid ?s3))) uid))"
  have trim: "fst (trimSessions R ?E t uid (nat ?cnt) ?cnt ?w4) = Inr () \<and>
    int (card (ids_at t (view (w_redis (snd (trimSessions R ?E t uid (nat ?cnt) ?cnt ?w4)))) uid)) \<le> maxConcurrentSessions ?E \<and>
    session_at t (view (w_redis (snd (trimSessions R ?E t uid (nat ?cnt) ?cnt ?w4)))) i = Some n \<and>
    tokens_at t (view (w_redis (snd (trimSessions R ?E t uid (nat ?cnt) ?cnt ?w4)))) i = tokens_at t (view (w_redis ?w4)) i"
  proof (rule trimSessions_ok)
    show "kinds_ok (view (w_redis ?w4))" using c3(2) v4 by simp
    show "healthy t (view (w_redis ?w4)) uid"
      using k1(2) unfolding healthy_def ids4 ses4 by (auto simp: n)
    show "\<forall>j \<in> ids_at t (view (w_redis ?w4)) uid - {i}.
        lastActivityAt (the (session_at t (view (w_redis ?w4)) j)) < lastActivityAt n"
    proof
      fix j assume j: "j \<in> ids_at t (view (w_redis ?w4)) uid - {i}"
      then have "j \<in> ids_at t (view (w_redis w1)) uid" unfolding ids4 by blast
      with k1(3,4) assms(6) show "lastActivityAt (the (session_at t (view (w_redis ?w4)) j)) < lastActivityAt n"
        using j unfolding ses4 n by auto
    qed
  qed (use assms(5) ses4 ids4 in auto)
  then obtain u where u: "trimSessions R ?E t uid (nat ?cnt) ?cnt ?w4 = (Inr (), u)" by (metis prod.collapse)
  have 1: "inRedis (getUserSessionCount R t uid) w = (Inr c, ?w0)"
    using c0(1) by (simp add: inRedis_run c_def)
  have 2: "whenM (maxConcurrentSessions ?E \<le> c) (evictOldestSession R ?E t uid) ?w0 = (Inr (), w1)"
    using e(1) by (simp add: whenM_run w1_def prod_eq_iff)
  have 3: "inRedis (cacheSession R t n) w1 = (Inr (), w1\<lparr>w_redis := ?s2\<rparr>)"
    using c2(1) by (simp add: inRedis_run)
  have 4: "inRedis (cacheSessionTokens R t n sealedText) (w1\<lparr>w_redis := ?s2\<rparr>) = (Inr (), w1\<lparr>w_redis := ?s3\<rparr>)"
    using c3(1) by (simp add: inRedis_run)
  have 5: "inRedis (getUserSessionCount R t uid) (w1\<lparr>w_redis := ?s3\<rparr>) = (Inr ?cnt, ?w4)"
    using c4 by (simp add: inRedis_run)
  have "createSession X t i uid tokens w = (Inr n, u)"
    unfolding createSession_def Let_def assms(1) n_def [symmetric]
    by (simp add: 1 2 3 4 5 u [unfolded nat_int] assms(7) [folded n_def])
  with trim tok4 show ?thesis unfolding w'_def u by simp
qed

end

context redis_up
begin

lemma readLiveSessionWithTokens_ok:
  assumes "kinds_ok (view s)"
  shows "fst (readLiveSessionWithTokens R E t sid s) = Inr (case session_at t (view s) sid of None \<Rightarrow> Inl Missing
       | Some x \<Rightarrow> if expiresAt x < t then Inl (Absolute (userId x))
           else if sessionIdleTimeoutMs E < t - lastActivityAt x then Inl (Idle (userId x))
           else Inr (x, tokens_at t (view s) sid))"
    and "kinds_ok (view (snd (readLiveSessionWithTokens R E t sid s)))"
proof -
  have g: "fst (getSessionWithTokens R t sid s) = Inr (session_at t (view s) sid, tokens_at t (view s) sid)"
    by (simp add: getSessionWithTokens_def io_simps mget_result parseSession_result session_at_def tokens_at_def split: option.split)
  have k: "kinds_ok (view (snd (getSessionWithTokens R t sid s)))"
    using assms parseSession_view [of "snd (r_mget R t (sessionKey sid) (sessionTokensKey sid) s)"]
    by (simp add: getSessionWithTokens_def io_simps mget_result mget_view parseSession_result)
  note d = deleteSession_ok [OF k, of t sid]
  show "fst (readLiveSessionWithTokens R E t sid s) = Inr (case session_at t (view s) sid of None \<Rightarrow> Inl Missing
       | Some x \<Rightarrow> if expiresAt x < t then Inl (Absolute (userId x))
           else if sessionIdleTimeoutMs E < t - lastActivityAt x then Inl (Idle (userId x))
           else Inr (x, tokens_at t (view s) sid))"
    using g d by (auto simp: readLiveSessionWithTokens_def expiryOf_def io_simps split: option.split)
  show "kinds_ok (view (snd (readLiveSessionWithTokens R E t sid s)))"
    using g d k by (auto simp: readLiveSessionWithTokens_def expiryOf_def io_simps split: option.split)
qed

end

section \<open>Properties\<close>





text \<open>Sliding the idle window rewrites a record that still exists and nothing else: a session
  deleted by a concurrent logout stays deleted, and tokens and the user's index never change.\<close>
theorem touch_never_resurrects:
  assumes "redis_up R view order" "kinds_ok (view s)"
  shows "fst (touchSession R t x s) = Inr () \<and>
    (session_at t (view s) (sessionId x) = None \<longrightarrow> text_at t (view s) (sessionKey (sessionId x)) = None \<longrightarrow>
       session_at t (view (snd (touchSession R t x s))) (sessionId x) = None) \<and>
    (session_at t (view s) (sessionId x) \<noteq> None \<longrightarrow>
       session_at t (view (snd (touchSession R t x s))) (sessionId x) = Some (x\<lparr>lastActivityAt := t\<rparr>)) \<and>
    tokens_at t (view (snd (touchSession R t x s))) j = tokens_at t (view s) j \<and>
    ids_at t (view (snd (touchSession R t x s))) u = ids_at t (view s) u"
  using redis_up.touchSessionRecord_ok [OF assms, of t "x\<lparr>lastActivityAt := t\<rparr>"]
  by (auto simp: touchSession_def session_at_def)

theorem touch_never_resurrects_witness:
  "session_at 5 (snd (touchSession ref_redis 5 demo_session (\<lambda>_. None))) (sessionId demo_session) = None"
  using touch_never_resurrects [OF ref.redis_up_axioms, of "\<lambda>_. None" 5 demo_session]
  by (simp add: session_at_def)

end
