(* ===== verification/Rate_Limiter.thy ===== *)
theory Rate_Limiter
  imports Lock_Service World Env
begin

text \<open>
  \<open>bff-server/rate-limiter.ts\<close>, \<open>bff-server/agent-rate-limiter.ts\<close> and
  \<open>bff-server/agent-thread-owner.ts\<close>: the fixed-window limits of the endpoints, the client address
  they are keyed on, the cost ceiling of the assistant, and the binding of a conversation to the
  first user who uses it.
\<close>

section \<open>Endpoint limits\<close>

record rate_rule =
  endpoint :: string
  limit :: int
  windowSeconds :: int
  retryAfterSeconds :: int

definition rule_of :: "string \<Rightarrow> int \<Rightarrow> int \<Rightarrow> int \<Rightarrow> rate_rule" where
  "rule_of ep l w r = \<lparr>endpoint = ep, limit = l, windowSeconds = w, retryAfterSeconds = r\<rparr>"

definition RATE_LIMITS :: "string \<rightharpoonup> rate_rule" where
  "RATE_LIMITS = map_of
    [(''register'', rule_of ''register'' 10 86400 86400),
     (''registerIp'', rule_of ''register-ip'' 20 86400 86400),
     (''login'', rule_of ''login'' 5 60 60),
     (''logout'', rule_of ''logout'' 10 60 60),
     (''refresh'', rule_of ''refresh'' 2 30 30),
     (''resendVerification'', rule_of ''resend-verification'' 3 3600 3600),
     (''accountDeletion'', rule_of ''account-deletion'' 5 3600 3600)]"

definition rule :: "string \<Rightarrow> rate_rule" where
  "rule name = the (RATE_LIMITS name)"

definition enforceIpLimit :: "'r redis \<Rightarrow> int \<Rightarrow> rate_rule \<Rightarrow> string option \<Rightarrow> ('r, 'x, unit) act" where
  "enforceIpLimit R now ru ident = (case ident of
     None \<Rightarrow> returnM ()
   | Some i \<Rightarrow> bindM (inRedis (incrementRateLimit R now (endpoint ru) i (windowSeconds ru))) (\<lambda>count.
       if limit ru < count then throwM (RateLimitError (retryAfterSeconds ru)) else returnM ()))"

definition checkRegisterRateLimit :: "'r redis \<Rightarrow> int \<Rightarrow> string \<Rightarrow> ('r, 'x, unit) act" where
  "checkRegisterRateLimit R now email = (let ru = rule ''register'' in
     bindM (inRedis (incrementRateLimit R now (endpoint ru) (js_to_lower email) (windowSeconds ru))) (\<lambda>count.
       if limit ru < count then throwM (RateLimitError (retryAfterSeconds ru)) else returnM ()))"

definition checkRegisterIpRateLimit :: "'r redis \<Rightarrow> int \<Rightarrow> string option \<Rightarrow> ('r, 'x, unit) act" where
  "checkRegisterIpRateLimit R now ip = enforceIpLimit R now (rule ''registerIp'') ip"

definition checkLogoutRateLimit :: "'r redis \<Rightarrow> int \<Rightarrow> string option \<Rightarrow> ('r, 'x, unit) act" where
  "checkLogoutRateLimit R now ip = enforceIpLimit R now (rule ''logout'') ip"

definition checkLoginRateLimit :: "'r redis \<Rightarrow> int \<Rightarrow> string option \<Rightarrow> ('r, 'x, unit) act" where
  "checkLoginRateLimit R now ip = enforceIpLimit R now (rule ''login'') ip"

definition checkRefreshRateLimit :: "'r redis \<Rightarrow> int \<Rightarrow> string \<Rightarrow> ('r, 'x, unit) act" where
  "checkRefreshRateLimit R now sid = (let ru = rule ''refresh'' in
     bindM (inRedis (incrementRateLimit R now (endpoint ru) sid (windowSeconds ru))) (\<lambda>count.
     let fs = [(''attemptsInWindow'', show_int count), (''limit'', show_int (limit ru))] in
     thenM (auditM ''refresh_attempted'' fs)
       (if limit ru < count
        then thenM (auditM ''refresh_rate_limited'' fs) (throwM (RateLimitError (retryAfterSeconds ru)))
        else returnM ())))"

definition checkResendVerificationRateLimit :: "'r redis \<Rightarrow> int \<Rightarrow> string \<Rightarrow> ('r, 'x, unit) act" where
  "checkResendVerificationRateLimit R now email = (let ru = rule ''resendVerification'' in
     bindM (inRedis (incrementRateLimit R now (endpoint ru) (js_to_lower email) (windowSeconds ru))) (\<lambda>count.
       if limit ru < count then throwM (RateLimitError (retryAfterSeconds ru)) else returnM ()))"

definition checkAccountDeletionRateLimit :: "'r redis \<Rightarrow> int \<Rightarrow> string option \<Rightarrow> ('r, 'x, unit) act" where
  "checkAccountDeletionRateLimit R now ip = enforceIpLimit R now (rule ''accountDeletion'') ip"

text \<open>A header is one text or a list of texts (a repeated header).\<close>

datatype header_value = HText string | HList "string list"

definition extractClientIp :: "(string \<Rightarrow> header_value option) \<Rightarrow> bool \<Rightarrow> string option" where
  "extractClientIp headers trust =
     (if \<not> trust then None
      else (case headers ''x-forwarded-for'' of
         None \<Rightarrow> None
       | Some fwd \<Rightarrow>
          if fwd = HText [] then None
          else (let raw = (case fwd of HText t \<Rightarrow> t | HList ts \<Rightarrow> if ts = [] then [] else last ts);
                    hops = filter (\<lambda>h. h \<noteq> []) (map js_trim (js_split (CHR '','') raw))
                in if hops \<noteq> [] then Some (last hops) else None)))"

section \<open>The assistant\<close>

definition REQUEST_ENDPOINT :: string where "REQUEST_ENDPOINT = ''agent-run''"

definition usd_to_micros :: "rat \<Rightarrow> int" where
  "usd_to_micros usd = \<lfloor>usd * 1000000 + 1 / 2\<rfloor>"

definition NON_BILLABLE_AGENT_OPS :: "string list" where
  "NON_BILLABLE_AGENT_OPS = [''availableAgents'', ''loadAgentState'', ''hello'']"

definition isBillableAgentRun :: "string \<Rightarrow> bool" where
  "isBillableAgentRun body = (case json_parse body of
     None \<Rightarrow> True
   | Some j \<Rightarrow> (case json_member j ''operationName'' of
       JStr op \<Rightarrow> op \<notin> set NON_BILLABLE_AGENT_OPS | _ \<Rightarrow> True))"

definition costWindowSeconds :: "env \<Rightarrow> int" where
  "costWindowSeconds E = max 1 (ceil_div (sessionAbsoluteTimeoutMs E) 1000)"

definition checkAgentRequestRateLimit :: "'r redis \<Rightarrow> env \<Rightarrow> int \<Rightarrow> string \<Rightarrow> ('r, 'x, unit) act" where
  "checkAgentRequestRateLimit R E now uid =
    (let w = max 1 (ceil_div (agentRateLimitWindowMs E) 1000) in
     bindM (inRedis (incrementRateLimit R now REQUEST_ENDPOINT uid w)) (\<lambda>count.
       if agentRateLimitRequests E < count
       then thenM (auditM ''agent_rate_limit_exceeded'' [(''userId'', uid), (''requestCount'', show_int count)])
                  (throwM (RateLimitError w))
       else returnM ()))"

definition ceilingMicros :: "env \<Rightarrow> rat option \<Rightarrow> int" where
  "ceilingMicros E override = usd_to_micros (case override of
     Some c \<Rightarrow> if 0 < c then c else agentSessionCostCeilingUsd E
   | None \<Rightarrow> agentSessionCostCeilingUsd E)"

definition enforceAgentCostCeiling ::
    "'r redis \<Rightarrow> env \<Rightarrow> int \<Rightarrow> string \<Rightarrow> rat option \<Rightarrow> ('r, 'x, unit) act" where
  "enforceAgentCostCeiling R E now uid override =
     bindM (inRedis (getAgentCostMicros R now uid)) (\<lambda>total.
       if ceilingMicros E override \<le> total
       then thenM (auditM ''agent_cost_ceiling_exceeded'' [(''userId'', uid), (''accruedMicros'', show_int total)])
                  (throwM (RateLimitError (costWindowSeconds E)))
       else returnM ())"

definition recordAgentCost :: "'r redis \<Rightarrow> env \<Rightarrow> int \<Rightarrow> string \<Rightarrow> rat \<Rightarrow> ('r, 'x, unit) act" where
  "recordAgentCost R E now uid costUsd =
     (if \<not> 0 < costUsd then returnM ()
      else thenM (inRedis (addAgentCostMicros R now uid (usd_to_micros costUsd) (costWindowSeconds E)))
                 (returnM ()))"

definition recordEstimatedTurnCost :: "'r redis \<Rightarrow> env \<Rightarrow> int \<Rightarrow> string \<Rightarrow> ('r, 'x, unit) act" where
  "recordEstimatedTurnCost R E now uid = recordAgentCost R E now uid (agentEstimatedTurnCostUsd E)"

section \<open>Conversation ownership\<close>

definition threadOwnerTtlSeconds :: "env \<Rightarrow> int" where
  "threadOwnerTtlSeconds E = max 1 (ceil_div (sessionAbsoluteTimeoutMs E) 1000)"

definition enforceAgentThreadOwnership ::
    "'r redis \<Rightarrow> env \<Rightarrow> int \<Rightarrow> string \<Rightarrow> string option \<Rightarrow> ('r, 'x, unit) act" where
  "enforceAgentThreadOwnership R E now uid th = (case th of
     None \<Rightarrow> returnM ()
   | Some threadId \<Rightarrow>
      if threadId = [] \<or> js_trim threadId = [] then returnM ()
      else bindM (inRedis (claimAgentThreadOwner R now threadId uid (threadOwnerTtlSeconds E))) (\<lambda>owner.
        if owner \<noteq> uid
        then thenM (auditM ''agent_thread_ownership_denied'' [(''userId'', uid), (''threadId'', threadId)])
               (throwM (mk_auth_error FORBIDDEN ''This conversation does not belong to you.'' 403))
        else returnM ()))"

section \<open>The window counts to its limit and no further\<close>

text \<open>One request against a limit, and a burst of \<open>n\<close> of them within the window.\<close>

fun hits :: "'r redis \<Rightarrow> int list \<Rightarrow> rate_rule \<Rightarrow> string \<Rightarrow> ('r, 'x) world \<Rightarrow> (exn + unit) list" where
  "hits R [] ru i w = []"
| "hits R (t # ts) ru i w =
     fst (enforceIpLimit R t ru (Some i) w) # hits R ts ru i (snd (enforceIpLimit R t ru (Some i) w))"

definition verdict :: "rate_rule \<Rightarrow> int \<Rightarrow> exn + unit" where
  "verdict ru n = (if limit ru < n then Inl (RateLimitError (retryAfterSeconds ru)) else Inr ())"

context redis_up
begin

lemma enforceIpLimit_ok:
  assumes "kinds_ok (view (w_redis w))" "0 < windowSeconds ru"
    and "count_at t (view (w_redis w)) (rateLimitKey (endpoint ru) i) = Some n"
  shows "fst (enforceIpLimit R t ru (Some i) w) = verdict ru (n + 1)"
    and "view (w_redis (snd (enforceIpLimit R t ru (Some i) w))) =
           view (snd (incrementRateLimit R t (endpoint ru) i (windowSeconds ru) (w_redis w)))"
  using assms by (simp_all add: enforceIpLimit_def verdict_def io_simps incrementRateLimit_ok(1))

lemma count_at_nonzero_lasts:
  assumes "count_at t v k = Some n" "n \<noteq> 0" "exp_at t v k = Some x" "t' < x"
  shows "count_at t' v k = Some n"
  using assms
  by (auto simp: count_at_def exp_at_def text_at_def live_def split: option.splits if_splits rval.splits)

lemma hits_in_window:
  assumes "kinds_ok (view (w_redis w))" "0 < windowSeconds ru"
    and "n \<noteq> 0" "view (w_redis w) (rateLimitKey (endpoint ru) i) =
          Some \<lparr>e_val = RText (show_int n), e_exp = Some x\<rparr>"
    and "\<forall>t \<in> set ts. t < x" "0 < n"
  shows "hits R ts ru i w = map (\<lambda>j. verdict ru (n + 1 + int j)) [0..<length ts]"
  using assms
proof (induction ts arbitrary: n w)
  case Nil
  then show ?case by simp
next
  case (Cons t ts)
  let ?k = "rateLimitKey (endpoint ru) i"
  let ?w = "snd (enforceIpLimit R t ru (Some i) w)"
  have c: "count_at t (view (w_redis w)) ?k = Some n" "exp_at t (view (w_redis w)) ?k = Some x"
    using Cons.prems by (simp_all add: count_at_def text_at_def live_def exp_at_def)
  note s = enforceIpLimit_ok [OF Cons.prems(1,2) c(1)]
  note g = incrementRateLimit_ok [OF Cons.prems(1) c(1) Cons.prems(2)]
  have "kinds_ok (view (w_redis ?w))" using g(2) s(2) by simp
  moreover have "view (w_redis ?w) ?k = Some \<lparr>e_val = RText (show_int (n + 1)), e_exp = Some x\<rparr>"
    using s(2) g(3) c(2) Cons.prems(3) by (simp add: put_text_def)
  ultimately have "hits R ts ru i ?w = map (\<lambda>j. verdict ru (n + 1 + 1 + int j)) [0..<length ts]"
    using Cons.IH [of ?w "n + 1"] Cons.prems by auto
  moreover have "map (\<lambda>j. verdict ru (n + 1 + int j)) [0..<Suc (length ts)] =
      verdict ru (n + 1) # map (\<lambda>j. verdict ru (n + 1 + 1 + int j)) [0..<length ts]"
    by (subst upt_conv_Cons) (simp_all add: map_Suc_upt [symmetric] algebra_simps del: upt_Suc)
  ultimately show ?case using s(1) by simp
qed

end

section \<open>Properties\<close>

text \<open>C15: Within one window, the first \<open>limit\<close> requests of a client pass and every later one
  is refused with the rule's retry hint, whatever the order and number of the requests. The window
  starts at the first request, when nothing is counted for the client.\<close>

theorem fixed_window_limit:
  assumes "redis_up R view order" "kinds_ok (view (w_redis w))" "0 < windowSeconds ru"
    and "live t0 (view (w_redis w)) (rateLimitKey (endpoint ru) i) = None"
    and "\<forall>t \<in> set ts. t < t0 + windowSeconds ru * 1000" "j \<le> length ts"
  shows "hits R (t0 # ts) ru i w ! j =
    (if int j < limit ru then Inr () else Inl (RateLimitError (retryAfterSeconds ru)))"
proof -
  let ?w = "snd (enforceIpLimit R t0 ru (Some i) w)"
  have c: "count_at t0 (view (w_redis w)) (rateLimitKey (endpoint ru) i) = Some 0"
    using assms(4) by (simp add: count_at_def text_at_def)
  note s = redis_up.enforceIpLimit_ok [OF assms(1,2,3) c]
  note g = redis_up.incrementRateLimit_ok [OF assms(1,2) c assms(3)]
  have "kinds_ok (view (w_redis ?w))" using g(2) s(2) by simp
  moreover have "view (w_redis ?w) (rateLimitKey (endpoint ru) i) =
      Some \<lparr>e_val = RText (show_int 1), e_exp = Some (t0 + windowSeconds ru * 1000)\<rparr>"
    using s(2) g(3) by (simp add: put_text_def)
  ultimately have "hits R ts ru i ?w = map (\<lambda>j. verdict ru (2 + int j)) [0..<length ts]"
    using redis_up.hits_in_window [OF assms(1), of ?w ru 1 i] assms(3,5) by simp
  then show ?thesis using s(1) assms(6) by (cases j) (auto simp: verdict_def)
qed

definition login_rule_demo :: rate_rule where
  "login_rule_demo = rule_of ''login'' 1 60 60"

theorem fixed_window_limit_witness:
  "hits ref_redis [0, 5] login_rule_demo ''10.0.0.9'' \<lparr>w_redis = (\<lambda>_. None), w_audits = [], w_ext = ()\<rparr> ! 1
     = Inl (RateLimitError 60)"
  using fixed_window_limit [OF ref.redis_up_axioms, of "\<lparr>w_redis = (\<lambda>_. None), w_audits = [], w_ext = ()\<rparr>"
      login_rule_demo 0 "''10.0.0.9''" "[5]" 1]
  by (simp add: login_rule_demo_def rule_of_def kinds_ok_def live_def)

text \<open>When the counter cannot be incremented because the store fails, the request is
  refused with 503 instead of being let through; a request without a trusted identity is not limited.\<close>
theorem limit_fails_closed:
  assumes "fst (r_incr R t (rateLimitKey (endpoint ru) i) (w_redis w)) = Inl e"
  shows "fst (enforceIpLimit R t ru (Some i) w) = Inl cacheUnavailable \<and>
         auth_status cacheUnavailable = Some 503 \<and> enforceIpLimit R t ru None w = (Inr (), w)"
  using assms incrementRateLimit_fails_closed [OF assms]
  by (simp add: enforceIpLimit_def io_simps cacheUnavailable_def)

definition broken_redis :: "kv redis" where
  "broken_redis = ref_redis\<lparr>r_incr := (\<lambda>t k s. (Inl (JsError ''ECONNREFUSED''), s))\<rparr>"

theorem limit_fails_closed_witness:
  "fst (enforceIpLimit broken_redis 0 login_rule_demo (Some ''a'')
      \<lparr>w_redis = (\<lambda>_. None), w_audits = [], w_ext = ()\<rparr>) = Inl cacheUnavailable"
  using limit_fails_closed [of broken_redis 0 login_rule_demo "''a''"
      "\<lparr>w_redis = (\<lambda>_. None), w_audits = [], w_ext = ()\<rparr>" "JsError ''ECONNREFUSED''"]
  by (simp add: broken_redis_def)

text \<open>The client address comes from the last hop of the forwarding header, the one the
  trusted proxy appended, whatever a client put before it; without a trusted proxy the header is ignored.\<close>
theorem client_ip_rightmost:
  assumes "CHR '','' \<notin> set peer" "js_trim peer \<noteq> []"
  shows "extractClientIp (headers(''x-forwarded-for'' \<mapsto> HText (forged @ '','' @ peer))) trust =
    (if trust then Some (js_trim peer) else None)"
  using assms js_split_append [of "CHR '',''" forged peer]
  by (simp add: extractClientIp_def js_split_no_sep)

theorem client_ip_rightmost_witness:
  "extractClientIp ((\<lambda>_. None)(''x-forwarded-for'' \<mapsto> HText (''6.6.6.6'' @ '','' @ '' 10.0.0.9''))) True
     = Some ''10.0.0.9''"
  using client_ip_rightmost [of "'' 10.0.0.9''" "\<lambda>_. None" "''6.6.6.6''" True]
  by (simp add: js_trim_def js_trim_start_def js_trim_end_def is_js_space_def)

text \<open>A conversation belongs to the first user who uses it: while the claim lasts, that user's
  later requests pass and any other user's are refused with 403.\<close>
theorem thread_first_owner:
  assumes "redis_up R view order" "kinds_ok (view (w_redis w))"
    and "text_at t (view (w_redis w)) (agentThreadOwnerKey th) = None" "js_trim th \<noteq> []" "th \<noteq> []"
    and "t' < t + threadOwnerTtlSeconds E * 1000"
    and w': "w' = snd (enforceAgentThreadOwnership R E t u (Some th) w)"
  shows "fst (enforceAgentThreadOwnership R E t u (Some th) w) = Inr () \<and>
    fst (enforceAgentThreadOwnership R E t' u' (Some th) w') =
      (if u' = u then Inr () else Inl (mk_auth_error FORBIDDEN ''This conversation does not belong to you.'' 403))"
proof -
  have ttl: "max 1 (threadOwnerTtlSeconds E) = threadOwnerTtlSeconds E"
    by (simp add: threadOwnerTtlSeconds_def)
  note c = redis_up.claimAgentThreadOwner_ok [OF assms(1)]
  show ?thesis
    using assms(2-6) c(2) [OF assms(2)]
    by (simp add: w' enforceAgentThreadOwnership_def io_simps c ttl)
qed

theorem thread_first_owner_witness:
  "fst (enforceAgentThreadOwnership ref_redis default_env 5 ''bob'' (Some ''t1'')
     (snd (enforceAgentThreadOwnership ref_redis default_env 0 ''alice'' (Some ''t1'')
        \<lparr>w_redis = (\<lambda>_. None), w_audits = [], w_ext = ()\<rparr>)))
     = Inl (mk_auth_error FORBIDDEN ''This conversation does not belong to you.'' 403)"
  using thread_first_owner [OF ref.redis_up_axioms, of "\<lparr>w_redis = (\<lambda>_. None), w_audits = [], w_ext = ()\<rparr>"
      0 "''t1''" 5 default_env _ "''alice''" "''bob''"]
  by (simp add: kinds_ok_def text_at_def live_def threadOwnerTtlSeconds_def ceil_div_def
      js_trim_def js_trim_start_def js_trim_end_def is_js_space_def)

text \<open>C21: The spend of a user is refused from the moment the accrued cost reaches the ceiling, with
  nothing changed in the store, and a turn that is let through adds exactly its cost to the total.\<close>

theorem cost_ceiling:
  assumes "redis_up R view order" "kinds_ok (view (w_redis w))"
    and "count_at t (view (w_redis w)) (agentCostKey u) = Some n" "0 < c"
  shows "(fst (enforceAgentCostCeiling R E t u ov w) =
           (if ceilingMicros E ov \<le> n then Inl (RateLimitError (costWindowSeconds E)) else Inr ())) \<and>
         view (w_redis (snd (enforceAgentCostCeiling R E t u ov w))) = view (w_redis w) \<and>
         count_at t (view (w_redis (snd (recordAgentCost R E t u c w)))) (agentCostKey u) =
           Some (n + usd_to_micros c)"
proof -
  have g: "fst (getAgentCostMicros R t u (w_redis w)) = Inr n"
    using assms(2,3) redis_up.get_result [OF assms(1), of t "w_redis w" "agentCostKey u"]
    by (auto simp: getAgentCostMicros_def io_simps count_at_def split: option.splits)
  have v: "view (snd (getAgentCostMicros R t u (w_redis w))) = view (w_redis w)"
    using assms(2) redis_up.get_result [OF assms(1), of t "w_redis w" "agentCostKey u"]
      redis_up.get_view [OF assms(1), of t "agentCostKey u" "w_redis w"]
    by (auto simp: getAgentCostMicros_def io_simps split: option.splits)
  show ?thesis
    using redis_up.addAgentCostMicros_ok [OF assms(1-3), of "costWindowSeconds E" "usd_to_micros c"] g v assms(4)
    by (simp add: enforceAgentCostCeiling_def recordAgentCost_def io_simps costWindowSeconds_def)
qed

lemma cent_in_micros: "usd_to_micros (1 / 100) = 10000"
  unfolding usd_to_micros_def by (rule floor_unique) simp_all

theorem cost_ceiling_witness:
  "count_at 0 (w_redis (snd (recordAgentCost ref_redis default_env 0 ''u'' (1 / 100)
      \<lparr>w_redis = (\<lambda>_. None), w_audits = [], w_ext = ()\<rparr>))) (agentCostKey ''u'') = Some 10000"
  using cost_ceiling [OF ref.redis_up_axioms, of "\<lparr>w_redis = (\<lambda>_. None), w_audits = [], w_ext = ()\<rparr>" 0 "''u''" 0
      "1 / 100" default_env None]
    cent_in_micros
  by (simp add: kinds_ok_def count_at_def text_at_def live_def)

end
