(* ===== verification/Js_Date.thy ===== *)
theory Js_Date
  imports Mcm_Prelude
begin

text \<open>
  The part of the JavaScript \<open>Date\<close> object the server uses: \<open>Date.UTC\<close>, the civil fields of an
  instant and \<open>toISOString\<close>, with time values in milliseconds since the epoch. The year of a day
  number follows the equations of the language standard (DayFromYear). The main results are that
  the civil fields determine the instant, and that ISO strings of four-digit years are ordered as
  text exactly as their instants are ordered in time, which the job store, the retention code and
  the version lister all rely on.
\<close>

named_theorems date_defs \<open>definitions of the calendar\<close>

section \<open>Days and years\<close>

definition ms_per_day :: int where
  "ms_per_day = 86400000"

definition day_from_year :: "int \<Rightarrow> int" where
  "day_from_year y = 365 * (y - 1970) + (y - 1969) div 4 - (y - 1901) div 100 + (y - 1601) div 400"

definition leap_year :: "int \<Rightarrow> bool" where
  "leap_year y \<longleftrightarrow> (y mod 4 = 0 \<and> y mod 100 \<noteq> 0) \<or> y mod 400 = 0"

definition year_from_day :: "int \<Rightarrow> int" where
  "year_from_day d = (let y = 1970 + (400 * d) div 146097 in
     if d < day_from_year y then y - 1
     else if day_from_year (y + 1) \<le> d then y + 1 else y)"

lemma div_step_int:
  fixes x k :: int
  assumes "0 < k"
  shows "(x + 1) div k = x div k + (if (x + 1) mod k = 0 then 1 else 0)"
proof (cases "(x + 1) mod k = 0")
  case True
  have "x = (x + 1) div k * k - 1" using True by (metis add_0_right add_diff_cancel_right' div_mult_mod_eq)
  then have "x = k * ((x + 1) div k - 1) + (k - 1)" by (simp add: algebra_simps)
  then have "x div k = (x + 1) div k - 1"
    using assms by (intro int_div_pos_eq [where r = "k - 1"]) simp_all
  with True show ?thesis by simp
next
  case False
  have "0 < (x + 1) mod k" using False assms by (simp add: order_less_le)
  then have "x = k * ((x + 1) div k) + ((x + 1) mod k - 1)" "0 \<le> (x + 1) mod k - 1" "(x + 1) mod k - 1 < k"
    using assms pos_mod_bound [of k "x + 1"] mult_div_mod_eq [of k "x + 1"] by linarith+
  then have "x div k = (x + 1) div k" by (rule int_div_pos_eq)
  with False show ?thesis by simp
qed

lemma div_lower_int: "0 < m \<Longrightarrow> x - (m - 1) \<le> m * (x div m)" for x m :: int
  using mult_div_mod_eq [of m x] pos_mod_bound [of m x] by linarith

lemma div_upper_int: "0 < m \<Longrightarrow> m * (x div m) \<le> x" for x m :: int
  using mult_div_mod_eq [of m x] pos_mod_sign [of m x] by linarith

lemma div_less_int: "0 < m \<Longrightarrow> x < q * m \<Longrightarrow> x div m < q" for x m q :: int
  using div_upper_int [of m x]
  by (metis linorder_not_less mult.commute mult_left_mono order_less_imp_le order_le_less_trans
      order_less_irrefl order_less_le_trans)

lemma le_div_int: "0 < m \<Longrightarrow> q * m \<le> x \<Longrightarrow> q \<le> x div m" for x m q :: int
  using zdiv_mono1 [of "q * m" x m] by simp

lemma day_from_year_Suc:
  "day_from_year (y + 1) = day_from_year y + (if leap_year y then 366 else 365)"
proof -
  have m: "(y - 1968) mod 4 = y mod 4" "(y - 1900) mod 100 = y mod 100" "(y - 1600) mod 400 = y mod 400"
    using mod_mult_self1 [of y "-492" 4] mod_mult_self1 [of y "-19" 100] mod_mult_self1 [of y "-4" 400]
    by simp_all
  have e: "y - 1969 + 1 = y - 1968" "y - 1901 + 1 = y - 1900" "y - 1601 + 1 = y - 1600" by simp_all
  note q4 = div_step_int [of 4 "y - 1969", unfolded e m, OF zero_less_numeral]
  note q100 = div_step_int [of 100 "y - 1901", unfolded e m, OF zero_less_numeral]
  note q400 = div_step_int [of 400 "y - 1601", unfolded e m, OF zero_less_numeral]
  have dvd: "y mod 400 = 0 \<Longrightarrow> y mod 100 = 0" "y mod 100 = 0 \<Longrightarrow> y mod 4 = 0"
    using dvd_trans [of 100 400 y] dvd_trans [of 4 100 y] by (simp_all add: dvd_eq_mod_eq_0)
  show ?thesis
    unfolding day_from_year_def leap_year_def diff_add_eq [symmetric]
    using dvd by (simp add: q4 q100 q400)
qed

lemma day_from_year_mono: "y \<le> z \<Longrightarrow> day_from_year y \<le> day_from_year z"
proof (induction z rule: int_ge_induct)
  case base
  then show ?case by simp
next
  case (step z)
  then show ?case by (simp add: day_from_year_Suc)
qed

lemma day_from_year_at:
  "day_from_year (1970 + k) = 365 * k + (k + 1) div 4 - (k + 69) div 100 + (k + 369) div 400"
proof -
  have "1970 + k - 1970 = k" "1970 + k - 1969 = k + 1" "1970 + k - 1901 = k + 69" "1970 + k - 1601 = k + 369"
    by simp_all
  then show ?thesis unfolding day_from_year_def by (simp only:)
qed

lemma four_century_upper:
  fixes a b c k :: int
  assumes "4 * a \<le> k + 1" "k + 69 - (100 - 1) \<le> 100 * b" "400 * c \<le> k + 369"
  shows "400 * (365 * k + a - b + c) \<le> 146097 * k + 589"
  using assms by (simp add: algebra_simps)

lemma four_century_lower:
  fixes a b c k :: int
  assumes "k + 1 - (4 - 1) \<le> 4 * a" "100 * b \<le> k + 69" "k + 369 - (400 - 1) \<le> 400 * c"
  shows "146097 * k - 506 \<le> 400 * (365 * k + a - b + c)"
  using assms by (simp add: algebra_simps)

lemma day_from_year_upper: "400 * day_from_year (1970 + k) \<le> 146097 * k + 589"
  unfolding day_from_year_at
  by (rule four_century_upper) (rule div_upper_int div_lower_int, rule zero_less_numeral)+

lemma day_from_year_lower: "146097 * k - 506 \<le> 400 * day_from_year (1970 + k)"
  unfolding day_from_year_at
  by (rule four_century_lower) (rule div_upper_int div_lower_int, rule zero_less_numeral)+

lemma year_from_day_bounds:
  "day_from_year (year_from_day d) \<le> d \<and> d < day_from_year (year_from_day d + 1)"
proof -
  define k where "k = (400 * d) div 146097"
  have k1: "146097 * k \<le> 400 * d" unfolding k_def by (rule div_upper_int) simp
  have k2: "400 * d < 146097 * (k + 1)"
    using div_lower_int [of 146097 "400 * d"] unfolding k_def by simp
  have lo: "day_from_year (1970 + k - 1) \<le> d"
    using day_from_year_upper [of "k - 1"] k1 by (simp add: algebra_simps)
  have hi: "d < day_from_year (1970 + k + 2)"
    using day_from_year_lower [of "k + 2"] k2 by (simp add: algebra_simps)
  have y: "year_from_day d = (if d < day_from_year (1970 + k) then 1970 + k - 1
      else if day_from_year (1970 + k + 1) \<le> d then 1970 + k + 1 else 1970 + k)"
    unfolding year_from_day_def k_def Let_def by simp
  show ?thesis using lo hi unfolding y by (auto simp: algebra_simps)
qed

lemma year_from_day_unique:
  assumes "day_from_year y \<le> d" "d < day_from_year (y + 1)"
  shows "year_from_day d = y"
proof (rule antisym)
  show "year_from_day d \<le> y"
  proof (rule ccontr)
    assume "\<not> year_from_day d \<le> y"
    then have "day_from_year (y + 1) \<le> day_from_year (year_from_day d)"
      by (intro day_from_year_mono) simp
    with assms year_from_day_bounds [of d] show False by linarith
  qed
  show "y \<le> year_from_day d"
  proof (rule ccontr)
    assume "\<not> y \<le> year_from_day d"
    then have "day_from_year (year_from_day d + 1) \<le> day_from_year y"
      by (intro day_from_year_mono) simp
    with assms year_from_day_bounds [of d] show False by linarith
  qed
qed

lemma year_from_day_mono: "d \<le> e \<Longrightarrow> year_from_day d \<le> year_from_day e"
proof (rule ccontr)
  assume "d \<le> e" "\<not> year_from_day d \<le> year_from_day e"
  then have "day_from_year (year_from_day e + 1) \<le> day_from_year (year_from_day d)"
    by (intro day_from_year_mono) simp
  with \<open>d \<le> e\<close> year_from_day_bounds [of d] year_from_day_bounds [of e] show False by linarith
qed

section \<open>Months\<close>

definition days_before_month :: "bool \<Rightarrow> int \<Rightarrow> int" where
  "days_before_month leap m = (let l = (if leap then 1 else 0) in
     if m \<le> 1 then 0 else if m = 2 then 31 else if m = 3 then 59 + l else if m = 4 then 90 + l
     else if m = 5 then 120 + l else if m = 6 then 151 + l else if m = 7 then 181 + l
     else if m = 8 then 212 + l else if m = 9 then 243 + l else if m = 10 then 273 + l
     else if m = 11 then 304 + l else if m = 12 then 334 + l else 365 + l)"

definition month_of_yday :: "bool \<Rightarrow> int \<Rightarrow> int" where
  "month_of_yday leap n = (let l = (if leap then 1 else 0) in
     if n < 31 then 1 else if n < 59 + l then 2 else if n < 90 + l then 3 else if n < 120 + l then 4
     else if n < 151 + l then 5 else if n < 181 + l then 6 else if n < 212 + l then 7
     else if n < 243 + l then 8 else if n < 273 + l then 9 else if n < 304 + l then 10
     else if n < 334 + l then 11 else 12)"

definition days_in_month :: "int \<Rightarrow> int \<Rightarrow> int" where
  "days_in_month y m = days_before_month (leap_year y) (m + 1) - days_before_month (leap_year y) m"

lemma month_cases:
  assumes "1 \<le> m" "m \<le> (12 :: int)"
  shows "m = 1 \<or> m = 2 \<or> m = 3 \<or> m = 4 \<or> m = 5 \<or> m = 6 \<or> m = 7 \<or> m = 8 \<or> m = 9 \<or> m = 10 \<or>
    m = 11 \<or> m = 12"
  using assms by presburger

lemma month_of_yday_range: "1 \<le> month_of_yday leap n \<and> month_of_yday leap n \<le> 12"
  by (simp add: month_of_yday_def Let_def)

lemma month_of_yday_before: "0 \<le> n \<Longrightarrow> days_before_month leap (month_of_yday leap n) \<le> n"
  by (simp add: month_of_yday_def days_before_month_def Let_def)

lemma month_of_yday_after:
  "n < (if leap then 366 else 365) \<Longrightarrow> n < days_before_month leap (month_of_yday leap n + 1)"
  by (cases leap) (simp_all add: month_of_yday_def days_before_month_def Let_def)

lemma month_of_yday_unique:
  assumes "1 \<le> m" "m \<le> 12" "1 \<le> d" "d \<le> days_before_month leap (m + 1) - days_before_month leap m"
  shows "month_of_yday leap (days_before_month leap m + d - 1) = m"
  using month_cases [OF assms(1,2)] assms(3,4)
  by (cases leap; elim disjE) (simp_all add: month_of_yday_def days_before_month_def)

lemma month_of_yday_mono: "a \<le> b \<Longrightarrow> month_of_yday leap a \<le> month_of_yday leap b"
  by (cases leap) (simp_all add: month_of_yday_def Let_def)

lemma days_in_month_range:
  assumes "1 \<le> m" "m \<le> 12"
  shows "28 \<le> days_in_month y m \<and> days_in_month y m \<le> 31"
  using month_cases [OF assms]
  by (cases "leap_year y"; elim disjE) (simp_all add: days_in_month_def days_before_month_def)

section \<open>Civil dates\<close>

record civil =
  c_year :: int
  c_month :: int
  c_day :: int

definition civil_of_day :: "int \<Rightarrow> civil" where
  "civil_of_day d = (let y = year_from_day d; n = d - day_from_year y; m = month_of_yday (leap_year y) n
     in \<lparr>c_year = y, c_month = m, c_day = n - days_before_month (leap_year y) m + 1\<rparr>)"

definition day_of_civil :: "int \<Rightarrow> int \<Rightarrow> int \<Rightarrow> int" where
  "day_of_civil y m d = day_from_year y + days_before_month (leap_year y) m + d - 1"

definition valid_civil :: "int \<Rightarrow> int \<Rightarrow> int \<Rightarrow> bool" where
  "valid_civil y m d \<longleftrightarrow> 1 \<le> m \<and> m \<le> 12 \<and> 1 \<le> d \<and> d \<le> days_in_month y m"

lemma civil_of_day_valid:
  "valid_civil (c_year (civil_of_day d)) (c_month (civil_of_day d)) (c_day (civil_of_day d))"
proof -
  define y where "y = year_from_day d"
  define n where "n = d - day_from_year y"
  have n: "0 \<le> n" "n < (if leap_year y then 366 else 365)"
    using year_from_day_bounds [of d] unfolding n_def y_def day_from_year_Suc
    by (auto split: if_splits)
  show ?thesis
    using month_of_yday_range [of "leap_year y" n] month_of_yday_before [OF n(1), of "leap_year y"]
      month_of_yday_after [OF n(2)]
    unfolding valid_civil_def civil_of_day_def Let_def days_in_month_def y_def [symmetric]
      n_def [symmetric]
    by simp
qed

lemma day_of_civil_of_day [simp]:
  "day_of_civil (c_year (civil_of_day d)) (c_month (civil_of_day d)) (c_day (civil_of_day d)) = d"
  by (simp add: day_of_civil_def civil_of_day_def Let_def)

lemma civil_of_day_of_civil:
  assumes "valid_civil y m d"
  shows "civil_of_day (day_of_civil y m d) = \<lparr>c_year = y, c_month = m, c_day = d\<rparr>"
proof -
  let ?b = "days_before_month (leap_year y) m"
  have m: "1 \<le> m" "m \<le> 12" and d: "1 \<le> d" "d \<le> days_in_month y m"
    using assms by (auto simp: valid_civil_def)
  have mo: "month_of_yday (leap_year y) (?b + d - 1) = m"
    using m d by (intro month_of_yday_unique) (auto simp: days_in_month_def)
  have nonneg: "0 \<le> ?b" by (simp add: days_before_month_def Let_def)
  have top: "days_before_month (leap_year y) (m + 1) \<le> (if leap_year y then 366 else 365)"
    by (simp add: days_before_month_def Let_def)
  have "year_from_day (day_of_civil y m d) = y"
  proof (rule year_from_day_unique)
    show "day_from_year y \<le> day_of_civil y m d" using nonneg d(1) by (simp add: day_of_civil_def)
    show "day_of_civil y m d < day_from_year (y + 1)"
      using d(2) top by (simp add: day_of_civil_def day_from_year_Suc days_in_month_def split: if_splits)
  qed
  moreover have "day_of_civil y m d - day_from_year y = ?b + d - 1"
    by (simp add: day_of_civil_def)
  ultimately show ?thesis by (simp add: civil_of_day_def Let_def mo)
qed

section \<open>Instants\<close>

record wall =
  w_date :: civil
  w_hour :: int
  w_minute :: int
  w_second :: int
  w_milli :: int

definition wall_of_ms :: "int \<Rightarrow> wall" where
  "wall_of_ms t = (let r = t mod ms_per_day in
     \<lparr>w_date = civil_of_day (t div ms_per_day), w_hour = r div 3600000,
      w_minute = r mod 3600000 div 60000, w_second = r mod 60000 div 1000, w_milli = r mod 1000\<rparr>)"

text \<open>
  \<open>Date.UTC(year, month - 1, day, hour, minute, 0, 0)\<close> for a month in 1 to 12. A year from 0 to
  99 means 1900 plus that year, as the standard prescribes.
\<close>

definition date_utc :: "int \<Rightarrow> int \<Rightarrow> int \<Rightarrow> int \<Rightarrow> int \<Rightarrow> int" where
  "date_utc y m d h mi =
     day_of_civil (if 0 \<le> y \<and> y \<le> 99 then 1900 + y else y) m d * ms_per_day + h * 3600000 + mi * 60000"

lemma wall_of_ms_range:
  "0 \<le> w_hour (wall_of_ms t) \<and> w_hour (wall_of_ms t) \<le> 23 \<and>
   0 \<le> w_minute (wall_of_ms t) \<and> w_minute (wall_of_ms t) \<le> 59 \<and>
   0 \<le> w_second (wall_of_ms t) \<and> w_second (wall_of_ms t) \<le> 59 \<and>
   0 \<le> w_milli (wall_of_ms t) \<and> w_milli (wall_of_ms t) \<le> 999"
proof -
  have le: "x div m \<le> q - 1" if "0 < m" "x < q * m" for x m q :: int
    using div_less_int [OF that] by simp
  have h: "t mod 86400000 div 3600000 \<le> 24 - 1" by (rule le) simp_all
  have mi: "t mod 86400000 mod 3600000 div 60000 \<le> 60 - 1" by (rule le) simp_all
  have se: "t mod 86400000 mod 60000 div 1000 \<le> 60 - 1" by (rule le) simp_all
  have ml: "t mod 86400000 mod 1000 \<le> 999" using pos_mod_bound [of 1000 "t mod 86400000"] by simp
  have nn: "0 \<le> t mod 86400000 div 3600000" "0 \<le> t mod 86400000 mod 3600000 div 60000"
    "0 \<le> t mod 86400000 mod 60000 div 1000" "0 \<le> t mod 86400000 mod 1000"
    by (simp_all add: pos_imp_zdiv_nonneg_iff)
  have "24 - 1 = (23::int)" "60 - 1 = (59::int)" by simp_all
  then show ?thesis unfolding wall_of_ms_def Let_def ms_per_day_def wall.select_convs
    using h mi se ml nn by metis
qed

lemma wall_of_date_utc:
  assumes v: "valid_civil y m d" and y: "99 < y"
    and h: "0 \<le> h" "h \<le> 23" and mi: "0 \<le> mi" "mi \<le> 59"
  shows "wall_of_ms (date_utc y m d h mi) =
    \<lparr>w_date = \<lparr>c_year = y, c_month = m, c_day = d\<rparr>, w_hour = h, w_minute = mi, w_second = 0, w_milli = 0\<rparr>"
proof -
  let ?r = "h * 3600000 + mi * 60000" and ?D = "day_of_civil y m d"
  have r: "0 \<le> ?r" "?r < ms_per_day" using h mi by (simp_all add: ms_per_day_def)
  have t: "date_utc y m d h mi = ?r + ?D * ms_per_day" using y by (simp add: date_utc_def)
  have dv: "date_utc y m d h mi div ms_per_day = ?D" unfolding t using r by simp
  have md: "date_utc y m d h mi mod ms_per_day = ?r" unfolding t using r by simp
  have m1: "mi * 60000 < 3600000" "0 \<le> mi * 60000" using mi by simp_all
  have "?r = mi * 60000 + h * 3600000" by simp
  then have a: "?r div 3600000 = h" "?r mod 3600000 = mi * 60000"
    using m1 by (simp_all add: div_pos_pos_trivial)
  have "?r = (60 * h + mi) * 60000" "?r = (60 * (60 * h + mi)) * 1000" by (simp_all add: algebra_simps)
  then have a2: "?r mod 60000 = 0" "?r mod 1000 = 0" by (metis mod_mult_self2_is_0)+
  show ?thesis
    unfolding wall_of_ms_def Let_def dv md a a2 civil_of_day_of_civil [OF v] by simp
qed

section \<open>ISO strings\<close>

fun pad_dec :: "nat \<Rightarrow> nat \<Rightarrow> string" where
  "pad_dec 0 n = []"
| "pad_dec (Suc w) n = digit_char (n div 10 ^ w) # pad_dec w (n mod 10 ^ w)"

text \<open>\<open>toISOString\<close> for a year from 0 to 9999 (outside, the standard writes six signed digits).\<close>

definition to_iso :: "int \<Rightarrow> string" where
  "to_iso t = (let w = wall_of_ms t; c = w_date w in
     pad_dec 4 (nat (c_year c)) @ ''-'' @ pad_dec 2 (nat (c_month c)) @ ''-'' @
     pad_dec 2 (nat (c_day c)) @ ''T'' @ pad_dec 2 (nat (w_hour w)) @ '':'' @
     pad_dec 2 (nat (w_minute w)) @ '':'' @ pad_dec 2 (nat (w_second w)) @ ''.'' @
     pad_dec 3 (nat (w_milli w)) @ ''Z'')"

definition iso_range :: "int \<Rightarrow> bool" where
  "iso_range t \<longleftrightarrow> 0 \<le> c_year (w_date (wall_of_ms t)) \<and> c_year (w_date (wall_of_ms t)) \<le> 9999"

lemma length_pad_dec [simp]: "length (pad_dec w n) = w"
  by (induction w arbitrary: n) auto

lemma digit_char_less: "a < 10 \<Longrightarrow> b < 10 \<Longrightarrow> digit_char a < digit_char b \<longleftrightarrow> a < b"
  by (simp add: less_char_def)

lemma digit_char_eq: "a < 10 \<Longrightarrow> b < 10 \<Longrightarrow> digit_char a = digit_char b \<longleftrightarrow> a = b"
  by (metis digit_val_digit_char mod_less)

lemma pad_dec_less:
  "m < n \<Longrightarrow> n < 10 ^ w \<Longrightarrow> pad_dec w m < pad_dec w n"
proof (induction w arbitrary: m n)
  case 0
  then show ?case by simp
next
  case (Suc w)
  let ?p = "(10::nat) ^ w"
  have q: "n div ?p < 10" "m div ?p < 10" using Suc.prems by (simp_all add: less_mult_imp_div_less)
  show ?case
  proof (cases "m div ?p = n div ?p")
    case True
    then have "m mod ?p < n mod ?p"
      using Suc.prems(1) by (metis div_mult_mod_eq nat_add_left_cancel_less)
    then have "pad_dec w (m mod ?p) < pad_dec w (n mod ?p)" by (intro Suc.IH) simp_all
    with True show ?thesis by simp
  next
    case False
    then have "m div ?p < n div ?p"
      using Suc.prems(1) by (simp add: div_le_mono order_less_le)
    then show ?thesis using q by (simp add: digit_char_less)
  qed
qed

lemma append_less_first:
  "length a = length b \<Longrightarrow> a < b \<Longrightarrow> a @ c < b @ (d :: string)"
  by (induction a b rule: list_induct2) auto

lemma append_less_second: "c < d \<Longrightarrow> a @ c < a @ (d :: string)"
  by (induction a) auto

lemma div_mod_less_cases:
  fixes x y k :: int
  assumes "x < y" "0 < k"
  shows "x div k < y div k \<or> (x div k = y div k \<and> x mod k < y mod k)"
proof (cases "x div k = y div k")
  case True
  have "x = x div k * k + x mod k" "y = y div k * k + y mod k" by simp_all
  with True assms(1) show ?thesis by (metis add_less_cancel_left)
next
  case False
  with assms show ?thesis using zdiv_mono1 [of x y k] by linarith
qed

text \<open>The civil fields of two days compare lexicographically.\<close>

lemma civil_of_day_less:
  assumes "d < e"
  shows "c_year (civil_of_day d) < c_year (civil_of_day e) \<or>
    (c_year (civil_of_day d) = c_year (civil_of_day e) \<and>
      (c_month (civil_of_day d) < c_month (civil_of_day e) \<or>
        (c_month (civil_of_day d) = c_month (civil_of_day e) \<and>
          c_day (civil_of_day d) < c_day (civil_of_day e))))"
proof -
  have y: "year_from_day d \<le> year_from_day e" using assms by (intro year_from_day_mono) simp
  show ?thesis
  proof (cases "year_from_day d = year_from_day e")
    case True
    let ?y = "year_from_day e"
    have "month_of_yday (leap_year ?y) (d - day_from_year ?y) \<le>
        month_of_yday (leap_year ?y) (e - day_from_year ?y)"
      using assms by (intro month_of_yday_mono) simp
    then show ?thesis using assms True by (auto simp: civil_of_day_def Let_def)
  next
    case False
    with y show ?thesis by (simp add: civil_of_day_def Let_def)
  qed
qed

lemma pad_int_less:
  "0 \<le> a \<Longrightarrow> a < b \<Longrightarrow> b < 10 ^ w \<Longrightarrow> pad_dec w (nat a) < pad_dec w (nat b)"
  by (rule pad_dec_less) (auto simp: nat_less_iff)

lemma to_iso_strict_mono:
  assumes less: "a < b" and ra: "iso_range a" and rb: "iso_range b"
  shows "to_iso a < to_iso b"
proof -
  let ?A = "wall_of_ms a" and ?B = "wall_of_ms b"
  let ?x = "a mod ms_per_day" and ?z = "b mod ms_per_day"
  have R: "0 \<le> w_hour ?A" "w_hour ?B < 10 ^ 2" "0 \<le> w_minute ?A" "w_minute ?B < 10 ^ 2"
    "0 \<le> w_second ?A" "w_second ?B < 10 ^ 2" "0 \<le> w_milli ?A" "w_milli ?B < 10 ^ 3"
    using wall_of_ms_range [of a] wall_of_ms_range [of b] by simp_all
  have V: "0 \<le> c_month (w_date ?A)" "c_month (w_date ?B) < 10 ^ 2" "0 \<le> c_day (w_date ?A)"
    "c_day (w_date ?B) < 10 ^ 2"
    using civil_of_day_valid [of "a div ms_per_day"] civil_of_day_valid [of "b div ms_per_day"]
      days_in_month_range [of "c_month (w_date ?B)" "c_year (w_date ?B)"]
    by (auto simp: valid_civil_def wall_of_ms_def Let_def)
  have Y: "0 \<le> c_year (w_date ?A)" "c_year (w_date ?B) < 10 ^ 4"
    using ra rb by (simp_all add: iso_range_def)
  have pos: "(0::int) < ms_per_day" by (simp add: ms_per_day_def)
  have time: "?x < ?z \<Longrightarrow> a div ms_per_day = b div ms_per_day \<Longrightarrow> to_iso a < to_iso b"
  proof -
    assume xz: "?x < ?z" and same: "a div ms_per_day = b div ms_per_day"
    have date: "w_date ?A = w_date ?B" using same by (simp add: wall_of_ms_def Let_def)
    have fields: "w_hour ?A = ?x div 3600000" "w_hour ?B = ?z div 3600000"
      "w_minute ?A = ?x mod 3600000 div 60000" "w_minute ?B = ?z mod 3600000 div 60000"
      "w_second ?A = ?x mod 3600000 mod 60000 div 1000" "w_second ?B = ?z mod 3600000 mod 60000 div 1000"
      "w_milli ?A = ?x mod 3600000 mod 60000 mod 1000" "w_milli ?B = ?z mod 3600000 mod 60000 mod 1000"
      by (simp_all add: wall_of_ms_def Let_def mod_mod_cancel)
    have h: "w_hour ?A < w_hour ?B \<or> (w_hour ?A = w_hour ?B \<and> ?x mod 3600000 < ?z mod 3600000)"
      unfolding fields using div_mod_less_cases [OF xz, of 3600000] by simp
    have mi: "?x mod 3600000 < ?z mod 3600000 \<Longrightarrow> w_minute ?A < w_minute ?B \<or>
        (w_minute ?A = w_minute ?B \<and> ?x mod 3600000 mod 60000 < ?z mod 3600000 mod 60000)"
      unfolding fields by (erule div_mod_less_cases) simp
    have se: "?x mod 3600000 mod 60000 < ?z mod 3600000 mod 60000 \<Longrightarrow> w_second ?A < w_second ?B \<or>
        (w_second ?A = w_second ?B \<and> w_milli ?A < w_milli ?B)"
      unfolding fields by (erule div_mod_less_cases) simp
    from h mi se
    consider "w_hour ?A < w_hour ?B"
      | "w_hour ?A = w_hour ?B" "w_minute ?A < w_minute ?B"
      | "w_hour ?A = w_hour ?B" "w_minute ?A = w_minute ?B" "w_second ?A < w_second ?B"
      | "w_hour ?A = w_hour ?B" "w_minute ?A = w_minute ?B" "w_second ?A = w_second ?B"
        "w_milli ?A < w_milli ?B"
      by blast
    then show "to_iso a < to_iso b"
      unfolding to_iso_def Let_def date
      by cases (use R in \<open>simp_all only: append_assoc append_less_first append_less_second
          pad_int_less length_pad_dec\<close>; auto intro!: append_less_second append_less_first pad_int_less)+
  qed
  show ?thesis
  proof (cases "a div ms_per_day = b div ms_per_day")
    case True
    with div_mod_less_cases [OF less pos] have "?x < ?z" by simp
    then show ?thesis using True by (rule time)
  next
    case False
    with div_mod_less_cases [OF less pos] have "a div ms_per_day < b div ms_per_day" by simp
    from civil_of_day_less [OF this]
    consider "c_year (w_date ?A) < c_year (w_date ?B)"
      | "c_year (w_date ?A) = c_year (w_date ?B)" "c_month (w_date ?A) < c_month (w_date ?B)"
      | "c_year (w_date ?A) = c_year (w_date ?B)" "c_month (w_date ?A) = c_month (w_date ?B)"
        "c_day (w_date ?A) < c_day (w_date ?B)"
      by (auto simp: wall_of_ms_def Let_def)
    then show ?thesis
      unfolding to_iso_def Let_def
      by cases (use Y V in \<open>auto intro!: append_less_second append_less_first pad_int_less\<close>)+
  qed
qed

lemma to_iso_less_iff:
  assumes "iso_range a" "iso_range b"
  shows "to_iso a < to_iso b \<longleftrightarrow> a < b"
  using to_iso_strict_mono [OF _ assms] to_iso_strict_mono [OF _ assms(2) assms(1)]
  by (metis less_asym' linorder_neqE_linordered_idom order_less_irrefl)

lemma to_iso_le_iff:
  assumes "iso_range a" "iso_range b"
  shows "to_iso a \<le> to_iso b \<longleftrightarrow> a \<le> b"
  using to_iso_less_iff [OF assms(2) assms(1)] by (simp add: linorder_not_less [symmetric])

lemma to_iso_inject:
  assumes "iso_range a" "iso_range b"
  shows "to_iso a = to_iso b \<longleftrightarrow> a = b"
  using to_iso_strict_mono [OF _ assms] to_iso_strict_mono [OF _ assms(2) assms(1)]
  by (metis linorder_neqE_linordered_idom order_less_irrefl)

lemma iso_range_of_bounds:
  assumes "day_from_year 0 * ms_per_day \<le> t" "t < day_from_year 10000 * ms_per_day"
  shows "iso_range t"
proof -
  have pos: "(0::int) < ms_per_day" by (simp add: ms_per_day_def)
  have d: "day_from_year 0 \<le> t div ms_per_day" "t div ms_per_day < day_from_year 10000"
    using assms pos by (simp_all add: div_less_int le_div_int)
  have "year_from_day (day_from_year 0) = 0" "year_from_day (day_from_year 10000 - 1) = 9999"
    by (simp_all add: year_from_day_def day_from_year_def)
  with d year_from_day_mono [of "day_from_year 0" "t div ms_per_day"]
    year_from_day_mono [of "t div ms_per_day" "day_from_year 10000 - 1"]
  show ?thesis by (simp add: iso_range_def wall_of_ms_def Let_def civil_of_day_def)
qed

lemmas iso_order = to_iso_less_iff to_iso_le_iff to_iso_inject

end
