(* ===== verification/Auth.thy ===== *)
theory Auth
  imports Session_Manager Rate_Limiter Js_Date
begin

text \<open>
  \<open>bff-server/auth.ts\<close>: the authenticator every protected route calls. The only credential is the
  session cookie; the member's tokens stay on the server. \<open>requireAuth\<close> composes the session manager,
  the sealed tokens with their renewal, and the validation of the access token.
\<close>

definition SESSION_ID_COOKIE :: string where "SESSION_ID_COOKIE = ''mcm_session_id''"
definition RETIRED_ACCESS_TOKEN_COOKIE :: string where "RETIRED_ACCESS_TOKEN_COOKIE = ''mcm_access_token''"
definition RETIRED_REFRESH_TOKEN_COOKIE :: string where "RETIRED_REFRESH_TOKEN_COOKIE = ''mcm_refresh_token''"
definition RETIRED_REFRESH_TOKEN_PATH :: string where "RETIRED_REFRESH_TOKEN_PATH = ''/bff-api/auth/refresh''"

section \<open>Cookies\<close>

definition add_cookie :: "(string \<Rightarrow> string option) \<Rightarrow> string \<Rightarrow> (string \<Rightarrow> string option)" where
  "add_cookie acc pair = (case js_split (CHR ''='') (js_trim pair) of
     [] \<Rightarrow> acc
   | key # rest \<Rightarrow> if key \<noteq> [] then acc(js_trim key \<mapsto> js_trim (js_join ''='' rest)) else acc)"

definition parseCookies :: "string \<Rightarrow> (string \<Rightarrow> string option)" where
  "parseCookies cookieStr = foldl add_cookie (\<lambda>_. None) (js_split (CHR '';'') cookieStr)"

definition extractSessionId :: "(string \<Rightarrow> header_value option) \<Rightarrow> string option" where
  "extractSessionId headers =
    (let cookieStr = (case headers ''cookie'' of
          None \<Rightarrow> [] | Some (HText t) \<Rightarrow> t | Some (HList ts) \<Rightarrow> (case ts of [] \<Rightarrow> [] | t # _ \<Rightarrow> t))
     in if cookieStr = [] then None else parseCookies cookieStr SESSION_ID_COOKIE)"

definition secure_attr :: "env \<Rightarrow> string" where
  "secure_attr E = (if \<not> isDevelopment E then ''; Secure'' else [])"

definition buildAuthCookies :: "env \<Rightarrow> string \<Rightarrow> string list" where
  "buildAuthCookies E sid = [SESSION_ID_COOKIE @ ''='' @ sid @ ''; HttpOnly; SameSite=Strict'' @ secure_attr E
     @ ''; Path=/; Max-Age='' @ show_int (sessionAbsoluteTimeoutMs E div 1000)]"

definition buildClearAuthCookies :: "env \<Rightarrow> string list" where
  "buildClearAuthCookies E =
    [SESSION_ID_COOKIE @ ''=; HttpOnly; SameSite=Strict'' @ secure_attr E @ ''; Path=/; Max-Age=0'',
     RETIRED_ACCESS_TOKEN_COOKIE @ ''=; HttpOnly; SameSite=Strict'' @ secure_attr E @ ''; Path=/; Max-Age=0'',
     RETIRED_REFRESH_TOKEN_COOKIE @ ''=; HttpOnly; SameSite=Strict'' @ secure_attr E @ ''; Path=''
       @ RETIRED_REFRESH_TOKEN_PATH @ ''; Max-Age=0'']"

section \<open>The profile of a caller\<close>

record user_profile =
  up_id :: string
  up_username :: string
  up_email :: string
  up_firstName :: string
  up_lastName :: string
  up_roles :: "string list"
  up_emailVerified :: json
  up_accountStatus :: string
  up_createdAt :: string

text \<open>A missing or fractional \<open>iat\<close> makes an invalid date, whose \<open>toISOString\<close> throws.\<close>

definition buildUserProfileFromPayload :: "env \<Rightarrow> json \<Rightarrow> exn + user_profile" where
  "buildUserProfileFromPayload E payload = (let m = (\<lambda>k. json_string (json_member payload k)) in
     case optional_int (json_member payload ''iat'') of
       None \<Rightarrow> Inl (JsError ''RangeError: Invalid time value'')
     | Some iat \<Rightarrow> Inr \<lparr>up_id = m ''sub'', up_username = m ''preferred_username'', up_email = m ''email'',
         up_firstName = m ''given_name'', up_lastName = m ''family_name'',
         up_roles = extractRoles payload (keycloakClientId E),
         up_emailVerified = json_member payload ''email_verified'', up_accountStatus = ''active'',
         up_createdAt = to_iso (iat * 1000)\<rparr>)"

section \<open>The authenticator\<close>

record caller =
  ca_payload :: json
  ca_user :: user_profile
  ca_accessToken :: string
  ca_session :: session

definition sessionEnded :: "env \<Rightarrow> auth_code \<Rightarrow> string \<Rightarrow> exn" where
  "sessionEnded E code msg = AuthError \<lparr>ae_code = code, ae_message = msg, ae_status = 401,
     ae_clear_cookies = Some (buildClearAuthCookies E), ae_retry_after = None\<rparr>"

definition notFound :: "env \<Rightarrow> exn" where
  "notFound E = sessionEnded E SESSION_NOT_FOUND ''Your session could not be found. Please log in again.''"

definition expiredError :: "env \<Rightarrow> expired_session \<Rightarrow> exn" where
  "expiredError E x = (case x of
     Missing \<Rightarrow> notFound E
   | Absolute u \<Rightarrow> sessionEnded E SESSION_ABSOLUTE_TIMEOUT ''Your session has ended for security purposes. Please log in again.''
   | Idle u \<Rightarrow> sessionEnded E SESSION_IDLE_TIMEOUT ''Your session has ended due to inactivity. Please log in again.'')"

definition auditExpired :: "expired_session \<Rightarrow> ('r, 'x, unit) act" where
  "auditExpired x = (case x of
     Missing \<Rightarrow> returnM ()
   | Absolute u \<Rightarrow> auditM ''session_expired'' [(''userId'', u), (''reason'', ''absolute'')]
   | Idle u \<Rightarrow> auditM ''session_expired'' [(''userId'', u), (''reason'', ''idle'')])"

definition openStored :: "('r, 'h) renewal \<Rightarrow> session \<Rightarrow> string option \<Rightarrow> exn + sessionTokens" where
  "openStored X s tokensRaw = (case tokensRaw of
     None \<Rightarrow> Inl (JsError ''session holds no tokens'')
   | Some raw \<Rightarrow> if raw = [] then Inl (JsError ''session holds no tokens'')
       else openSessionTokens (rn_gcm X) (kcx_env (rn_kc X)) s raw)"

definition withClearedCookies :: "env \<Rightarrow> exn \<Rightarrow> exn" where
  "withClearedCookies E err = (case auth_error_of err of
     Some a \<Rightarrow> if ae_status a = 401
       then AuthError \<lparr>ae_code = ae_code a, ae_message = ae_message a, ae_status = 401,
              ae_clear_cookies = Some (buildClearAuthCookies E), ae_retry_after = None\<rparr>
       else err
   | None \<Rightarrow> err)"

definition requireAuth ::
    "('r, 'h) renewal \<Rightarrow> (nat \<Rightarrow> ('r, 'h idp) world \<Rightarrow> ('r, 'h idp) world) \<Rightarrow> int \<Rightarrow>
     (string \<Rightarrow> header_value option) \<Rightarrow> ('r, 'h idp, caller) act" where
  "requireAuth X others now headers = (let R = rn_redis X; E = kcx_env (rn_kc X) in
     case (case extractSessionId headers of None \<Rightarrow> [] | Some i \<Rightarrow> i) of
       [] \<Rightarrow> throwM (sessionEnded E UNAUTHORIZED ''Authentication required.'')
     | c # cs \<Rightarrow>
       bindM (inRedis (readLiveSessionWithTokens R E now (c # cs))) (\<lambda>live. case live of
         Inl x \<Rightarrow> thenM (auditExpired x) (throwM (expiredError E x))
       | Inr (s, tokensRaw) \<Rightarrow>
         bindM (catchM (liftE (openStored X s tokensRaw)) (\<lambda>_.
            thenM (quietly (inRedis (terminateSession R now (sessionId s) (userId s)))) (throwM (notFound E)))) (\<lambda>t0.
         bindM (catchM (ensureFreshTokens X others now False s t0) (\<lambda>err. throwM (withClearedCookies E err))) (\<lambda>t.
         bindM (catchM (inExt (validateJwt (rn_crypto X) (rn_kc X) now (accessToken t))) (\<lambda>err.
            throwM (if auth_error_of err \<noteq> None then err else unauthorized ''Authentication required.''))) (\<lambda>vt.
         if json_member (vt_payload vt) ''sub'' \<noteq> JStr (userId s)
         then thenM (quietly (inRedis (terminateSession R now (sessionId s) (userId s))))
             (thenM (auditM ''session_refresh_owner_mismatch'' [(''userId'', userId s)])
                    (throwM (sessionEnded E SESSION_OWNER_MISMATCH ''Your session could not be renewed. Please log in again.'')))
         else thenM (inRedis (touchSession R now s))
             (bindM (liftE (buildUserProfileFromPayload E (vt_payload vt))) (\<lambda>user.
              returnM \<lparr>ca_payload = vt_payload vt, ca_user = user, ca_accessToken = accessToken t, ca_session = s\<rparr>)))))))"

section \<open>Properties\<close>

lemma catchM_Inr_iff:
  "catchM m h s = (Inr y, s'') \<longleftrightarrow> m s = (Inr y, s'') \<or> (\<exists>e s'. m s = (Inl e, s') \<and> h e s' = (Inr y, s''))"
  by (cases "m s") (auto simp: catchM_def split: sum.splits)

lemma catchM_throw_Inr:
  "catchM m (\<lambda>e. throwM (f e)) s = (Inr y, s'') \<longleftrightarrow> m s = (Inr y, s'')"
  by (cases "m s") (auto simp: catchM_def split: sum.splits)

lemma thenM_throw_not_Inr: "thenM m (throwM e) s \<noteq> (Inr y, s')"
  by (cases "m s") (auto simp: bindM_def split: sum.splits)

text \<open>The outcome of authentication depends on the request's \<open>cookie\<close> header alone: a bearer
  token or any other header changes nothing. Without a session cookie the answer is 401, the auth cookies
  are cleared, and neither the store nor the identity provider is touched.\<close>
theorem auth_cookie_only:
  assumes "headers ''cookie'' = headers' ''cookie''"
  shows "requireAuth X others now headers w = requireAuth X others now headers' w \<and>
    (headers ''cookie'' = None \<longrightarrow> requireAuth X others now headers w =
       (Inl (sessionEnded (kcx_env (rn_kc X)) UNAUTHORIZED ''Authentication required.''), w))"
  using assms by (simp add: requireAuth_def extractSessionId_def)

lemma quiet_renewal_env: "kcx_env (rn_kc quiet_renewal) = default_env"
  by (simp add: quiet_renewal_def quiet_ctx_def)

theorem auth_cookie_only_witness:
  "requireAuth quiet_renewal (\<lambda>n w. w) 0 ((\<lambda>_. None)(''authorization'' \<mapsto> HText ''Bearer stolen'')) (empty_world quiet_idp)
     = (Inl (sessionEnded default_env UNAUTHORIZED ''Authentication required.''), empty_world quiet_idp)"
  using auth_cookie_only [of "(\<lambda>_. None)(''authorization'' \<mapsto> HText ''Bearer stolen'')"
      "(\<lambda>_. None)(''authorization'' \<mapsto> HText ''Bearer stolen'')" quiet_renewal "\<lambda>n w. w" 0
      "empty_world quiet_idp"] quiet_renewal_env by simp

text \<open>C1: When a request is authenticated, its cookie named a session the store held, within
  its absolute and idle limits, and the access token the caller acts with was validated and names the owner
  of that session as its subject.\<close>

theorem auth_success_is_live_owner:
  fixes X :: "('r, 'h) renewal" and w :: "('r, 'h idp) world"
  assumes "redis_up (rn_redis X) view order" "kinds_ok (view (w_redis w))"
  shows "case fst (requireAuth X others now headers w) of Inl e \<Rightarrow> True | Inr c \<Rightarrow>
    (\<exists>sid vt u. extractSessionId headers = Some sid \<and> sid \<noteq> [] \<and>
       session_at now (view (w_redis w)) sid = Some (ca_session c) \<and>
       now \<le> expiresAt (ca_session c) \<and>
       now - lastActivityAt (ca_session c) \<le> sessionIdleTimeoutMs (kcx_env (rn_kc X)) \<and>
       fst (validateJwt (rn_crypto X) (rn_kc X) now (ca_accessToken c) u) = Inr vt \<and>
       json_member (vt_payload vt) ''sub'' = JStr (userId (ca_session c)))"
proof (cases "requireAuth X others now headers w")
  case (Pair o' w')
  show ?thesis
  proof (cases o')
    case (Inr c)
    let ?R = "rn_redis X" and ?E = "kcx_env (rn_kc X)"
    obtain sid where sid: "extractSessionId headers = Some sid" "sid \<noteq> []"
      using Pair Inr by (cases "extractSessionId headers") (auto simp: requireAuth_def Let_def split: list.splits)
    then obtain a as where aas: "sid = a # as" by (cases sid) auto
    let ?live = "inRedis (readLiveSessionWithTokens ?R ?E now sid) w"
    note r = redis_up.readLiveSessionWithTokens_ok(1) [OF assms, where t = now and sid = sid and E = ?E]
    obtain s raw w1 where l: "?live = (Inr (Inr (s, raw)), w1)"
      using Pair Inr sid r
      by (auto simp: requireAuth_def Let_def aas inRedis_run bindM_run thenM_throw_not_Inr
          split: option.splits if_splits sum.splits)
    have live: "session_at now (view (w_redis w)) sid = Some s" "now \<le> expiresAt s"
      "now - lastActivityAt s \<le> sessionIdleTimeoutMs ?E"
      using l r by (auto simp: inRedis_run split: option.splits if_splits)
    obtain t :: sessionTokens and vt :: validated_token and w3 w4 :: "('r, 'h idp) world" where v: "inExt (validateJwt (rn_crypto X) (rn_kc X) now (accessToken t)) w3 = (Inr vt, w4)"
      and sub: "json_member (vt_payload vt) ''sub'' = JStr (userId s)"
      and c: "ca_session c = s" "ca_accessToken c = accessToken t"
      using Pair Inr sid l
      by (auto simp: requireAuth_def Let_def aas bindM_Inr_iff catchM_throw_Inr thenM_throw_not_Inr split: if_splits)
    have "fst (validateJwt (rn_crypto X) (rn_kc X) now (accessToken t) (w_ext w3)) = Inr vt"
      using v by (simp add: inExt_run)
    then show ?thesis using Pair Inr sid live sub c by auto
  qed (simp add: Pair)
qed

definition demo_login :: sessionTokens where
  "demo_login = demo_tokens\<lparr>accessToken := demo_jwt ''u1''\<rparr>"

definition demo_headers :: "string \<Rightarrow> header_value option" where
  "demo_headers = (\<lambda>_. None)(''cookie'' \<mapsto> HText ''mcm_session_id=s1'')"

definition demo_store :: "string \<Rightarrow> kv" where
  "demo_store raw = snd (cacheSessionTokens ref_redis 0 demo_session raw (snd (cacheSession ref_redis 0 demo_session (\<lambda>_. None))))"

lemma demo_store_facts:
  "kinds_ok (demo_store raw)" "session_at 0 (demo_store raw) ''s1'' = Some demo_session"
  "tokens_at 0 (demo_store raw) ''s1'' = Some raw"
proof -
  note c = ref.cacheSession_ok [of "\<lambda>_. None" 0 demo_session, OF empty_store(4)]
  note d = ref.cacheSessionTokens_ok [OF c(2), of 0 demo_session raw]
  show "kinds_ok (demo_store raw)" "session_at 0 (demo_store raw) ''s1'' = Some demo_session"
    "tokens_at 0 (demo_store raw) ''s1'' = Some raw"
    using c d by (simp_all add: demo_store_def demo_session_def)
qed

lemma demo_headers_id: "extractSessionId demo_headers = Some ''s1''"
  by (simp add: extractSessionId_def demo_headers_def parseCookies_def add_cookie_def SESSION_ID_COOKIE_def js_trim_def
      js_trim_start_def js_trim_end_def is_js_space_def)

lemma json_parse_Nil: "json_parse [] = None"
  by code_simp

lemma demo_auth:
  "\<exists>raw c. fst (requireAuth (demo_renewal ''u1'') others 0 demo_headers
      \<lparr>w_redis = demo_store raw, w_audits = [], w_ext = warm_idp\<rparr>) = Inr c"
proof -
  let ?X = "demo_renewal ''u1''"
  have X: "rn_redis ?X = ref_redis" "rn_kc ?X = grant_ctx ''u1''" "rn_crypto ?X = yes_crypto" "rn_gcm ?X = ref_gcm"
    "kcx_env (grant_ctx ''u1'') = keyed_env"
    by (simp_all add: demo_renewal_def grant_ctx_def)
  obtain raw where raw: "openSessionTokens ref_gcm keyed_env demo_session raw = Inr demo_login"
    using seal_then_open [OF ref_gcm.gcm_ok_axioms _ keyed_env_key, of "''nonce-nonce-''"] by force
  have ne: "raw \<noteq> []"
  proof
    assume "raw = []"
    with raw show False by (simp add: openSessionTokens_def parseJson_def json_parse_Nil)
  qed
  let ?w = "\<lparr>w_redis = demo_store raw, w_audits = [], w_ext = warm_idp\<rparr>"
  let ?s = "snd (readLiveSessionWithTokens ref_redis keyed_env 0 ''s1'' (demo_store raw))"
  note r = ref.readLiveSessionWithTokens_ok [OF demo_store_facts(1), where t = 0 and sid = "''s1''" and E = keyed_env and raw1 = raw]
  have 1: "inRedis (readLiveSessionWithTokens ref_redis keyed_env 0 ''s1'') ?w = (Inr (Inr (demo_session, Some raw)), ?w\<lparr>w_redis := ?s\<rparr>)"
    using r(1) by (simp add: inRedis_run demo_store_facts) (simp add: demo_session_def)
  have 2: "openStored ?X demo_session (Some raw) = Inr demo_login" using raw ne by (simp add: openStored_def X)
  have 3: "ensureFreshTokens ?X others 0 False demo_session demo_login w = (Inr demo_login, w)" for w
    by (simp add: ensureFreshTokens_def demo_login_def demo_tokens_def RENEW_SKEW_MS_def)
  have 4: "validateJwt yes_crypto (grant_ctx ''u1'') 0 (accessToken demo_login) warm_idp =
      (Inr \<lparr>vt_payload = claims_for ''u1'', vt_header = JObj []\<rparr>, warm_idp)"
    using demo_validate by (simp add: demo_login_def)
  have 5: "json_member (claims_for ''u1'') ''sub'' = JStr (userId demo_session)"
    by (simp add: json_member_def claims_for_def plain_claims_def demo_session_def)
  have 6: "fst (touchSession ref_redis 0 demo_session ?s) = Inr ()"
    unfolding touchSession_def by (rule ref.touchSessionRecord_ok(1)) (rule r(2))
  have 7: "\<exists>p. buildUserProfileFromPayload keyed_env (claims_for ''u1'') = Inr p"
    by (simp add: buildUserProfileFromPayload_def claims_for_def plain_claims_def json_member_def optional_int_def Let_def)
  then obtain p where p: "buildUserProfileFromPayload keyed_env (claims_for ''u1'') = Inr p" by blast
  have "\<exists>c. fst (requireAuth ?X others 0 demo_headers ?w) = Inr c"
    using 1 2 3 4 5 6 p by (simp add: requireAuth_def Let_def demo_headers_id X catchM_run bindM_run inExt_run inRedis_run[of "touchSession ref_redis 0 demo_session"])
  then show ?thesis by blast
qed

theorem auth_success_is_live_owner_witness:
  "\<exists>raw c. fst (requireAuth (demo_renewal ''u1'') (\<lambda>n w. w) 0 demo_headers
      \<lparr>w_redis = demo_store raw, w_audits = [], w_ext = warm_idp\<rparr>) = Inr c \<and>
     session_at 0 (demo_store raw) ''s1'' = Some (ca_session c)"
proof -
  obtain raw c where c: "fst (requireAuth (demo_renewal ''u1'') (\<lambda>n w. w) 0 demo_headers
      \<lparr>w_redis = demo_store raw, w_audits = [], w_ext = warm_idp\<rparr>) = Inr c"
    using demo_auth by blast
  have "redis_up (rn_redis (demo_renewal ''u1'')) (\<lambda>s. s) ref_order" by (simp add: demo_renewal_def ref.redis_up_axioms)
  from auth_success_is_live_owner [OF this, where w = "\<lparr>w_redis = demo_store raw, w_audits = [], w_ext = warm_idp\<rparr>"
      and others = "\<lambda>n w. w" and now = 0 and headers = demo_headers] c
  show ?thesis by (auto simp: demo_store_facts demo_headers_id intro!: exI [of _ raw])
qed

end
