(* ===== verification/Backup_Schedule.thy ===== *)
theory Backup_Schedule
  imports Complex_Main Js_Date
begin

text \<open>
  \<open>bff-server/backup-schedule.ts\<close>: when a backup job runs next. Luxon is a parameter reduced to what
  it is documented to know, the offset of a zone at an instant (in minutes) and the zones that exist; a
  local time is the wall clock of the shifted instant, and a calendar step keeps the local date. The
  numbers of a schedule are rationals, because the module itself checks that they are whole.
\<close>

record luxon =
  lx_offset :: "string \<Rightarrow> int \<Rightarrow> int"
  lx_zone :: "string \<Rightarrow> bool"

record schedule =
  sc_frequency :: string
  sc_hour :: rat
  sc_minute :: rat
  sc_weekday :: "rat option"
  sc_dayOfMonth :: "rat option"
  sc_timeZone :: string

section \<open>Validation\<close>

definition FREQUENCIES :: "string list" where "FREQUENCIES = [''daily'', ''weekly'', ''monthly'']"

definition isValidTimeZone :: "luxon \<Rightarrow> string \<Rightarrow> bool" where
  "isValidTimeZone L zone = (if js_trim zone = [] then False else lx_zone L zone)"

definition assertWholeNumberInRange :: "rat \<Rightarrow> int \<Rightarrow> int \<Rightarrow> string \<Rightarrow> exn + unit" where
  "assertWholeNumberInRange value mn mx field =
    (if of_int \<lfloor>value\<rfloor> \<noteq> value \<or> value < of_int mn \<or> of_int mx < value
     then Inl (InvalidScheduleError (''The '' @ field @ '' must be a whole number between '' @ show_int mn
            @ '' and '' @ show_int mx))
     else Inr ())"

definition andThen :: "exn + unit \<Rightarrow> exn + 'a \<Rightarrow> exn + 'a" where
  "andThen r k = (case r of Inl e \<Rightarrow> Inl e | Inr u \<Rightarrow> k)"

definition assertValidSchedule :: "luxon \<Rightarrow> schedule \<Rightarrow> exn + unit" where
  "assertValidSchedule L s =
    (if sc_frequency s \<notin> set FREQUENCIES
     then Inl (InvalidScheduleError ''A backup schedule must be daily, weekly or monthly. Free-text or cron recurrence is not supported.'')
     else if \<not> isValidTimeZone L (sc_timeZone s)
     then Inl (InvalidScheduleError (''Unknown time zone: '' @ sc_timeZone s))
     else andThen (assertWholeNumberInRange (sc_hour s) 0 23 ''hour'')
         (andThen (assertWholeNumberInRange (sc_minute s) 0 59 ''minute'')
         (andThen (if sc_frequency s = ''weekly''
            then (case sc_weekday s of
                None \<Rightarrow> Inl (InvalidScheduleError ''A weekly schedule needs a day of the week'')
              | Some d \<Rightarrow> assertWholeNumberInRange d 1 7 ''day of the week'')
            else Inr ())
         (if sc_frequency s = ''monthly''
            then (case sc_dayOfMonth s of
                None \<Rightarrow> Inl (InvalidScheduleError ''A monthly schedule needs a day of the month'')
              | Some d \<Rightarrow> assertWholeNumberInRange d 1 31 ''day of the month'')
            else Inr ()))))"

section \<open>Local times\<close>

definition local_of :: "luxon \<Rightarrow> string \<Rightarrow> int \<Rightarrow> wall" where
  "local_of L zone t = wall_of_ms (t + lx_offset L zone t * 60000)"

function findTransition :: "luxon \<Rightarrow> string \<Rightarrow> int \<Rightarrow> int \<Rightarrow> int \<Rightarrow> int" where
  "findTransition L zone lo hi target =
    (if 1 < hi - lo
     then (let mid = lo + (hi - lo) div 2 in
       if lx_offset L zone mid = target then findTransition L zone lo mid target
       else findTransition L zone mid hi target)
     else hi)"
  by pat_completeness auto

termination
  by (relation "measure (\<lambda>(L, zone, lo, hi, target). nat (hi - lo))") auto

declare findTransition.simps [simp del]

definition wallMatches :: "luxon \<Rightarrow> string \<Rightarrow> int \<Rightarrow> int \<Rightarrow> int \<Rightarrow> int \<Rightarrow> int \<Rightarrow> int \<Rightarrow> bool" where
  "wallMatches L zone y m d h mi candidate = (let loc = local_of L zone candidate in
     c_year (w_date loc) = y \<and> c_month (w_date loc) = m \<and> c_day (w_date loc) = d \<and>
     w_hour loc = h \<and> w_minute loc = mi)"

definition DAY_MS :: int where "DAY_MS = 24 * 60 * 60 * 1000"

definition offsetsAround :: "luxon \<Rightarrow> string \<Rightarrow> int \<Rightarrow> int list" where
  "offsetsAround L zone naive =
    (let before = lx_offset L zone (naive - DAY_MS); after = lx_offset L zone (naive + DAY_MS)
     in if before = after then [before] else [before, after])"

definition instantForLocalTime :: "luxon \<Rightarrow> string \<Rightarrow> int \<Rightarrow> int \<Rightarrow> int \<Rightarrow> int \<Rightarrow> int \<Rightarrow> int" where
  "instantForLocalTime L zone y m d h mi =
    (let naive = date_utc y m d h mi;
         valid = filter (wallMatches L zone y m d h mi)
           (map (\<lambda>offset. naive - offset * 60 * 1000) (offsetsAround L zone naive))
     in if valid \<noteq> [] then Min (set valid)
        else findTransition L zone (naive - DAY_MS) (naive + DAY_MS) (lx_offset L zone (naive + DAY_MS)))"

section \<open>Candidate dates\<close>

definition iso_weekday :: "int \<Rightarrow> int" where "iso_weekday d = (d + 3) mod 7 + 1"

definition plus_months :: "int \<Rightarrow> int \<Rightarrow> int \<Rightarrow> int \<times> int" where
  "plus_months y m i = (y + (m - 1 + i) div 12, (m - 1 + i) mod 12 + 1)"

definition candidateLocalDates :: "schedule \<Rightarrow> int \<Rightarrow> civil list" where
  "candidateLocalDates s today =
    (if sc_frequency s = ''daily'' then map (\<lambda>i. civil_of_day (today + i)) [0, 1, 2, 3]
     else if sc_frequency s = ''weekly''
     then (let daysAhead = (\<lfloor>the (sc_weekday s)\<rfloor> - iso_weekday today + 7) mod 7
           in map (\<lambda>i. civil_of_day (today + (daysAhead + i * 7))) [0, 1, 2])
     else map (\<lambda>i. case plus_months (c_year (civil_of_day today)) (c_month (civil_of_day today)) i of
             (y, m) \<Rightarrow> \<lparr>c_year = y, c_month = m, c_day = min \<lfloor>the (sc_dayOfMonth s)\<rfloor> (days_in_month y m)\<rparr>) [0, 1, 2])"

definition candidateInstants :: "luxon \<Rightarrow> schedule \<Rightarrow> int \<Rightarrow> int list" where
  "candidateInstants L s now =
    (let zone = sc_timeZone s; today = (now + lx_offset L zone now * 60000) div ms_per_day in
     map (\<lambda>c. instantForLocalTime L zone (c_year c) (c_month c) (c_day c) \<lfloor>sc_hour s\<rfloor> \<lfloor>sc_minute s\<rfloor>)
       (candidateLocalDates s today))"

definition computeNextRun :: "luxon \<Rightarrow> schedule \<Rightarrow> int \<Rightarrow> exn + string" where
  "computeNextRun L s now = andThen (assertValidSchedule L s)
    (case List.find (\<lambda>c. now < c) (candidateInstants L s now) of
       Some c \<Rightarrow> Inr (to_iso c)
     | None \<Rightarrow> Inl (InvalidScheduleError ''No next run could be computed for that schedule''))"

section \<open>The bisection\<close>

lemma findTransition_range: "lo < hi \<Longrightarrow> lo < findTransition L zone lo hi target \<and> findTransition L zone lo hi target \<le> hi"
proof (induction L zone lo hi target rule: findTransition.induct)
  case (1 L zone lo hi target)
  let ?mid = "lo + (hi - lo) div 2"
  show ?case
  proof (cases "1 < hi - lo")
    case True
    then have "lo < ?mid" "?mid < hi" by auto
    with 1 True show ?thesis by (subst (1 2) findTransition.simps) (auto simp: Let_def)
  next
    case False
    with 1 show ?thesis by (simp add: findTransition.simps)
  qed
qed

lemma findTransition_switch:
  assumes "lo < hi" "lx_offset L zone lo \<noteq> target" "lx_offset L zone hi = target"
  shows "lx_offset L zone (findTransition L zone lo hi target) = target \<and>
         lx_offset L zone (findTransition L zone lo hi target - 1) \<noteq> target"
  using assms
proof (induction L zone lo hi target rule: findTransition.induct)
  case (1 L zone lo hi target)
  let ?mid = "lo + (hi - lo) div 2"
  show ?case
  proof (cases "1 < hi - lo")
    case True
    then have "lo < ?mid" "?mid < hi" by auto
    with 1 True show ?thesis by (subst (1 2) findTransition.simps) (auto simp: Let_def)
  next
    case False
    with 1(3) have "hi = lo + 1" by simp
    with 1 show ?thesis by (simp add: findTransition.simps)
  qed
qed

section \<open>Every schedule has a next run\<close>

definition sane_zone :: "luxon \<Rightarrow> string \<Rightarrow> bool" where
  "sane_zone L zone \<longleftrightarrow> (\<forall>t. -1080 \<le> lx_offset L zone t \<and> lx_offset L zone t \<le> 1080)"

lemma instant_after_day_before:
  assumes "sane_zone L zone"
  shows "date_utc y m d h mi - ms_per_day < instantForLocalTime L zone y m d h mi"
proof -
  let ?n = "date_utc y m d h mi"
  let ?valid = "filter (wallMatches L zone y m d h mi) (map (\<lambda>offset. ?n - offset * 60 * 1000) (offsetsAround L zone ?n))"
  have o: "x \<le> 1080" if "x \<in> set (offsetsAround L zone ?n)" for x
    using assms that by (auto simp: sane_zone_def offsetsAround_def Let_def split: if_splits)
  show ?thesis
  proof (cases "?valid = []")
    case True
    have "?n - DAY_MS < findTransition L zone (?n - DAY_MS) (?n + DAY_MS) (lx_offset L zone (?n + DAY_MS))"
      by (rule findTransition_range [THEN conjunct1]) (simp add: DAY_MS_def)
    with True show ?thesis by (simp only: instantForLocalTime_def Let_def simp_thms if_False) (simp add: DAY_MS_def ms_per_day_def)
  next
    case False
    then have "set ?valid \<noteq> {}" by (simp only: set_empty not_False_eq_True)
    then have "Min (set ?valid) \<in> set ?valid" by (rule Min_in [OF finite_set])
    then obtain x where "x \<in> set (offsetsAround L zone ?n)" "Min (set ?valid) = ?n - x * 60 * 1000" by auto
    with o [of x] have "?n - ms_per_day < Min (set ?valid)" by (simp add: ms_per_day_def)
    with False show ?thesis by (simp only: instantForLocalTime_def Let_def if_True simp_thms)
  qed
qed

lemma month_start_after:
  assumes "1 \<le> m" "m \<le> 12"
  shows "day_of_civil (fst (plus_months y m 1)) (snd (plus_months y m 1)) 1 = day_of_civil y m 1 + days_in_month y m"
proof (cases "m = 12")
  case True
  then show ?thesis
    by (simp add: plus_months_def day_of_civil_def days_in_month_def day_from_year_Suc days_before_month_def Let_def)
next
  case False
  with assms have "m < 12" by simp
  then have "m div 12 = 0" "m mod 12 = m" using assms by auto
  then show ?thesis by (simp add: plus_months_def day_of_civil_def days_in_month_def)
qed

lemma plus_months_range: "1 \<le> snd (plus_months y m i) \<and> snd (plus_months y m i) \<le> 12"
proof -
  have "(m - 1 + i) mod 12 < 12" "0 \<le> (m - 1 + i) mod 12" by simp_all
  then show ?thesis unfolding plus_months_def snd_conv by linarith
qed

lemma plus_months_Suc:
  assumes "1 \<le> m" "m \<le> 12"
  shows "plus_months (fst (plus_months y m 1)) (snd (plus_months y m 1)) 1 = plus_months y m 2"
  using month_cases [OF assms] by (elim disjE) (simp_all add: plus_months_def)

lemma day_of_civil_add: "day_of_civil y m d = day_of_civil y m 1 + (d - 1)"
  by (simp add: day_of_civil_def)

lemma civil_day_bound: "d \<le> day_of_civil (c_year (civil_of_day d)) (c_month (civil_of_day d)) 1
    + days_in_month (c_year (civil_of_day d)) (c_month (civil_of_day d)) - 1"
proof -
  let ?c = "civil_of_day d"
  have "c_day ?c \<le> days_in_month (c_year ?c) (c_month ?c)"
    using civil_of_day_valid [of d] by (simp add: valid_civil_def)
  moreover have "d = day_of_civil (c_year ?c) (c_month ?c) 1 + (c_day ?c - 1)"
    using day_of_civil_of_day [of d] day_of_civil_add [of "c_year ?c" "c_month ?c" "c_day ?c"] by simp
  ultimately show ?thesis by linarith
qed

text \<open>The third candidate of a monthly schedule lies at least 28 days after today.\<close>

lemma third_month_late:
  fixes today dom :: int
  defines "c \<equiv> civil_of_day today"
  defines "p \<equiv> plus_months (c_year c) (c_month c) 2"
  assumes "1 \<le> dom"
  shows "today + 28 < day_of_civil (fst p) (snd p) (min dom (days_in_month (fst p) (snd p)))"
proof -
  have m: "1 \<le> c_month c" "c_month c \<le> 12" using civil_of_day_valid [of today] by (auto simp: valid_civil_def c_def)
  let ?q = "plus_months (c_year c) (c_month c) 1"
  have p: "p = plus_months (fst ?q) (snd ?q) 1" unfolding p_def by (rule plus_months_Suc [OF m, symmetric])
  have q: "1 \<le> snd ?q" "snd ?q \<le> 12" using plus_months_range by auto
  have 1: "day_of_civil (fst ?q) (snd ?q) 1 = day_of_civil (c_year c) (c_month c) 1 + days_in_month (c_year c) (c_month c)"
    by (rule month_start_after [OF m])
  have 2: "day_of_civil (fst p) (snd p) 1 = day_of_civil (fst ?q) (snd ?q) 1 + days_in_month (fst ?q) (snd ?q)"
    unfolding p by (rule month_start_after [OF q])
  have 3: "28 \<le> days_in_month (fst ?q) (snd ?q)" using days_in_month_range [OF q] by blast
  have r: "1 \<le> snd p" "snd p \<le> 12" unfolding p_def using plus_months_range by auto
  have "1 \<le> min dom (days_in_month (fst p) (snd p))" using assms(3) days_in_month_range [OF r, of "fst p"] by simp
  then have "day_of_civil (fst p) (snd p) 1 \<le> day_of_civil (fst p) (snd p) (min dom (days_in_month (fst p) (snd p)))"
    using day_of_civil_add [of "fst p" "snd p" "min dom (days_in_month (fst p) (snd p))"] by linarith
  moreover have "today \<le> day_of_civil (c_year c) (c_month c) 1 + days_in_month (c_year c) (c_month c) - 1"
    using civil_day_bound [of today] by (simp only: c_def)
  ultimately show ?thesis using 1 2 3 by linarith
qed

definition usable :: "luxon \<Rightarrow> schedule \<Rightarrow> bool" where
  "usable L s \<longleftrightarrow> assertValidSchedule L s = Inr ()"

lemma whole_range: "assertWholeNumberInRange v a b f = Inr () \<Longrightarrow> a \<le> \<lfloor>v\<rfloor> \<and> \<lfloor>v\<rfloor> \<le> b"
  by (auto simp: assertWholeNumberInRange_def le_floor_iff floor_le_iff split: if_splits)

lemma andThen_Inr: "andThen r k = Inr x \<longleftrightarrow> r = Inr () \<and> k = Inr x"
  by (auto simp: andThen_def split: sum.splits)

lemma usable_ranges:
  assumes "usable L s"
  shows "0 \<le> \<lfloor>sc_hour s\<rfloor>" "\<lfloor>sc_hour s\<rfloor> \<le> 23" "0 \<le> \<lfloor>sc_minute s\<rfloor>" "\<lfloor>sc_minute s\<rfloor> \<le> 59"
    and "sc_frequency s \<noteq> ''daily'' \<Longrightarrow> sc_frequency s \<noteq> ''weekly'' \<Longrightarrow> 1 \<le> \<lfloor>the (sc_dayOfMonth s)\<rfloor>"
proof -
  have v: "assertValidSchedule L s = Inr ()" using assms by (simp add: usable_def)
  then have h: "assertWholeNumberInRange (sc_hour s) 0 23 ''hour'' = Inr ()"
    "assertWholeNumberInRange (sc_minute s) 0 59 ''minute'' = Inr ()"
    by (auto simp: assertValidSchedule_def andThen_Inr split: if_splits)
  show "0 \<le> \<lfloor>sc_hour s\<rfloor>" "\<lfloor>sc_hour s\<rfloor> \<le> 23" "0 \<le> \<lfloor>sc_minute s\<rfloor>" "\<lfloor>sc_minute s\<rfloor> \<le> 59"
    using whole_range [OF h(1)] whole_range [OF h(2)] by auto
  assume nd: "sc_frequency s \<noteq> ''daily''" "sc_frequency s \<noteq> ''weekly''"
  with v have "sc_frequency s = ''monthly''" by (auto simp: assertValidSchedule_def FREQUENCIES_def split: if_splits)
  with v obtain d where "sc_dayOfMonth s = Some d" "assertWholeNumberInRange d 1 31 ''day of the month'' = Inr ()"
    by (auto simp: assertValidSchedule_def andThen_Inr split: if_splits option.splits)
  with whole_range show "1 \<le> \<lfloor>the (sc_dayOfMonth s)\<rfloor>" by fastforce
qed

lemma day_of_today:
  assumes "sane_zone L zone" and today_def: "today = (now + lx_offset L zone now * 60000) div ms_per_day"
  shows "now < (today + 2) * ms_per_day" and "0 \<le> now \<Longrightarrow> -1 \<le> today" and "(today - 1) * ms_per_day \<le> now"
proof -
  let ?x = "now + lx_offset L zone now * 60000"
  have o: "-1080 \<le> lx_offset L zone now" "lx_offset L zone now \<le> 1080" using assms(1) by (auto simp: sane_zone_def)
  have b: "today * ms_per_day \<le> ?x" "?x < (today + 1) * ms_per_day"
    using div_upper_int [of ms_per_day ?x] div_lower_int [of ms_per_day ?x]
    by (simp_all add: today_def ms_per_day_def algebra_simps)
  show "now < (today + 2) * ms_per_day" using b(2) o by (simp add: ms_per_day_def algebra_simps)
  show "(today - 1) * ms_per_day \<le> now" using b(1) o by (simp add: ms_per_day_def algebra_simps)
  show "-1 \<le> today" if "0 \<le> now" using b(2) o that by (simp add: ms_per_day_def algebra_simps)
qed

lemma year_of_recent: "-1 \<le> d \<Longrightarrow> 1969 \<le> c_year (civil_of_day d)"
proof -
  assume "-1 \<le> d"
  then have "year_from_day (-1) \<le> year_from_day d" by (rule year_from_day_mono)
  moreover have "year_from_day (-1) = 1969" by (rule year_from_day_unique) (simp_all add: day_from_year_def)
  ultimately show ?thesis by (simp add: civil_of_day_def Let_def)
qed

lemma late_candidate:
  assumes "sane_zone L (sc_timeZone s)" "0 \<le> now" "usable L s"
    and "today = (now + lx_offset L (sc_timeZone s) now * 60000) div ms_per_day"
    and "c \<in> set (candidateLocalDates s today)" "99 < c_year c"
    and "today + 3 \<le> day_of_civil (c_year c) (c_month c) (c_day c)"
  shows "\<exists>x \<in> set (candidateInstants L s now). now < x"
proof -
  let ?x = "instantForLocalTime L (sc_timeZone s) (c_year c) (c_month c) (c_day c) \<lfloor>sc_hour s\<rfloor> \<lfloor>sc_minute s\<rfloor>"
  let ?n = "date_utc (c_year c) (c_month c) (c_day c) \<lfloor>sc_hour s\<rfloor> \<lfloor>sc_minute s\<rfloor>"
  have "(today + 3) * ms_per_day \<le> day_of_civil (c_year c) (c_month c) (c_day c) * ms_per_day"
    using assms(7) by (intro mult_right_mono) (simp_all add: ms_per_day_def)
  moreover have "0 \<le> \<lfloor>sc_hour s\<rfloor> * 3600000" "0 \<le> \<lfloor>sc_minute s\<rfloor> * 60000"
    using usable_ranges(1,3) [OF assms(3)] by (simp_all only: mult_nonneg_nonneg zero_le_numeral)
  moreover have "?n = day_of_civil (c_year c) (c_month c) (c_day c) * ms_per_day + \<lfloor>sc_hour s\<rfloor> * 3600000 + \<lfloor>sc_minute s\<rfloor> * 60000"
    using assms(6) by (simp add: date_utc_def)
  ultimately have "(today + 3) * ms_per_day \<le> ?n" by linarith
  moreover have "?n - ms_per_day < ?x" by (rule instant_after_day_before [OF assms(1)])
  moreover have "now < (today + 2) * ms_per_day" using day_of_today(1) [OF assms(1,4)] .
  ultimately have "now < ?x" by (simp add: algebra_simps)
  moreover have "?x \<in> set (candidateInstants L s now)" using assms(4,5) by (auto simp: candidateInstants_def Let_def)
  ultimately show ?thesis by blast
qed

lemma some_candidate_late:
  assumes "sane_zone L (sc_timeZone s)" "0 \<le> now" "usable L s"
  shows "\<exists>x \<in> set (candidateInstants L s now). now < x"
proof -
  define today where "today = (now + lx_offset L (sc_timeZone s) now * 60000) div ms_per_day"
  have t: "-1 \<le> today" using day_of_today(2) [OF assms(1) today_def assms(2)] .
  consider "sc_frequency s = ''daily''" | "sc_frequency s = ''weekly''" | "sc_frequency s \<noteq> ''daily''" "sc_frequency s \<noteq> ''weekly''"
    by blast
  then show ?thesis
  proof cases
    case 1
    show ?thesis
    proof (rule late_candidate [OF assms today_def, of "civil_of_day (today + 3)"])
      show "99 < c_year (civil_of_day (today + 3))" using year_of_recent [of "today + 3"] t by simp
    qed (use 1 in \<open>simp_all add: candidateLocalDates_def\<close>)
  next
    case 2
    let ?a = "(\<lfloor>the (sc_weekday s)\<rfloor> - iso_weekday today + 7) mod 7"
    have a: "0 \<le> ?a" by simp
    show ?thesis
    proof (rule late_candidate [OF assms today_def, of "civil_of_day (today + (?a + 2 * 7))"])
      show "99 < c_year (civil_of_day (today + (?a + 2 * 7)))" using year_of_recent [of "today + (?a + 2 * 7)"] t a by linarith
      show "civil_of_day (today + (?a + 2 * 7)) \<in> set (candidateLocalDates s today)"
        using 2 by (simp add: candidateLocalDates_def Let_def)
      show "today + 3 \<le> day_of_civil (c_year (civil_of_day (today + (?a + 2 * 7))))
          (c_month (civil_of_day (today + (?a + 2 * 7)))) (c_day (civil_of_day (today + (?a + 2 * 7))))"
        unfolding day_of_civil_of_day using a by linarith
    qed
  next
    case 3
    define p where "p = plus_months (c_year (civil_of_day today)) (c_month (civil_of_day today)) 2"
    define d where "d = min \<lfloor>the (sc_dayOfMonth s)\<rfloor> (days_in_month (fst p) (snd p))"
    have m: "1 \<le> c_month (civil_of_day today)" using civil_of_day_valid [of today] by (simp add: valid_civil_def)
    then have "c_year (civil_of_day today) \<le> fst p" by (simp add: p_def plus_months_def)
    then have y: "99 < fst p" using year_of_recent [OF t] by linarith
    have late: "today + 28 < day_of_civil (fst p) (snd p) d"
      unfolding d_def p_def by (rule third_month_late) (rule usable_ranges(5) [OF assms(3) 3])
    show ?thesis
    proof (rule late_candidate [OF assms today_def, of "\<lparr>c_year = fst p, c_month = snd p, c_day = d\<rparr>"])
      show "\<lparr>c_year = fst p, c_month = snd p, c_day = d\<rparr> \<in> set (candidateLocalDates s today)"
        using 3 by (simp add: candidateLocalDates_def p_def d_def split: prod.split)
    qed (use y late in simp_all)
  qed
qed

lemma computeNextRun_future:
  assumes "computeNextRun L s now = Inr run"
  shows "\<exists>c \<in> set (candidateInstants L s now). run = to_iso c \<and> now < c"
  using assms by (auto simp: computeNextRun_def andThen_Inr find_Some_iff split: option.splits)

section \<open>Properties\<close>

text \<open>C16: Every valid schedule in a zone whose offsets stay within eighteen hours has a next run, and
  that run lies strictly after the present: the failure at the end of the search cannot happen.\<close>

theorem next_run_in_future:
  assumes "assertValidSchedule L s = Inr ()" "sane_zone L (sc_timeZone s)" "0 \<le> now"
  shows "\<exists>c. computeNextRun L s now = Inr (to_iso c) \<and> now < c \<and> c \<in> set (candidateInstants L s now)"
proof -
  have u: "usable L s" using assms(1) by (simp add: usable_def)
  obtain x where x: "x \<in> set (candidateInstants L s now)" "now < x" using some_candidate_late [OF assms(2,3) u] by blast
  then obtain c where c: "List.find (\<lambda>c. now < c) (candidateInstants L s now) = Some c"
    by (cases "List.find (\<lambda>c. now < c) (candidateInstants L s now)") (auto simp: find_None_iff)
  then have "now < c" "c \<in> set (candidateInstants L s now)" by (auto simp: find_Some_iff)
  moreover have "computeNextRun L s now = Inr (to_iso c)" using c assms(1) by (simp add: computeNextRun_def andThen_def)
  ultimately show ?thesis by blast
qed

definition utc_luxon :: luxon where
  "utc_luxon = \<lparr>lx_offset = (\<lambda>z t. 0), lx_zone = (\<lambda>z. z = ''UTC'')\<rparr>"

definition month_end :: schedule where
  "month_end = \<lparr>sc_frequency = ''monthly'', sc_hour = 3, sc_minute = 0, sc_weekday = None, sc_dayOfMonth = Some 31,
     sc_timeZone = ''UTC''\<rparr>"

lemma month_end_valid: "assertValidSchedule utc_luxon month_end = Inr ()"
  by (simp add: assertValidSchedule_def month_end_def utc_luxon_def FREQUENCIES_def isValidTimeZone_def
      assertWholeNumberInRange_def andThen_def js_trim_def js_trim_start_def js_trim_end_def is_js_space_def)

theorem next_run_in_future_witness:
  "\<exists>c. computeNextRun utc_luxon month_end 1700000000000 = Inr (to_iso c) \<and> 1700000000000 < c"
  using next_run_in_future [OF month_end_valid, of 1700000000000]
  by (auto simp: sane_zone_def utc_luxon_def)

text \<open>Given a window whose left end is not on the target offset and whose right end is, the
  search returns, after finitely many halvings, an instant inside the window that is on the offset while the
  millisecond before it is not.\<close>
theorem bisection_finds_transition:
  assumes "lo < hi" "lx_offset L zone lo \<noteq> target" "lx_offset L zone hi = target"
  defines "r \<equiv> findTransition L zone lo hi target"
  shows "lo < r \<and> r \<le> hi \<and> lx_offset L zone r = target \<and> lx_offset L zone (r - 1) \<noteq> target"
  using findTransition_range [OF assms(1)] findTransition_switch [OF assms(1-3)] by (simp add: r_def)

definition spring_luxon :: luxon where
  "spring_luxon = \<lparr>lx_offset = (\<lambda>z t. if t < 1000 then 0 else 60), lx_zone = (\<lambda>z. True)\<rparr>"

theorem bisection_finds_transition_witness:
  "lx_offset spring_luxon ''Z'' (findTransition spring_luxon ''Z'' 0 5000 60 - 1) \<noteq> 60"
  using bisection_finds_transition [of 0 5000 spring_luxon "''Z''" 60] by (simp add: spring_luxon_def)



end
