(* ===== verification/Error_Handler.thy ===== *)
theory Error_Handler
  imports Auth
begin

text \<open>
  What leaves the server when an operation throws: \<open>bff-server/error-handler.ts\<close> (fixed messages by
  error code), \<open>bff-server/mc-api-error.ts\<close> (the handler of the routes in front of the movie service),
  the role checks of \<open>bff-server/role-check.ts\<close>, the identifier check of \<open>bff-server/resource-id.ts\<close>
  and the snapshot filter of \<open>bff-server/ui-state-sanitizer.ts\<close>.
\<close>

record response =
  rp_status :: int
  rp_body :: json
  rp_headers :: "(string \<times> string) list"

fun code_text :: "auth_code \<Rightarrow> string" where
  "code_text WEAK_PASSWORD = ''WEAK_PASSWORD''"
| "code_text DUPLICATE_USERNAME = ''DUPLICATE_USERNAME''"
| "code_text DUPLICATE_EMAIL = ''DUPLICATE_EMAIL''"
| "code_text INVALID_EMAIL = ''INVALID_EMAIL''"
| "code_text INVALID_INPUT = ''INVALID_INPUT''"
| "code_text INVALID_CREDENTIALS = ''INVALID_CREDENTIALS''"
| "code_text ACCOUNT_LOCKED = ''ACCOUNT_LOCKED''"
| "code_text ACCOUNT_DISABLED = ''ACCOUNT_DISABLED''"
| "code_text ROLES_REVOKED = ''ROLES_REVOKED''"
| "code_text EMAIL_NOT_VERIFIED = ''EMAIL_NOT_VERIFIED''"
| "code_text AUTH_CODE_INVALID = ''AUTH_CODE_INVALID''"
| "code_text AUTH_CODE_EXPIRED = ''AUTH_CODE_EXPIRED''"
| "code_text REDIRECT_URI_MISMATCH = ''REDIRECT_URI_MISMATCH''"
| "code_text TOKEN_EXPIRED = ''TOKEN_EXPIRED''"
| "code_text TOKEN_INVALID = ''TOKEN_INVALID''"
| "code_text REFRESH_FAILED = ''REFRESH_FAILED''"
| "code_text REFRESH_TOKEN_INVALID = ''REFRESH_TOKEN_INVALID''"
| "code_text SESSION_NOT_FOUND = ''SESSION_NOT_FOUND''"
| "code_text SESSION_EXPIRED = ''SESSION_EXPIRED''"
| "code_text SESSION_IDLE_TIMEOUT = ''SESSION_IDLE_TIMEOUT''"
| "code_text SESSION_ABSOLUTE_TIMEOUT = ''SESSION_ABSOLUTE_TIMEOUT''"
| "code_text SESSION_LIMIT_EXCEEDED = ''SESSION_LIMIT_EXCEEDED''"
| "code_text UNAUTHORIZED = ''UNAUTHORIZED''"
| "code_text FORBIDDEN = ''FORBIDDEN''"
| "code_text SESSION_OWNER_MISMATCH = ''SESSION_OWNER_MISMATCH''"
| "code_text SESSION_RENEWAL_PENDING = ''SESSION_RENEWAL_PENDING''"
| "code_text AGENT_IDENTITY_REJECTED = ''AGENT_IDENTITY_REJECTED''"
| "code_text AGENT_IDENTITY_UNAVAILABLE = ''AGENT_IDENTITY_UNAVAILABLE''"
| "code_text VERIFICATION_TOKEN_INVALID = ''VERIFICATION_TOKEN_INVALID''"
| "code_text VERIFICATION_TOKEN_EXPIRED = ''VERIFICATION_TOKEN_EXPIRED''"
| "code_text ALREADY_VERIFIED = ''ALREADY_VERIFIED''"
| "code_text KEYCLOAK_UNAVAILABLE = ''KEYCLOAK_UNAVAILABLE''"
| "code_text RATE_LIMIT_EXCEEDED = ''RATE_LIMIT_EXCEEDED''"
| "code_text UNKNOWN = ''UNKNOWN''"
| "code_text UNKNOWN_ERROR = ''UNKNOWN_ERROR''"

fun ERROR_MESSAGES :: "auth_code \<Rightarrow> string" where
  "ERROR_MESSAGES WEAK_PASSWORD = ''Password must be at least 12 characters and include uppercase, lowercase, numbers, and symbols.''"
| "ERROR_MESSAGES DUPLICATE_USERNAME = ''That username is already taken. Please choose another.''"
| "ERROR_MESSAGES DUPLICATE_EMAIL = ''An account with that email already exists.''"
| "ERROR_MESSAGES INVALID_EMAIL = ''Please enter a valid email address.''"
| "ERROR_MESSAGES INVALID_INPUT = ''The provided information is invalid. Please check your input.''"
| "ERROR_MESSAGES INVALID_CREDENTIALS = ''Authentication failed. Please check your credentials and try again.''"
| "ERROR_MESSAGES ACCOUNT_LOCKED = ''Your account has been temporarily locked due to multiple failed login attempts. Please try again later or reset your password.''"
| "ERROR_MESSAGES ACCOUNT_DISABLED = ''Your account has been disabled. Please contact support.''"
| "ERROR_MESSAGES ROLES_REVOKED = ''Your account permissions have changed. Please log in again.''"
| "ERROR_MESSAGES EMAIL_NOT_VERIFIED = ''Please verify your email address before logging in.''"
| "ERROR_MESSAGES AUTH_CODE_INVALID = ''Authentication failed. Please try again.''"
| "ERROR_MESSAGES AUTH_CODE_EXPIRED = ''Your login session has expired. Please try again.''"
| "ERROR_MESSAGES REDIRECT_URI_MISMATCH = ''Authentication failed. Please try again.''"
| "ERROR_MESSAGES TOKEN_EXPIRED = ''Your session has expired. Please log in again.''"
| "ERROR_MESSAGES TOKEN_INVALID = ''Your session token is invalid. Please log in again.''"
| "ERROR_MESSAGES REFRESH_FAILED = ''Unable to refresh your session. Please log in again.''"
| "ERROR_MESSAGES REFRESH_TOKEN_INVALID = ''Your session has expired. Please log in again.''"
| "ERROR_MESSAGES SESSION_NOT_FOUND = ''Your session could not be found. Please log in again.''"
| "ERROR_MESSAGES SESSION_EXPIRED = ''Your session has expired. Please log in again.''"
| "ERROR_MESSAGES SESSION_IDLE_TIMEOUT = ''Your session has ended due to inactivity. Please log in again.''"
| "ERROR_MESSAGES SESSION_ABSOLUTE_TIMEOUT = ''Your session has ended for security purposes. Please log in again.''"
| "ERROR_MESSAGES SESSION_LIMIT_EXCEEDED = ''Maximum active sessions reached. Your oldest session has been ended.''"
| "ERROR_MESSAGES UNAUTHORIZED = ''Authentication required.''"
| "ERROR_MESSAGES FORBIDDEN = ''You do not have permission to access this resource.''"
| "ERROR_MESSAGES SESSION_OWNER_MISMATCH = ''Your session could not be renewed. Please log in again.''"
| "ERROR_MESSAGES SESSION_RENEWAL_PENDING = ''Your session is being renewed. Please try again in a moment.''"
| "ERROR_MESSAGES AGENT_IDENTITY_REJECTED = ''Your session has expired. Please log in again.''"
| "ERROR_MESSAGES AGENT_IDENTITY_UNAVAILABLE = ''The assistant is temporarily unavailable. Please try again.''"
| "ERROR_MESSAGES VERIFICATION_TOKEN_INVALID = ''This verification link is invalid or has already been used.''"
| "ERROR_MESSAGES VERIFICATION_TOKEN_EXPIRED = ''This verification link has expired. Please request a new one.''"
| "ERROR_MESSAGES ALREADY_VERIFIED = ''Your email address has already been verified.''"
| "ERROR_MESSAGES KEYCLOAK_UNAVAILABLE = ''The authentication service is temporarily unavailable. Please try again later.''"
| "ERROR_MESSAGES RATE_LIMIT_EXCEEDED = ''Too many requests. Please try again later.''"
| "ERROR_MESSAGES UNKNOWN = ''An unexpected error occurred. Please try again.''"
| "ERROR_MESSAGES UNKNOWN_ERROR = ''An unexpected error occurred. Please try again.''"

definition errorResponse :: "string \<Rightarrow> auth_code \<Rightarrow> json" where
  "errorResponse msg code = JObj [(''error'', JStr msg), (''code'', JStr (code_text code))]"

definition handleBffError :: "exn \<Rightarrow> response" where
  "handleBffError e = (case e of
     RateLimitError retryAfter \<Rightarrow> \<lparr>rp_status = 429,
       rp_body = errorResponse (ERROR_MESSAGES RATE_LIMIT_EXCEEDED) RATE_LIMIT_EXCEEDED,
       rp_headers = [(''Retry-After'', show_int retryAfter)]\<rparr>
   | AuthError a \<Rightarrow> \<lparr>rp_status = ae_status a, rp_body = errorResponse (ERROR_MESSAGES (ae_code a)) (ae_code a),
       rp_headers = []\<rparr>
   | _ \<Rightarrow> \<lparr>rp_status = 500, rp_body = errorResponse (ERROR_MESSAGES UNKNOWN) UNKNOWN, rp_headers = []\<rparr>)"

section \<open>The movie-service routes\<close>

definition securityHeaders :: "(string \<times> string) list" where
  "securityHeaders = [(''Content-Security-Policy'', ''default-src '' @ [CHR 0x27] @ ''none'' @ [CHR 0x27]),
     (''X-Frame-Options'', ''DENY''), (''X-Content-Type-Options'', ''nosniff''), (''Referrer-Policy'', ''no-referrer'')]"

definition authErrorHeaders :: "auth_error \<Rightarrow> (string \<times> string) list" where
  "authErrorHeaders a = securityHeaders
     @ map (\<lambda>c. (''Set-Cookie'', c)) (case ae_clear_cookies a of Some cs \<Rightarrow> cs | None \<Rightarrow> [])
     @ (case ae_retry_after a of Some n \<Rightarrow> [(''Retry-After'', show_int n)] | None \<Rightarrow> [])"

text \<open>An upstream error (\<open>HttpError\<close>) is passed on with its own body, here its Problem Details title.\<close>

definition upstreamBody :: "string option \<Rightarrow> json" where
  "upstreamBody title = (case title of Some t \<Rightarrow> JObj [(''title'', JStr t)] | None \<Rightarrow> JObj [])"

definition handleMcApiError :: "exn \<Rightarrow> string \<Rightarrow> ('r, 'x, response) act" where
  "handleMcApiError err action = (case auth_error_of err of
     Some a \<Rightarrow>
       thenM (if ae_status a = 401 then auditM ''auth_failed'' [(''action'', action), (''code'', code_text (ae_code a))]
              else if ae_status a = 403 then auditM ''access_denied'' [(''action'', action), (''code'', code_text (ae_code a))]
              else returnM ())
         (returnM \<lparr>rp_status = ae_status a,
            rp_body = JObj [(''error'', JStr (ae_message a)), (''code'', JStr (code_text (ae_code a)))],
            rp_headers = authErrorHeaders a\<rparr>)
   | None \<Rightarrow> (case err of
       HttpError status title \<Rightarrow>
         thenM (if status = 401 then auditM ''auth_failed'' [(''action'', action), (''upstream'', ''mc-service'')]
                else if status = 403 then auditM ''access_denied'' [(''action'', action), (''upstream'', ''mc-service'')]
                else returnM ())
           (returnM \<lparr>rp_status = status, rp_body = upstreamBody title, rp_headers = securityHeaders\<rparr>)
     | _ \<Rightarrow> returnM \<lparr>rp_status = 500,
         rp_body = JObj [(''error'', JStr ''An unexpected error occurred.''), (''code'', JStr (code_text UNKNOWN_ERROR))],
         rp_headers = securityHeaders\<rparr>))"

section \<open>Roles and identifiers\<close>

definition MCAdmin :: string where "MCAdmin = ''mc-admin''"
definition MCUser :: string where "MCUser = ''mc-user''"

definition requireRole :: "user_profile \<Rightarrow> string list \<Rightarrow> exn + unit" where
  "requireRole user roles = (if \<exists>r \<in> set roles. r \<in> set (up_roles user) then Inr ()
     else Inl (mk_auth_error FORBIDDEN ''You do not have permission to access this resource.'' 403))"

definition requireMcUser :: "user_profile \<Rightarrow> exn + unit" where
  "requireMcUser user = requireRole user [MCUser, MCAdmin]"

definition requireMcAdmin :: "user_profile \<Rightarrow> exn + unit" where
  "requireMcAdmin user = requireRole user [MCAdmin]"

definition hasRole :: "user_profile \<Rightarrow> string \<Rightarrow> bool" where
  "hasRole user role = (role \<in> set (up_roles user))"

definition isAdmin :: "user_profile \<Rightarrow> bool" where
  "isAdmin user = hasRole user MCAdmin"

definition safe_id_char :: "char \<Rightarrow> bool" where
  "safe_id_char c = (let n = of_char c :: nat in
     (65 \<le> n \<and> n \<le> 90) \<or> (97 \<le> n \<and> n \<le> 122) \<or> (48 \<le> n \<and> n \<le> 57) \<or> c = CHR ''_'' \<or> c = CHR ''-'')"

definition validateObjectId :: "string \<Rightarrow> string \<Rightarrow> exn + unit" where
  "validateObjectId i field = (if i \<noteq> [] \<and> list_all safe_id_char i then Inr ()
     else Inl (mk_auth_error INVALID_INPUT (''Invalid '' @ field) 400))"

section \<open>The screen snapshot\<close>

definition ALLOWED_SCREENS :: "string list" where
  "ALLOWED_SCREENS = [''home'', ''collection'', ''movie-detail'', ''settings'', ''settings-assistant'',
     ''settings-backups'', ''settings-admin'']"

definition ALLOWED_FILTER_KEYS :: "string list" where
  "ALLOWED_FILTER_KEYS = [''search'', ''genre'', ''decade'', ''owned'', ''ripped'', ''childrens'', ''rated'',
     ''language'', ''contentType'', ''ownedMedia'', ''ripQuality'']"

record ui_state =
  current_screen :: string
  collection_id :: "string option"
  movie_id :: "string option"
  active_filter_keys :: "string list"
  nav_depth :: int

definition is_object_id :: "string \<Rightarrow> bool" where
  "is_object_id s \<longleftrightarrow> length s = 24 \<and>
     list_all (\<lambda>c. let n = of_char c :: nat in (48 \<le> n \<and> n \<le> 57) \<or> (97 \<le> n \<and> n \<le> 102)) s"

definition sanitizeObjectId :: "json \<Rightarrow> string option" where
  "sanitizeObjectId v = (case v of JStr s \<Rightarrow> if is_object_id s then Some s else None | _ \<Rightarrow> None)"

definition sanitizeScreen :: "json \<Rightarrow> string" where
  "sanitizeScreen v = (case v of JStr s \<Rightarrow> if s \<in> set ALLOWED_SCREENS then s else ''unknown'' | _ \<Rightarrow> ''unknown'')"

fun keep_keys :: "string list \<Rightarrow> json list \<Rightarrow> string list" where
  "keep_keys seen [] = seen"
| "keep_keys seen (e # es) = (case e of
     JStr s \<Rightarrow> keep_keys (if s \<in> set ALLOWED_FILTER_KEYS \<and> s \<notin> set seen then seen @ [s] else seen) es
   | _ \<Rightarrow> keep_keys seen es)"

definition sanitizeFilterKeys :: "json \<Rightarrow> string list" where
  "sanitizeFilterKeys v = (case v of JArr es \<Rightarrow> keep_keys [] es | _ \<Rightarrow> [])"

definition sanitizeNavDepth :: "json \<Rightarrow> int" where
  "sanitizeNavDepth v = (case v of
     JNum t \<Rightarrow> (case js_parse_float t of Some x \<Rightarrow> if of_int \<lfloor>x\<rfloor> = x \<and> 0 \<le> x then \<lfloor>x\<rfloor> else 0 | None \<Rightarrow> 0) | _ \<Rightarrow> 0)"

definition sanitizeUiState :: "json \<Rightarrow> ui_state option" where
  "sanitizeUiState raw = (case raw of
     JObj es \<Rightarrow> Some \<lparr>current_screen = sanitizeScreen (json_member raw ''current_screen''),
       collection_id = sanitizeObjectId (json_member raw ''collection_id''),
       movie_id = sanitizeObjectId (json_member raw ''movie_id''),
       active_filter_keys = sanitizeFilterKeys (json_member raw ''active_filter_keys''),
       nav_depth = sanitizeNavDepth (json_member raw ''nav_depth'')\<rparr>
   | _ \<Rightarrow> None)"

section \<open>Properties\<close>

text \<open>What a client sees of an error depends on its code and status alone: an unexpected error is
  always the same 500, and no message, stack or upstream detail of any error reaches the body.\<close>
theorem errors_do_not_leak:
  "handleBffError (JsError m) = handleBffError (JsError ''x'') \<and>
   handleBffError (ArtifactVerificationError m) = handleBffError (JsError ''x'') \<and>
   rp_status (handleBffError (HttpError st ti)) = 500 \<and>
   handleBffError (AuthError (a\<lparr>ae_message := m\<rparr>)) = handleBffError (AuthError a) \<and>
   rp_headers (handleBffError (RateLimitError n)) = [(''Retry-After'', show_int n)]"
  by (simp add: handleBffError_def)

text \<open>An identifier that passes the check holds no separator, query, fragment, escape or dot
  character, so it can only be one path segment of an upstream address; the empty identifier is refused.\<close>
theorem ids_cannot_smuggle:
  "(case validateObjectId i f of Inl e \<Rightarrow> True
    | Inr u \<Rightarrow> i \<noteq> [] \<and> set ''/?#%.&= '' \<inter> set i = {} \<and> encodeURIComponent i = i)"
proof (cases "i \<noteq> [] \<and> list_all safe_id_char i")
  case True
  have u: "uri_unreserved c" if "safe_id_char c" for c
    using that by (auto simp: safe_id_char_def uri_unreserved_def Let_def)
  have "concat (map (\<lambda>c. let n = of_char c :: nat in if uri_unreserved c then [c] else if n < 128 then pct n
      else pct (192 + n div 64) @ pct (128 + n mod 64)) j) = j" if "list_all safe_id_char j" for j
    using that u by (induction j) auto
  then have "encodeURIComponent i = i" using True by (simp add: encodeURIComponent_def)
  have "c \<notin> set i" if "c \<in> set ''/?#%.&= ''" for c
  proof
    assume "c \<in> set i"
    with True have "safe_id_char c" by (simp add: list_all_iff)
    with that show False by (auto simp: safe_id_char_def)
  qed
  then have "set ''/?#%.&= '' \<inter> set i = {}" by blast
  with \<open>encodeURIComponent i = i\<close> show ?thesis using True by (simp add: validateObjectId_def del: list.set)
next
  case False
  then show ?thesis by (auto simp: validateObjectId_def)
qed

end
