(* ===== verification/Redis_Lock.thy ===== *)
theory Redis_Lock
  imports Rate_Limiter
begin

text \<open>
  \<open>bff-server/redis-lock.ts\<close> and the run slot of \<open>bff-server/backup-runner.ts\<close>: a named lock over the
  primitives of \<open>cache-service.ts\<close>, the leader lock of the scheduling tick, and the one run a user may
  have in flight. The random holder id of a leader is a parameter; \<open>later\<close> is the clock when its body
  has finished.
\<close>

definition lockKey :: "string \<Rightarrow> string" where "lockKey nm = ''backup-lock:'' @ nm"

definition acquireLock :: "'r redis \<Rightarrow> int \<Rightarrow> string \<Rightarrow> string \<Rightarrow> int \<Rightarrow> ('r, bool) io" where
  "acquireLock R now nm holderId ttlSeconds = setLockIfAbsent R now (lockKey nm) holderId ttlSeconds"

definition releaseLock :: "'r redis \<Rightarrow> int \<Rightarrow> string \<Rightarrow> string \<Rightarrow> ('r, bool) io" where
  "releaseLock R now nm holderId = releaseLockIfHeld R now (lockKey nm) holderId"

definition withLeaderLock ::
    "'r redis \<Rightarrow> int \<Rightarrow> int \<Rightarrow> string \<Rightarrow> string \<Rightarrow> int \<Rightarrow> ('r, 'x, 'a) act \<Rightarrow> ('r, 'x, 'a option) act" where
  "withLeaderLock R now later nm holderId ttlSeconds body =
     bindM (inRedis (acquireLock R now nm holderId ttlSeconds)) (\<lambda>ok.
       if \<not> ok then returnM None
       else finallyM (bindM body (\<lambda>v. returnM (Some v)))
              (catchM (thenM (inRedis (releaseLock R later nm holderId)) (returnM ())) (\<lambda>_. returnM ())))"

section \<open>The run slot of a user\<close>

definition BACKUP_RUN_SLOT_TTL_SECONDS :: int where "BACKUP_RUN_SLOT_TTL_SECONDS = 30 * 60"

definition RUN_SLOT_LOCK :: "string \<Rightarrow> string" where "RUN_SLOT_LOCK uid = ''running:'' @ uid"

definition RUN_RATE_LIMIT :: rate_rule where
  "RUN_RATE_LIMIT = rule_of ''backup-run'' 30 3600 300"

definition acquireUserRunSlot :: "'r redis \<Rightarrow> int \<Rightarrow> string \<Rightarrow> ('r, bool) io" where
  "acquireUserRunSlot R now uid = acquireLock R now (RUN_SLOT_LOCK uid) uid BACKUP_RUN_SLOT_TTL_SECONDS"

definition releaseUserRunSlot :: "'r redis \<Rightarrow> int \<Rightarrow> string \<Rightarrow> ('r, unit) io" where
  "releaseUserRunSlot R now uid = thenM (releaseLock R now (RUN_SLOT_LOCK uid) uid) (returnM ())"

definition checkBackupRunRateLimit :: "'r redis \<Rightarrow> int \<Rightarrow> string \<Rightarrow> ('r, 'x, unit) act" where
  "checkBackupRunRateLimit R now uid =
     bindM (inRedis (incrementRateLimit R now (endpoint RUN_RATE_LIMIT) uid (windowSeconds RUN_RATE_LIMIT))) (\<lambda>count.
       if limit RUN_RATE_LIMIT < count then throwM (RateLimitError (retryAfterSeconds RUN_RATE_LIMIT))
       else returnM ())"

lemma lockKey_not_set [simp]: "\<not> set_key (lockKey nm)"
  by (simp add: set_key_def lockKey_def js_starts_with_def)

section \<open>Properties\<close>

text \<open>While another instance holds the leader lock, the body does not run and nothing
  changes; the one that takes it runs its body with the lock held.\<close>
theorem leader_runs_alone:
  assumes "redis_up R view order" "kinds_ok (view (w_redis w))"
    and "text_at t (view (w_redis w)) (lockKey nm) = Some other"
  shows "fst (withLeaderLock R t later nm me ttl body w) = Inr None \<and>
         w_ext (snd (withLeaderLock R t later nm me ttl body w)) = w_ext w \<and>
         text_at t (view (w_redis (snd (withLeaderLock R t later nm me ttl body w)))) k = text_at t (view (w_redis w)) k"
  using redis_up.setLockIfAbsent_ok [OF assms(1,2) lockKey_not_set, where t = t] assms(3)
  by (simp add: withLeaderLock_def acquireLock_def io_simps)

definition held_world :: "(kv, unit) world" where
  "held_world = \<lparr>w_redis = put_text (lockKey ''tick'') ''A'' (Some 900000) (\<lambda>_. None), w_audits = [], w_ext = ()\<rparr>"

lemma held_world_ok [simp]: "kinds_ok (w_redis held_world)"
  by (simp add: held_world_def kinds_ok_def put_text_def set_key_def lockKey_def js_starts_with_def)

lemma held_world_at: "text_at 0 (w_redis held_world) (lockKey ''tick'') = Some ''A''"
  by (simp add: held_world_def text_at_def live_def put_text_def)

theorem leader_runs_alone_witness:
  "fst (withLeaderLock ref_redis 0 5 ''tick'' ''B'' 900 (throwM (JsError ''ran'') :: (kv, unit, unit) act) held_world) = Inr None"
  using leader_runs_alone [OF ref.redis_up_axioms, where w = held_world and t = 0 and nm = "''tick''"
      and other = "''A''" and later = 5 and me = "''B''" and ttl = 900 and body = "throwM (JsError ''ran'') :: (kv, unit, unit) act" and k = "[]"]
  by (simp add: held_world_at)

text \<open>C17: Whatever the body does, return or throw, its outcome is the leader's outcome, and
  afterwards the leader no longer holds the lock; a lock another instance has taken meanwhile stays.\<close>

theorem leader_always_releases:
  assumes "redis_up R view order" "kinds_ok (view (w_redis w))"
    and "text_at t (view (w_redis w)) (lockKey nm) = None"
    and "\<And>v. kinds_ok (view (w_redis v)) \<Longrightarrow> kinds_ok (view (w_redis (snd (body v))))"
    and b: "b = body (w\<lparr>w_redis := snd (setLockIfAbsent R t (lockKey nm) me ttl (w_redis w))\<rparr>)"
  shows "fst (withLeaderLock R t later nm me ttl body w) =
           (case fst b of Inl e \<Rightarrow> Inl e | Inr x \<Rightarrow> Inr (Some x)) \<and>
         text_at later (view (w_redis (snd (withLeaderLock R t later nm me ttl body w)))) (lockKey nm) =
           (if text_at later (view (w_redis (snd b))) (lockKey nm) = Some me then None
            else text_at later (view (w_redis (snd b))) (lockKey nm))"
proof -
  note l = redis_up.setLockIfAbsent_ok [OF assms(1,2) lockKey_not_set, where t = t and h = me and ttl = ttl]
  have k: "kinds_ok (view (w_redis (snd b)))" unfolding b by (rule assms(4)) (simp add: l(2))
  note r = redis_up.releaseLockIfHeld_ok [OF assms(1) k lockKey_not_set, where t = later and h = me]
  show ?thesis
    using l(1) assms(3) r by (auto simp: withLeaderLock_def acquireLock_def releaseLock_def io_simps b [symmetric]
        split: sum.split)
qed

theorem leader_always_releases_witness:
  "text_at 5 (w_redis (snd (withLeaderLock ref_redis 0 5 ''tick'' ''B'' 900 (throwM (JsError ''boom'') :: (kv, unit, unit) act)
      \<lparr>w_redis = (\<lambda>_. None), w_audits = [], w_ext = ()\<rparr>))) (lockKey ''tick'') = None"
  using leader_always_releases [OF ref.redis_up_axioms, where w = "\<lparr>w_redis = (\<lambda>_. None), w_audits = [], w_ext = ()\<rparr>"
      and t = 0 and nm = "''tick''" and body = "throwM (JsError ''boom'') :: (kv, unit, unit) act" and me = "''B''" and ttl = 900 and later = 5]
    ref.lock.acquire_holder [of "\<lambda>_. None" "lockKey ''tick''" 5 0 "''B''" 900 "lockKey ''tick''"]
  by simp



end
