(* ===== verification/Mongo.thy ===== *)
theory Mongo
  imports World
begin

text \<open>
  The server's own document store. The driver is not part of the repository: a collection's operations
  are the parameter \<open>coll\<close> of the stores that use it, over a state of its own, addressed by the
  document id with the rest of the filter and the update as functions. The locale \<open>collection_up\<close> states
  their documented effect on a finite map of documents; an update of one document is one step.
  \<open>sort\<close> and \<open>limit\<close> of a cursor are \<open>sort_key\<close> and \<open>take\<close>.
\<close>

record ('m, 'd) coll =
  cl_findOne :: "string \<Rightarrow> ('d \<Rightarrow> bool) \<Rightarrow> ('m, 'd option) io"
  cl_find :: "('d \<Rightarrow> bool) \<Rightarrow> ('m, 'd list) io"
  cl_insert :: "string \<Rightarrow> 'd \<Rightarrow> ('m, unit) io"
  cl_update :: "string \<Rightarrow> ('d \<Rightarrow> bool) \<Rightarrow> ('d \<Rightarrow> 'd) \<Rightarrow> ('m, 'd option) io"
  cl_upsert :: "string \<Rightarrow> ('d option \<Rightarrow> 'd) \<Rightarrow> ('m, 'd option) io"
  cl_updateMany :: "('d \<Rightarrow> bool) \<Rightarrow> ('d \<Rightarrow> 'd) \<Rightarrow> ('m, unit) io"
  cl_delete :: "string \<Rightarrow> ('d \<Rightarrow> bool) \<Rightarrow> ('m, int) io"
  cl_deleteMany :: "('d \<Rightarrow> bool) \<Rightarrow> ('m, unit) io"

definition hit :: "(string \<Rightarrow> 'd option) \<Rightarrow> string \<Rightarrow> ('d \<Rightarrow> bool) \<Rightarrow> 'd option" where
  "hit v i p = (case v i of Some d \<Rightarrow> if p d then Some d else None | None \<Rightarrow> None)"

definition duplicateKey :: exn where "duplicateKey = JsError ''E11000 duplicate key error''"

locale collection_up =
  fixes C :: "('m, 'd) coll" and view :: "'m \<Rightarrow> string \<Rightarrow> 'd option"
  assumes findOne_result: "fst (cl_findOne C i p m) = Inr (hit (view m) i p)"
    and findOne_view: "view (snd (cl_findOne C i p m)) = view m"
    and find_result: "\<exists>ds. fst (cl_find C p m) = Inr ds \<and> set ds = {d \<in> ran (view m). p d}"
    and find_view: "view (snd (cl_find C p m)) = view m"
    and insert_result: "fst (cl_insert C i d m) = (if view m i = None then Inr () else Inl duplicateKey)"
    and insert_view: "view (snd (cl_insert C i d m)) = (if view m i = None then (view m)(i \<mapsto> d) else view m)"
    and update_result: "fst (cl_update C i p f m) = Inr (map_option f (hit (view m) i p))"
    and update_view: "view (snd (cl_update C i p f m)) =
      (case hit (view m) i p of Some d \<Rightarrow> (view m)(i \<mapsto> f d) | None \<Rightarrow> view m)"
    and upsert_result: "fst (cl_upsert C i g m) = Inr (Some (g (view m i)))"
    and upsert_view: "view (snd (cl_upsert C i g m)) = (view m)(i \<mapsto> g (view m i))"
    and updateMany_result: "fst (cl_updateMany C p f m) = Inr ()"
    and updateMany_view: "view (snd (cl_updateMany C p f m)) =
      (\<lambda>i. map_option (\<lambda>d. if p d then f d else d) (view m i))"
    and delete_result: "fst (cl_delete C i p m) = Inr (if hit (view m) i p = None then 0 else 1)"
    and delete_view: "view (snd (cl_delete C i p m)) =
      (if hit (view m) i p = None then view m else (view m)(i := None))"
    and deleteMany_result: "fst (cl_deleteMany C p m) = Inr ()"
    and deleteMany_view: "view (snd (cl_deleteMany C p m)) = (\<lambda>i. hit (view m) i (\<lambda>d. \<not> p d))"
begin

lemmas results = findOne_result insert_result update_result upsert_result updateMany_result delete_result deleteMany_result
lemmas views = findOne_view find_view insert_view update_view upsert_view updateMany_view delete_view deleteMany_view

end

text \<open>A reference collection: an association list of documents by id.\<close>

type_synonym 'd docs = "(string \<times> 'd) list"

definition doc_view :: "'d docs \<Rightarrow> string \<Rightarrow> 'd option" where "doc_view = map_of"

definition ref_docs :: "'d docs \<Rightarrow> 'd list" where
  "ref_docs m = map (\<lambda>i. the (map_of m i)) (remdups (map fst m))"

definition ref_coll :: "('d docs, 'd) coll" where
  "ref_coll = \<lparr>
     cl_findOne = (\<lambda>i p m. (Inr (hit (map_of m) i p), m)),
     cl_find = (\<lambda>p m. (Inr (filter p (ref_docs m)), m)),
     cl_insert = (\<lambda>i d m. if map_of m i = None then (Inr (), (i, d) # m) else (Inl duplicateKey, m)),
     cl_update = (\<lambda>i p f m. (Inr (map_option f (hit (map_of m) i p)),
        case hit (map_of m) i p of Some d \<Rightarrow> (i, f d) # m | None \<Rightarrow> m)),
     cl_upsert = (\<lambda>i g m. (Inr (Some (g (map_of m i))), (i, g (map_of m i)) # m)),
     cl_updateMany = (\<lambda>p f m. (Inr (), map (\<lambda>(i, d). (i, if p d then f d else d)) m)),
     cl_delete = (\<lambda>i p m. (Inr (if hit (map_of m) i p = None then 0 else 1),
        if hit (map_of m) i p = None then m else filter (\<lambda>(j, d). j \<noteq> i) m)),
     cl_deleteMany = (\<lambda>p m. (Inr (), filter (\<lambda>(i, d). hit (map_of m) i (\<lambda>d. \<not> p d) \<noteq> None) m))\<rparr>"

lemma ran_map_of: "set (ref_docs m) = ran (map_of m)"
proof -
  have "ran (map_of m) = (\<lambda>i. the (map_of m i)) ` dom (map_of m)"
    by (auto simp: ran_def dom_def image_iff) (metis option.sel)+
  then show ?thesis by (simp add: ref_docs_def dom_map_of_conv_image_fst)
qed

lemma map_of_update_all: "map_of (map (\<lambda>(i, d). (i, g d)) m) = (\<lambda>i. map_option g (map_of m i))"
  by (induction m) auto

lemma map_of_delete_one: "map_of (filter (\<lambda>(j, d). j \<noteq> i) m) = (map_of m)(i := None)"
  by (induction m) (auto simp: fun_eq_iff)

lemma map_of_filter_key: "map_of (filter (\<lambda>(i, d). g i) m) i = (if g i then map_of m i else None)"
  by (induction m) auto

lemma map_of_delete_many:
  "map_of (filter (\<lambda>(i, d). hit (map_of m) i q \<noteq> None) m) = (\<lambda>i. hit (map_of m) i q)"
  by (rule ext, subst map_of_filter_key [where g = "\<lambda>i. hit (map_of m) i q \<noteq> None"]) (simp add: hit_def split: option.splits)

interpretation ref_coll: collection_up ref_coll doc_view
  by unfold_locales (auto simp: ref_coll_def doc_view_def ran_map_of [symmetric] map_of_update_all map_of_delete_one map_of_delete_many [unfolded not_None_eq]
      split: option.splits)

text \<open>
  A collection that is one part of a larger state, read by \<open>get\<close> and written by \<open>upd\<close>: its laws carry over,
  and a reading of any other part is left alone.
\<close>

definition on_part :: "('s \<Rightarrow> 'm) \<Rightarrow> (('m \<Rightarrow> 'm) \<Rightarrow> 's \<Rightarrow> 's) \<Rightarrow> ('m, 'a) io \<Rightarrow> ('s, 'a) io" where
  "on_part get upd io = (\<lambda>s. (fst (io (get s)), upd (\<lambda>_. snd (io (get s))) s))"

definition part_of :: "('s \<Rightarrow> 'm) \<Rightarrow> (('m \<Rightarrow> 'm) \<Rightarrow> 's \<Rightarrow> 's) \<Rightarrow> ('m, 'd) coll \<Rightarrow> ('s, 'd) coll" where
  "part_of get upd C = \<lparr>
     cl_findOne = (\<lambda>i p. on_part get upd (cl_findOne C i p)),
     cl_find = (\<lambda>p. on_part get upd (cl_find C p)),
     cl_insert = (\<lambda>i d. on_part get upd (cl_insert C i d)),
     cl_update = (\<lambda>i p f. on_part get upd (cl_update C i p f)),
     cl_upsert = (\<lambda>i g. on_part get upd (cl_upsert C i g)),
     cl_updateMany = (\<lambda>p f. on_part get upd (cl_updateMany C p f)),
     cl_delete = (\<lambda>i p. on_part get upd (cl_delete C i p)),
     cl_deleteMany = (\<lambda>p. on_part get upd (cl_deleteMany C p))\<rparr>"

lemma part_of_up:
  assumes "collection_up C view" "\<And>f s. get (upd f s) = f (get s)"
  shows "collection_up (part_of get upd C) (\<lambda>s. view (get s))"
  by unfold_locales (simp_all add: part_of_def on_part_def assms(2) collection_up.results [OF assms(1)]
      collection_up.views [OF assms(1)] collection_up.find_result [OF assms(1)])

text \<open>Two collections over one state do not touch each other's documents.\<close>

definition leaves_alone :: "('m, 'd) coll \<Rightarrow> ('m \<Rightarrow> 'v) \<Rightarrow> bool" where
  "leaves_alone C other \<longleftrightarrow> (\<forall>i p f d g m.
     other (snd (cl_findOne C i p m)) = other m \<and> other (snd (cl_find C p m)) = other m \<and>
     other (snd (cl_insert C i d m)) = other m \<and> other (snd (cl_update C i p f m)) = other m \<and>
     other (snd (cl_upsert C i g m)) = other m \<and>
     other (snd (cl_updateMany C p f m)) = other m \<and> other (snd (cl_delete C i p m)) = other m \<and>
     other (snd (cl_deleteMany C p m)) = other m)"

lemma leaves_aloneD:
  assumes "leaves_alone C other"
  shows "other (snd (cl_findOne C i p m)) = other m" "other (snd (cl_find C p m)) = other m"
    "other (snd (cl_insert C i d m)) = other m" "other (snd (cl_update C i p f m)) = other m"
    "other (snd (cl_updateMany C p f m)) = other m" "other (snd (cl_delete C i p m)) = other m"
    "other (snd (cl_deleteMany C p m)) = other m" "other (snd (cl_upsert C i g m)) = other m"
  using assms by (auto simp: leaves_alone_def)

lemma part_of_leaves_alone: "(\<And>f s. other (upd f s) = other s) \<Longrightarrow> leaves_alone (part_of get upd C) other"
  by (simp add: leaves_alone_def part_of_def on_part_def)

end
