(* ===== verification/Job_Store.thy ===== *)
theory Job_Store
  imports Mongo Backup_Schedule
begin

text \<open>
  \<open>bff-server/backup-job-store.ts\<close>: the backup jobs of a user, their schedules, and the atomic claim by
  which a due job is handed to exactly one instance. Documents of \<open>backup_jobs\<close> are records; an absent
  field is \<open>None\<close>. The clock \<open>now\<close> and a fresh id are arguments.
\<close>

record collection_count =
  cc_collectionId :: string
  cc_name :: string
  cc_movieCount :: int

record run_summary =
  rs_runId :: string
  rs_runStatus :: string
  rs_startedAt :: string
  rs_finishedAt :: "string option"
  rs_collectionCount :: int
  rs_movieCount :: int
  rs_artifactBytes :: "int option"
  rs_collectionCounts :: "collection_count list option"
  rs_failureReason :: "string option"
  rs_pruneFailureReason :: "string option"

record job =
  jb_id :: string
  jb_userId :: string
  jb_destinationId :: string
  jb_label :: string
  jb_collectionIds :: "string list"
  jb_schedule :: "schedule option"
  jb_keepLast :: rat
  jb_enabled :: bool
  jb_nextRunAt :: "string option"
  jb_claimedAt :: "string option"
  jb_lastRun :: "run_summary option"
  jb_createdAt :: string
  jb_updatedAt :: string

record job_input =
  ji_destinationId :: string
  ji_label :: string
  ji_collectionIds :: "string list"
  ji_keepLast :: rat
  ji_enabled :: bool
  ji_schedule :: "schedule option"

text \<open>A patch: \<open>None\<close> for a field it does not carry; for the schedule \<open>Some None\<close> is an explicit \<open>null\<close>.\<close>

record job_patch =
  pt_destinationId :: "string option"
  pt_label :: "string option"
  pt_collectionIds :: "string list option"
  pt_keepLast :: "rat option"
  pt_enabled :: "bool option"
  pt_schedule :: "schedule option option"

text \<open>What a route may return: the document without its owner.\<close>

record job_view =
  jv_id :: string
  jv_destinationId :: string
  jv_label :: string
  jv_collectionIds :: "string list"
  jv_schedule :: "schedule option"
  jv_keepLast :: rat
  jv_enabled :: bool
  jv_nextRunAt :: "string option"
  jv_claimedAt :: "string option"
  jv_lastRun :: "run_summary option"
  jv_createdAt :: string
  jv_updatedAt :: string

definition toView :: "job \<Rightarrow> job_view" where
  "toView d = \<lparr>jv_id = jb_id d, jv_destinationId = jb_destinationId d, jv_label = jb_label d,
     jv_collectionIds = jb_collectionIds d, jv_schedule = jb_schedule d, jv_keepLast = jb_keepLast d,
     jv_enabled = jb_enabled d, jv_nextRunAt = jb_nextRunAt d, jv_claimedAt = jb_claimedAt d,
     jv_lastRun = jb_lastRun d, jv_createdAt = jb_createdAt d, jv_updatedAt = jb_updatedAt d\<rparr>"

definition KEEP_LAST_MIN :: rat where "KEEP_LAST_MIN = 1"
definition KEEP_LAST_MAX :: rat where "KEEP_LAST_MAX = 365"

definition assertKeepLast :: "rat option \<Rightarrow> exn + unit" where
  "assertKeepLast k = (case k of None \<Rightarrow> Inr ()
     | Some n \<Rightarrow> if of_int \<lfloor>n\<rfloor> \<noteq> n \<or> n < KEEP_LAST_MIN \<or> KEEP_LAST_MAX < n
         then Inl (BackupJobInputError ''Keep the last N backups must be a whole number between 1 and 365'')
         else Inr ())"

text \<open>Destinations matter here by their owner alone, the field \<open>owner\<close> reads.\<close>

definition assertOwnedDestination :: "('m, 'd) coll \<Rightarrow> ('d \<Rightarrow> string) \<Rightarrow> string \<Rightarrow> string \<Rightarrow> ('m, unit) io" where
  "assertOwnedDestination D owner uid destinationId =
     bindM (cl_findOne D destinationId (\<lambda>d. owner d = uid)) (\<lambda>found. case found of
       None \<Rightarrow> throwM (BackupJobInputError ''That destination does not exist'')
     | Some d \<Rightarrow> returnM ())"

section \<open>The atomic claim\<close>

definition CLAIM_RECLAIM_AFTER_MS :: int where "CLAIM_RECLAIM_AFTER_MS = 30 * 60 * 1000"

definition dueFilter :: "string \<Rightarrow> job \<Rightarrow> bool" where
  "dueFilter nowIso d \<longleftrightarrow> jb_enabled d \<and> (case jb_nextRunAt d of Some n \<Rightarrow> n \<le> nowIso | None \<Rightarrow> False)"

definition findDueJobs :: "('m, job) coll \<Rightarrow> int \<Rightarrow> nat \<Rightarrow> ('m, job list) io" where
  "findDueJobs J now limit_n = bindM (cl_find J (dueFilter (to_iso now))) (\<lambda>ds.
     returnM (take limit_n (sort_key (\<lambda>d. case jb_nextRunAt d of Some n \<Rightarrow> n | None \<Rightarrow> []) ds)))"

definition claimable :: "int \<Rightarrow> int \<Rightarrow> job \<Rightarrow> bool" where
  "claimable now reclaimAfterMs d \<longleftrightarrow> dueFilter (to_iso now) d \<and>
     (case jb_claimedAt d of None \<Rightarrow> True | Some c \<Rightarrow> c < to_iso (now - reclaimAfterMs))"

definition claimDueJob :: "('m, job) coll \<Rightarrow> string \<Rightarrow> int \<Rightarrow> int \<Rightarrow> ('m, job option) io" where
  "claimDueJob J jobId now reclaimAfterMs =
     cl_update J jobId (claimable now reclaimAfterMs) (\<lambda>d. d\<lparr>jb_claimedAt := Some (to_iso now)\<rparr>)"

definition releaseClaim :: "('m, job) coll \<Rightarrow> int \<Rightarrow> string \<Rightarrow> string option \<Rightarrow> ('m, unit) io" where
  "releaseClaim J now jobId nextRunAt = thenM
     (cl_update J jobId (\<lambda>_. True) (\<lambda>d. d\<lparr>jb_claimedAt := None, jb_nextRunAt := nextRunAt, jb_updatedAt := to_iso now\<rparr>))
     (returnM ())"

section \<open>The jobs of a user\<close>

definition nextRunFor :: "luxon \<Rightarrow> schedule option \<Rightarrow> bool \<Rightarrow> int \<Rightarrow> exn + string option" where
  "nextRunFor L sch enabled from_ms = (case sch of
     None \<Rightarrow> Inr None
   | Some s \<Rightarrow> if \<not> enabled then Inr None
       else (case computeNextRun L s from_ms of Inl e \<Rightarrow> Inl e | Inr t \<Rightarrow> Inr (Some t)))"

definition assertSchedule :: "luxon \<Rightarrow> schedule option \<Rightarrow> exn + unit" where
  "assertSchedule L sch = (case sch of None \<Rightarrow> Inr () | Some s \<Rightarrow> assertValidSchedule L s)"

definition frequency_of :: "schedule option \<Rightarrow> string" where
  "frequency_of sch = (case sch of Some s \<Rightarrow> sc_frequency s | None \<Rightarrow> [])"

definition newJob :: "string \<Rightarrow> string \<Rightarrow> job_input \<Rightarrow> string option \<Rightarrow> int \<Rightarrow> job" where
  "newJob freshId uid input nextRunAt now = \<lparr>jb_id = freshId, jb_userId = uid,
     jb_destinationId = ji_destinationId input, jb_label = ji_label input, jb_collectionIds = ji_collectionIds input,
     jb_schedule = ji_schedule input, jb_keepLast = ji_keepLast input, jb_enabled = ji_enabled input,
     jb_nextRunAt = nextRunAt, jb_claimedAt = None, jb_lastRun = None, jb_createdAt = to_iso now, jb_updatedAt = to_iso now\<rparr>"

definition createJob ::
    "luxon \<Rightarrow> ('m, job) coll \<Rightarrow> ('m, 'd) coll \<Rightarrow> ('d \<Rightarrow> string) \<Rightarrow> int \<Rightarrow> string \<Rightarrow> string \<Rightarrow> job_input \<Rightarrow> ('r, 'm, job_view) act" where
  "createJob L J D owner now freshId uid input =
     thenM (liftE (assertKeepLast (Some (ji_keepLast input))))
    (thenM (liftE (assertSchedule L (ji_schedule input)))
    (thenM (inExt (assertOwnedDestination D owner uid (ji_destinationId input)))
    (bindM (liftE (nextRunFor L (ji_schedule input) (ji_enabled input) now)) (\<lambda>nextRunAt.
     let d = newJob freshId uid input nextRunAt now in
     thenM (inExt (cl_insert J freshId d))
    (thenM (whenM (nextRunAt \<noteq> None) (auditM ''backup_schedule_enabled''
              [(''userId'', uid), (''jobId'', freshId), (''frequency'', frequency_of (ji_schedule input))]))
           (returnM (toView d)))))))"

definition listJobs :: "('m, job) coll \<Rightarrow> string \<Rightarrow> ('m, job_view list) io" where
  "listJobs J uid = bindM (cl_find J (\<lambda>d. jb_userId d = uid)) (\<lambda>ds. returnM (map toView (sort_key jb_label ds)))"

definition getJob :: "('m, job) coll \<Rightarrow> string \<Rightarrow> string \<Rightarrow> ('m, job_view option) io" where
  "getJob J uid jobId = bindM (cl_findOne J jobId (\<lambda>d. jb_userId d = uid)) (\<lambda>d. returnM (map_option toView d))"

definition or_old :: "'a option \<Rightarrow> 'a \<Rightarrow> 'a" where
  "or_old x y = (case x of Some v \<Rightarrow> v | None \<Rightarrow> y)"

definition applyPatch :: "job_patch \<Rightarrow> string option \<Rightarrow> int \<Rightarrow> job \<Rightarrow> job" where
  "applyPatch p nextRunAt now d = d\<lparr>jb_destinationId := or_old (pt_destinationId p) (jb_destinationId d),
     jb_label := or_old (pt_label p) (jb_label d), jb_collectionIds := or_old (pt_collectionIds p) (jb_collectionIds d),
     jb_keepLast := or_old (pt_keepLast p) (jb_keepLast d), jb_enabled := or_old (pt_enabled p) (jb_enabled d),
     jb_schedule := or_old (pt_schedule p) (jb_schedule d), jb_nextRunAt := nextRunAt, jb_updatedAt := to_iso now\<rparr>"

definition updateJob ::
    "luxon \<Rightarrow> ('m, job) coll \<Rightarrow> ('m, 'd) coll \<Rightarrow> ('d \<Rightarrow> string) \<Rightarrow> int \<Rightarrow> string \<Rightarrow> string \<Rightarrow> job_patch \<Rightarrow>
     ('r, 'm, job_view option) act" where
  "updateJob L J D owner now uid jobId patch =
     thenM (liftE (assertKeepLast (pt_keepLast patch)))
    (thenM (liftE (assertSchedule L (or_old (pt_schedule patch) None)))
    (thenM (case pt_destinationId patch of
              Some dest \<Rightarrow> if dest = [] then returnM () else inExt (assertOwnedDestination D owner uid dest)
            | None \<Rightarrow> returnM ())
    (bindM (inExt (cl_findOne J jobId (\<lambda>d. jb_userId d = uid))) (\<lambda>existing. case existing of
       None \<Rightarrow> returnM None
     | Some old \<Rightarrow>
        let sch = or_old (pt_schedule patch) (jb_schedule old); enabled = or_old (pt_enabled patch) (jb_enabled old) in
        bindM (liftE (nextRunFor L sch enabled now)) (\<lambda>nextRunAt.
        bindM (inExt (cl_update J jobId (\<lambda>d. jb_userId d = uid) (applyPatch patch nextRunAt now))) (\<lambda>d.
        let wasScheduled = (jb_schedule old \<noteq> None \<and> jb_enabled old); isScheduled = (nextRunAt \<noteq> None) in
        thenM (if \<not> wasScheduled \<and> isScheduled
               then auditM ''backup_schedule_enabled'' [(''userId'', uid), (''jobId'', jobId), (''frequency'', frequency_of sch)]
               else if wasScheduled \<and> \<not> isScheduled
               then auditM ''backup_schedule_disabled'' [(''userId'', uid), (''jobId'', jobId)]
               else returnM ())
              (returnM (map_option toView d))))))))"

definition deleteJob :: "('m, job) coll \<Rightarrow> string \<Rightarrow> string \<Rightarrow> ('m, bool) io" where
  "deleteJob J uid jobId = bindM (cl_delete J jobId (\<lambda>d. jb_userId d = uid)) (\<lambda>n. returnM (n = 1))"

definition clearSchedules :: "('m, job) coll \<Rightarrow> int \<Rightarrow> string \<Rightarrow> ('r, 'm, int) act" where
  "clearSchedules J now uid =
     (let mine = (\<lambda>d. jb_userId d = uid \<and> jb_schedule d \<noteq> None) in
      bindM (inExt (cl_find J mine)) (\<lambda>scheduled.
      if scheduled = [] then returnM 0
      else thenM (inExt (cl_updateMany J mine (\<lambda>d. d\<lparr>jb_updatedAt := to_iso now, jb_schedule := None, jb_nextRunAt := None\<rparr>)))
          (thenM (forM scheduled (\<lambda>d. whenM (jb_enabled d)
                    (auditM ''backup_schedule_disabled'' [(''userId'', uid), (''jobId'', jb_id d)])))
                 (returnM (int (length scheduled))))))"

definition recordLastRun :: "('m, job) coll \<Rightarrow> int \<Rightarrow> string \<Rightarrow> string \<Rightarrow> run_summary \<Rightarrow> ('m, unit) io" where
  "recordLastRun J now uid jobId lastRun = thenM
     (cl_update J jobId (\<lambda>d. jb_userId d = uid) (\<lambda>d. d\<lparr>jb_lastRun := Some lastRun, jb_updatedAt := to_iso now\<rparr>))
     (returnM ())"

section \<open>Steps of the job store\<close>

text \<open>
  One step of any instance on the job store, with what it did to whom. A claim names the job, its
  instant and whether it won.
\<close>

datatype job_event = Claimed string int bool | Released string | Created string | Other

inductive job_step ::
    "luxon \<Rightarrow> ('m, job) coll \<Rightarrow> ('m, 'd) coll \<Rightarrow> ('d \<Rightarrow> string) \<Rightarrow> ('r, 'm) world \<Rightarrow> job_event \<Rightarrow> ('r, 'm) world \<Rightarrow> bool"
  for L J D owner where
  claim: "inExt (claimDueJob J i now CLAIM_RECLAIM_AFTER_MS) w = (Inr r, w') \<Longrightarrow> job_step L J D owner w (Claimed i now (r \<noteq> None)) w'"
| release: "w' = snd (inExt (releaseClaim J now i n) w) \<Longrightarrow> job_step L J D owner w (Released i) w'"
| create: "w' = snd (createJob L J D owner now i u input w) \<Longrightarrow> job_step L J D owner w (Created i) w'"
| update: "w' = snd (updateJob L J D owner now u i patch w) \<Longrightarrow> job_step L J D owner w Other w'"
| delete: "w' = snd (inExt (deleteJob J u i) w) \<Longrightarrow> job_step L J D owner w Other w'"
| clear: "w' = snd (clearSchedules J now u w) \<Longrightarrow> job_step L J D owner w Other w'"
| record_run: "w' = snd (inExt (recordLastRun J now u i rs) w) \<Longrightarrow> job_step L J D owner w Other w'"
| read: "w' = snd (inExt (findDueJobs J now n) w) \<Longrightarrow> job_step L J D owner w Other w'"

inductive_cases job_stepE [elim]: "job_step L J D owner w e w'"
inductive_simps job_step_claim_iff: "job_step L J D owner w (Claimed i now b) w'"

inductive job_trace ::
    "luxon \<Rightarrow> ('m, job) coll \<Rightarrow> ('m, 'd) coll \<Rightarrow> ('d \<Rightarrow> string) \<Rightarrow> ('r, 'm) world \<Rightarrow> job_event list \<Rightarrow> ('r, 'm) world \<Rightarrow> bool"
  for L J D owner where
  stop: "job_trace L J D owner w [] w"
| step: "job_step L J D owner w e w' \<Longrightarrow> job_trace L J D owner w' es w'' \<Longrightarrow> job_trace L J D owner w (e # es) w''"

inductive_cases job_trace_ConsE: "job_trace L J D owner w (e # es) w'"

text \<open>
  The job collection beside the destinations: neither driver call touches the other's documents.
\<close>

locale job_db = jobs: collection_up J view for J :: "('m, job) coll" and view :: "'m \<Rightarrow> string \<Rightarrow> job option" +
  fixes D :: "('m, 'd) coll"
  assumes dest_leaves: "leaves_alone D view"
begin

lemmas dest_views [simp] = leaves_aloneD [OF dest_leaves]
lemmas job_sims = io_simps jobs.results jobs.views

lemma claim_result: "fst (claimDueJob J i now after m) =
    Inr (map_option (\<lambda>d. d\<lparr>jb_claimedAt := Some (to_iso now)\<rparr>) (hit (view m) i (claimable now after)))"
  by (simp add: claimDueJob_def jobs.results)

lemma claim_view: "view (snd (claimDueJob J i now after m)) = (case hit (view m) i (claimable now after) of
    Some d \<Rightarrow> (view m)(i \<mapsto> d\<lparr>jb_claimedAt := Some (to_iso now)\<rparr>) | None \<Rightarrow> view m)"
  by (simp add: claimDueJob_def jobs.views)

lemma release_view: "view (snd (releaseClaim J now i n m)) = (case view m i of
    Some d \<Rightarrow> (view m)(i \<mapsto> d\<lparr>jb_claimedAt := None, jb_nextRunAt := n, jb_updatedAt := to_iso now\<rparr>) | None \<Rightarrow> view m)"
  by (simp add: releaseClaim_def job_sims hit_def split: option.splits)

lemma owned_frame [simp]: "view (snd (assertOwnedDestination D owner u x m)) = view m"
  by (simp add: assertOwnedDestination_def io_simps split: sum.splits option.splits)

lemma auditM_frame [simp]: "w_ext (snd (auditM n fs w)) = w_ext w"
  by (simp add: io_simps)

end

context job_db
begin

lemma update_view_cases:
  "view (w_ext (snd (updateJob L J D owner now u i patch w))) = view (w_ext w) \<or>
   (\<exists>nr d. hit (view (w_ext w)) i (\<lambda>d. jb_userId d = u) = Some d \<and>
      nextRunFor L (or_old (pt_schedule patch) (jb_schedule d)) (or_old (pt_enabled patch) (jb_enabled d)) now = Inr nr \<and>
      view (w_ext (snd (updateJob L J D owner now u i patch w))) = (view (w_ext w))(i \<mapsto> applyPatch patch nr now d))"
  by (auto simp: updateJob_def job_sims Let_def hit_def split: sum.splits option.splits if_splits)

lemma create_view_cases:
  "view (w_ext (snd (createJob L J D owner now i u input w))) = view (w_ext w) \<or>
   (\<exists>nr. nextRunFor L (ji_schedule input) (ji_enabled input) now = Inr nr \<and>
      view (w_ext (snd (createJob L J D owner now i u input w))) = (view (w_ext w))(i \<mapsto> newJob i u input nr now))"
  by (auto simp: createJob_def job_sims Let_def split: sum.splits)

lemma forM_audit_frame: "w_ext (snd (forM xs (\<lambda>d. whenM (b d) (auditM (n d) (fs d))) w)) = w_ext w \<and>
    fst (forM xs (\<lambda>d. whenM (b d) (auditM (n d) (fs d))) w) = Inr ()"
  by (induction xs arbitrary: w) (auto simp: io_simps)

lemma clear_view:
  "view (w_ext (snd (clearSchedules J now u w))) = (\<lambda>i. map_option
     (\<lambda>d. if jb_userId d = u \<and> jb_schedule d \<noteq> None
          then d\<lparr>jb_updatedAt := to_iso now, jb_schedule := None, jb_nextRunAt := None\<rparr> else d) (view (w_ext w) i))"
proof -
  let ?mine = "\<lambda>d. jb_userId d = u \<and> jb_schedule d \<noteq> None"
  obtain ds where f: "fst (cl_find J ?mine (w_ext w)) = Inr ds" "set ds = {d \<in> ran (view (w_ext w)). ?mine d}"
    using jobs.find_result by blast
  show ?thesis
  proof (cases "ds = []")
    case True
    with f have none: "\<not> ?mine d" if "view (w_ext w) i = Some d" for i d using that by (auto simp: ran_def)
    have "view (w_ext w) i = map_option (\<lambda>d. if ?mine d
        then d\<lparr>jb_updatedAt := to_iso now, jb_schedule := None, jb_nextRunAt := None\<rparr> else d) (view (w_ext w) i)" for i
      using none [of i] by (cases "view (w_ext w) i") auto
    then show ?thesis using True f by (simp add: clearSchedules_def Let_def io_simps jobs.views fun_eq_iff)
  next
    case False
    with f show ?thesis
      by (simp add: clearSchedules_def Let_def job_sims forM_audit_frame [unfolded prod_eq_iff fst_conv] split: sum.splits)
  qed
qed

lemma other_views:
  "view (snd (findDueJobs J now n m)) = view m"
  "view (snd (recordLastRun J now u i rs m)) = (case hit (view m) i (\<lambda>d. jb_userId d = u) of
     Some d \<Rightarrow> (view m)(i \<mapsto> d\<lparr>jb_lastRun := Some rs, jb_updatedAt := to_iso now\<rparr>) | None \<Rightarrow> view m)"
  "view (snd (deleteJob J u i m)) =
     (if hit (view m) i (\<lambda>d. jb_userId d = u) = None then view m else (view m)(i := None))"
  by (auto simp: findDueJobs_def recordLastRun_def deleteJob_def job_sims split: sum.splits)

end

section \<open>The claim is exclusive\<close>

definition held :: "int \<Rightarrow> job option \<Rightarrow> bool" where
  "held t0 jo \<longleftrightarrow> (case jo of None \<Rightarrow> True | Some d \<Rightarrow> jb_claimedAt d = Some (to_iso t0))"

definition claim_clock :: "int \<Rightarrow> bool" where
  "claim_clock t \<longleftrightarrow> iso_range t \<and> iso_range (t - CLAIM_RECLAIM_AFTER_MS)"

text \<open>The events that hand a job back or make a new one, and its claims outside the reclaim window.\<close>

definition quiet_for :: "string \<Rightarrow> int \<Rightarrow> job_event \<Rightarrow> bool" where
  "quiet_for j t0 e \<longleftrightarrow> (case e of
     Claimed i now b \<Rightarrow> i \<noteq> j \<or> (claim_clock now \<and> now \<le> t0 + CLAIM_RECLAIM_AFTER_MS)
   | Released i \<Rightarrow> i \<noteq> j | Created i \<Rightarrow> i \<noteq> j | Other \<Rightarrow> True)"

context job_db
begin

lemma held_blocks:
  assumes "held t0 (view m j)" "claim_clock t0" "claim_clock now" "now \<le> t0 + CLAIM_RECLAIM_AFTER_MS"
  shows "hit (view m) j (claimable now CLAIM_RECLAIM_AFTER_MS) = None"
proof (cases "view m j")
  case (Some d)
  with assms have "\<not> to_iso t0 < to_iso (now - CLAIM_RECLAIM_AFTER_MS)" by (simp add: claim_clock_def iso_order)
  with Some assms(1) show ?thesis by (simp add: held_def hit_def claimable_def)
qed (simp add: hit_def)

lemma step_keeps_held:
  assumes "job_step L J D owner w e w'" "held t0 (view (w_ext w) j)" "quiet_for j t0 e" "claim_clock t0"
  shows "held t0 (view (w_ext w') j) \<and> (\<forall>now b. e = Claimed j now b \<longrightarrow> \<not> b)"
  using assms(1)
proof cases
  case (claim i now r)
  show ?thesis
  proof (cases "i = j")
    case True
    with claim assms have "hit (view (w_ext w)) j (claimable now CLAIM_RECLAIM_AFTER_MS) = None"
      by (intro held_blocks [of t0]) (auto simp: quiet_for_def)
    with claim True assms(2) show ?thesis by (auto simp: inExt_def claim_result claim_view)
  next
    case False
    with claim assms(2) show ?thesis by (auto simp: inExt_def claim_view split: option.splits)
  qed
next
  case (create now i u input)
  then have "i \<noteq> j" using assms(3) by (simp add: quiet_for_def)
  with create create_view_cases [where L = L and owner = owner and now = now and i = i and u = u and input = input and w = w] assms(2) show ?thesis by auto
next
  case (update now u i patch)
  with update_view_cases [of L owner now u i patch w] assms(2) show ?thesis
    by (auto simp: held_def hit_def applyPatch_def split: option.splits if_splits)
qed (use assms(2,3) in \<open>auto simp: held_def hit_def quiet_for_def release_view clear_view other_views
        inExt_def split: option.splits if_splits\<close>)

end

context job_db
begin

lemma trace_keeps_held:
  assumes "job_trace L J D owner w es w'" "held t0 (view (w_ext w) j)" "\<forall>e \<in> set es. quiet_for j t0 e" "claim_clock t0"
  shows "held t0 (view (w_ext w') j) \<and> (\<forall>now b. Claimed j now b \<in> set es \<longrightarrow> \<not> b)"
  using assms(1-3)
proof induction
  case (step w e w' es w'')
  with step_keeps_held [OF step.hyps(1) step.prems(1) _ assms(4)] show ?case by auto
qed simp

lemma claim_takes:
  assumes "job_step L J D owner w (Claimed j t0 b) w'" "view (w_ext w) j = Some d" "claimable t0 CLAIM_RECLAIM_AFTER_MS d"
  shows "b \<and> held t0 (view (w_ext w') j)"
  using assms by (auto simp: job_step_claim_iff inExt_def claim_result claim_view hit_def held_def)

end

section \<open>A job is due only while it is scheduled\<close>

definition job_ok :: "job \<Rightarrow> bool" where
  "job_ok d \<longleftrightarrow> (jb_nextRunAt d \<noteq> None \<longrightarrow> jb_enabled d \<and> jb_schedule d \<noteq> None)"

definition jobs_ok :: "(string \<Rightarrow> job option) \<Rightarrow> bool" where
  "jobs_ok v \<longleftrightarrow> (\<forall>i d. v i = Some d \<longrightarrow> job_ok d)"

lemma nextRunFor_ok: "nextRunFor L sch en now = Inr (Some n) \<Longrightarrow> en \<and> (\<exists>s. sch = Some s)"
  by (auto simp: nextRunFor_def split: option.splits if_splits sum.splits)

lemma jobs_ok_upd: "jobs_ok v \<Longrightarrow> job_ok d \<Longrightarrow> jobs_ok (v(i \<mapsto> d))"
  by (simp add: jobs_ok_def)

lemma jobs_ok_edit:
  "jobs_ok v \<Longrightarrow> (\<And>d. job_ok d \<Longrightarrow> job_ok (f d)) \<Longrightarrow> jobs_ok (case hit v i p of Some d \<Rightarrow> v(i \<mapsto> f d) | None \<Rightarrow> v)"
  by (auto simp: jobs_ok_def hit_def split: option.splits if_splits)

context job_db
begin

lemma step_keeps_ok:
  assumes "job_step L J D owner w e w'" "\<And>i. e \<noteq> Released i" "jobs_ok (view (w_ext w))"
  shows "jobs_ok (view (w_ext w'))"
  using assms(1)
proof cases
  case (claim i now r)
  with assms(3) show ?thesis
    by (auto simp: inExt_def claim_view job_ok_def intro!: jobs_ok_edit)
next
  case (create now i u input)
  with create_view_cases [where L = L and owner = owner and now = now and i = i and u = u and input = input and w = w] assms(3)
  show ?thesis by (auto intro!: jobs_ok_upd dest!: nextRunFor_ok simp: job_ok_def newJob_def)
next
  case (update now u i patch)
  with update_view_cases [of L owner now u i patch w] assms(3) show ?thesis
    by (auto intro!: jobs_ok_upd dest!: nextRunFor_ok simp: job_ok_def applyPatch_def)
next
  case (record_run now u i rs)
  with assms(3) show ?thesis
    by (auto simp: inExt_def other_views job_ok_def intro!: jobs_ok_edit)
next
  case (clear now u)
  with assms(3) show ?thesis by (auto simp: clear_view jobs_ok_def job_ok_def)
qed (use assms(2,3) in \<open>auto simp: jobs_ok_def inExt_def other_views split: if_splits\<close>)

lemma foreign_missing:
  assumes "hit (view (w_ext w)) i (\<lambda>d. jb_userId d = u) = None" "pt_destinationId patch = None"
  shows "fst (getJob J u i (w_ext w)) = Inr None"
    "fst (deleteJob J u i (w_ext w)) = Inr False" "view (snd (deleteJob J u i (w_ext w))) = view (w_ext w)"
    "fst (updateJob L J D owner now u i patch w) = (case assertKeepLast (pt_keepLast patch) of Inl e \<Rightarrow> Inl e
       | Inr _ \<Rightarrow> (case assertSchedule L (or_old (pt_schedule patch) None) of Inl e \<Rightarrow> Inl e | Inr _ \<Rightarrow> Inr None))"
    "view (w_ext (snd (updateJob L J D owner now u i patch w))) = view (w_ext w)"
    "w_audits (snd (updateJob L J D owner now u i patch w)) = w_audits w"
  using assms by (auto simp: getJob_def deleteJob_def updateJob_def job_sims split: sum.splits)

lemma foreign_destination:
  assumes "collection_up D viewD" "hit (viewD (w_ext w)) (ji_destinationId input) (\<lambda>d. owner d = u) = None"
  shows "fst (createJob L J D owner now i u input w) = (case assertKeepLast (Some (ji_keepLast input)) of Inl e \<Rightarrow> Inl e
       | Inr _ \<Rightarrow> (case assertSchedule L (ji_schedule input) of Inl e \<Rightarrow> Inl e
       | Inr _ \<Rightarrow> Inl (BackupJobInputError ''That destination does not exist'')))"
    "view (w_ext (snd (createJob L J D owner now i u input w))) = view (w_ext w)"
  using assms(2) by (auto simp: createJob_def assertOwnedDestination_def job_sims collection_up.findOne_result [OF assms(1)]
      split: sum.splits)

lemma foreign_destination_patch:
  assumes "collection_up D viewD" "pt_destinationId patch = Some dest" "dest \<noteq> []"
    "hit (viewD (w_ext w)) dest (\<lambda>d. owner d = u) = None"
  shows "view (w_ext (snd (updateJob L J D owner now u i patch w))) = view (w_ext w)"
    "\<exists>e. fst (updateJob L J D owner now u i patch w) = Inl e"
  using assms(2-4) by (auto simp: updateJob_def assertOwnedDestination_def job_sims collection_up.findOne_result [OF assms(1)]
      split: sum.splits)

end

section \<open>Properties\<close>

text \<open>C22: However many instances try to claim a due job, in whatever order and interleaved with any other
  work on the jobs (edits, deletions, schedule changes, run records), the first attempt wins and every
  other one within the reclaim window loses, until the job is handed back.\<close>

theorem claim_exactly_once:
  assumes "job_db J view D" "view (w_ext w) j = Some d" "claimable t0 CLAIM_RECLAIM_AFTER_MS d" "claim_clock t0"
    and "job_step L J D owner w (Claimed j t0 b) w1" "job_trace L J D owner w1 es w2" "\<forall>e \<in> set es. quiet_for j t0 e"
  shows "b \<and> (\<forall>now b'. Claimed j now b' \<in> set es \<longrightarrow> \<not> b')"
  using job_db.claim_takes [OF assms(1,5,2,3)] job_db.trace_keeps_held [OF assms(1,6) _ assms(7,4)] by blast

text \<open>The reference: jobs and destinations (by their owner) side by side.\<close>

definition ref_jobs :: "(job docs \<times> string docs, job) coll" where "ref_jobs = part_of fst apfst ref_coll"
definition ref_dests :: "(job docs \<times> string docs, string) coll" where "ref_dests = part_of snd apsnd ref_coll"

interpretation ref_jobs: job_db ref_jobs "\<lambda>m. doc_view (fst m)" ref_dests
  by (intro job_db.intro job_db_axioms.intro)
    (simp_all add: ref_jobs_def ref_dests_def part_of_leaves_alone part_of_up [OF ref_coll.collection_up_axioms])

definition due_job :: job where
  "due_job = \<lparr>jb_id = ''j'', jb_userId = ''u'', jb_destinationId = ''d'', jb_label = ''Nightly'', jb_collectionIds = [],
     jb_schedule = Some month_end, jb_keepLast = 5, jb_enabled = True, jb_nextRunAt = Some (to_iso 1700000000000),
     jb_claimedAt = None, jb_lastRun = None, jb_createdAt = to_iso 1690000000000, jb_updatedAt = to_iso 1690000000000\<rparr>"

definition due_world :: "(unit, job docs \<times> string docs) world" where
  "due_world = \<lparr>w_redis = (), w_audits = [], w_ext = ([(''j'', due_job)], [(''d'', ''u'')])\<rparr>"

lemma demo_clock: "0 \<le> t \<Longrightarrow> t < 100000000000000 \<Longrightarrow> iso_range t"
  by (rule iso_range_of_bounds) (simp_all add: day_from_year_def ms_per_day_def)

theorem claim_exactly_once_witness:
  "fst (claimDueJob ref_jobs ''j'' 1700000060000 CLAIM_RECLAIM_AFTER_MS
     (snd (claimDueJob ref_jobs ''j'' 1700000050000 CLAIM_RECLAIM_AFTER_MS (w_ext due_world)))) = Inr None"
proof -
  let ?w1 = "snd (inExt (claimDueJob ref_jobs ''j'' 1700000050000 CLAIM_RECLAIM_AFTER_MS) due_world)"
  let ?r = "fst (claimDueJob ref_jobs ''j'' 1700000050000 CLAIM_RECLAIM_AFTER_MS (w_ext due_world))"
  let ?s = "fst (claimDueJob ref_jobs ''j'' 1700000060000 CLAIM_RECLAIM_AFTER_MS (w_ext ?w1))"
  have due: "claimable 1700000050000 CLAIM_RECLAIM_AFTER_MS due_job"
    using to_iso_le_iff [of 1700000000000 1700000050000] demo_clock
    by (simp add: claimable_def dueFilter_def due_job_def)
  have clock: "claim_clock 1700000050000" "claim_clock 1700000060000"
    by (simp_all add: claim_clock_def demo_clock CLAIM_RECLAIM_AFTER_MS_def)
  obtain r1 r2 where r: "?r = Inr r1" "?s = Inr r2" using ref_jobs.claim_result by metis
  have s1: "job_step utc_luxon ref_jobs ref_dests id due_world (Claimed ''j'' 1700000050000 (r1 \<noteq> None)) ?w1"
    using r by (intro job_step.claim) (simp add: inExt_def)
  have "job_step utc_luxon ref_jobs ref_dests id ?w1 (Claimed ''j'' 1700000060000 (r2 \<noteq> None))
      (snd (inExt (claimDueJob ref_jobs ''j'' 1700000060000 CLAIM_RECLAIM_AFTER_MS) ?w1))"
    using r by (intro job_step.claim) (simp add: inExt_def)
  then have tr: "job_trace utc_luxon ref_jobs ref_dests id ?w1 [Claimed ''j'' 1700000060000 (r2 \<noteq> None)]
      (snd (inExt (claimDueJob ref_jobs ''j'' 1700000060000 CLAIM_RECLAIM_AFTER_MS) ?w1))"
    by (blast intro: job_trace.intros)
  have "doc_view (fst (w_ext due_world)) ''j'' = Some due_job" by (simp add: due_world_def doc_view_def)
  then have "r2 = None"
    using claim_exactly_once [OF ref_jobs.job_db_axioms _ due clock(1) s1 tr] clock(2)
    by (auto simp: quiet_for_def CLAIM_RECLAIM_AFTER_MS_def)
  with r show ?thesis by (simp add: inExt_def)
qed



text \<open>For a user who does not own a job, it might as well not exist: reading it, deleting it and
  patching it give exactly the answers of a missing job, and change no document and no audit trail.\<close>
theorem foreign_job_unreachable:
  assumes "job_db J view D" "hit (view (w_ext w)) i (\<lambda>d. jb_userId d = u) = None" "pt_destinationId patch = None"
  shows "fst (getJob J u i (w_ext w)) = Inr None \<and> fst (deleteJob J u i (w_ext w)) = Inr False \<and>
    view (snd (deleteJob J u i (w_ext w))) = view (w_ext w) \<and>
    fst (updateJob L J D owner now u i patch w) = (case assertKeepLast (pt_keepLast patch) of Inl e \<Rightarrow> Inl e
       | Inr _ \<Rightarrow> (case assertSchedule L (or_old (pt_schedule patch) None) of Inl e \<Rightarrow> Inl e | Inr _ \<Rightarrow> Inr None)) \<and>
    view (w_ext (snd (updateJob L J D owner now u i patch w))) = view (w_ext w) \<and>
    w_audits (snd (updateJob L J D owner now u i patch w)) = w_audits w"
  using job_db.foreign_missing [OF assms] by simp

theorem foreign_job_unreachable_witness:
  "fst (deleteJob ref_jobs ''intruder'' ''j'' (w_ext due_world)) = Inr False"
  using foreign_job_unreachable [OF ref_jobs.job_db_axioms, where w = due_world and i = "''j''" and u = "''intruder''"
      and patch = "\<lparr>pt_destinationId = None, pt_label = Some ''mine'', pt_collectionIds = None, pt_keepLast = None,
        pt_enabled = None, pt_schedule = None\<rparr>"]
  by (simp add: hit_def doc_view_def due_world_def due_job_def)

text \<open>A job can only be aimed at a destination of the same user: creating a job for any other one,
  or repointing an existing job at it, fails and changes no job, with the same answer whether the
  destination belongs to someone else or does not exist.\<close>
theorem foreign_destination_refused:
  assumes "job_db J view D" "collection_up D viewD"
    and "hit (viewD (w_ext w)) (ji_destinationId input) (\<lambda>d. owner d = u) = None"
    and "pt_destinationId patch = Some (ji_destinationId input)" "ji_destinationId input \<noteq> []"
  shows "fst (createJob L J D owner now i u input w) = (case assertKeepLast (Some (ji_keepLast input)) of Inl e \<Rightarrow> Inl e
       | Inr _ \<Rightarrow> (case assertSchedule L (ji_schedule input) of Inl e \<Rightarrow> Inl e
       | Inr _ \<Rightarrow> Inl (BackupJobInputError ''That destination does not exist''))) \<and>
    view (w_ext (snd (createJob L J D owner now i u input w))) = view (w_ext w) \<and>
    (\<exists>e. fst (updateJob L J D owner now u j patch w) = Inl e) \<and>
    view (w_ext (snd (updateJob L J D owner now u j patch w))) = view (w_ext w)"
  using job_db.foreign_destination [OF assms(1-3)] job_db.foreign_destination_patch [OF assms(1,2,4,5,3)] by simp

lemma ref_dests_up: "collection_up ref_dests (\<lambda>m. doc_view (snd m))"
  by (simp add: ref_dests_def part_of_up [OF ref_coll.collection_up_axioms])

definition steal_input :: job_input where
  "steal_input = \<lparr>ji_destinationId = ''d'', ji_label = ''Copy'', ji_collectionIds = [], ji_keepLast = 3, ji_enabled = True,
     ji_schedule = None\<rparr>"

theorem foreign_destination_refused_witness:
  "fst (createJob utc_luxon ref_jobs ref_dests id 1700000050000 ''n'' ''intruder'' steal_input due_world) =
     Inl (BackupJobInputError ''That destination does not exist'')"
  using foreign_destination_refused [OF ref_jobs.job_db_axioms ref_dests_up, where w = due_world and input = steal_input
      and u = "''intruder''" and owner = id and L = utc_luxon and now = 1700000050000 and i = "''n''" and j = "''j''"
      and patch = "\<lparr>pt_destinationId = Some ''d'', pt_label = None, pt_collectionIds = None, pt_keepLast = None,
        pt_enabled = None, pt_schedule = None\<rparr>"]
  by (simp add: hit_def doc_view_def due_world_def steal_input_def assertKeepLast_def assertSchedule_def
      KEEP_LAST_MIN_def KEEP_LAST_MAX_def)

end
