(* ===== verification/Run_Store.thy ===== *)
theory Run_Store
  imports Job_Store
begin

text \<open>
  \<open>bff-server/backup-run-store.ts\<close>: the run history. A run record is a document of its own collection; it is
  inserted as running and finished by one update. The artifact key is set by a successful finish alone.
\<close>

record backup_run =
  br_id :: string
  br_userId :: string
  br_jobId :: string
  br_trigger :: string
  br_status :: string
  br_startedAt :: string
  br_finishedAt :: "string option"
  br_artifactKey :: "string option"
  br_artifactBytes :: "int option"
  br_collectionCounts :: "collection_count list"
  br_failureReason :: "string option"
  br_prunedCount :: "int option"
  br_pruneFailureReason :: "string option"
  br_expiresAt :: int

record run_patch =
  fp_status :: string
  fp_artifactKey :: "string option"
  fp_artifactBytes :: "int option"
  fp_collectionCounts :: "collection_count list option"
  fp_failureReason :: "string option"
  fp_prunedCount :: "int option"
  fp_pruneFailureReason :: "string option"

definition RUN_HISTORY_TTL_MS :: int where "RUN_HISTORY_TTL_MS = 180 * 24 * 60 * 60 * 1000"

definition newRun :: "string \<Rightarrow> int \<Rightarrow> string \<Rightarrow> string \<Rightarrow> string \<Rightarrow> backup_run" where
  "newRun freshId now uid jobId trigger = \<lparr>br_id = freshId, br_userId = uid, br_jobId = jobId, br_trigger = trigger,
     br_status = ''running'', br_startedAt = to_iso now, br_finishedAt = None, br_artifactKey = None,
     br_artifactBytes = None, br_collectionCounts = [], br_failureReason = None, br_prunedCount = None,
     br_pruneFailureReason = None, br_expiresAt = now + RUN_HISTORY_TTL_MS\<rparr>"

definition startRun ::
    "('m, backup_run) coll \<Rightarrow> string \<Rightarrow> int \<Rightarrow> string \<Rightarrow> string \<Rightarrow> string \<Rightarrow> ('r, 'm, backup_run) act" where
  "startRun Rn freshId now uid jobId trigger = (let run = newRun freshId now uid jobId trigger in
     thenM (inExt (cl_insert Rn freshId run))
    (thenM (auditM ''backup_run_started'' [(''userId'', uid), (''jobId'', jobId), (''runId'', freshId), (''trigger'', trigger)])
           (returnM run)))"

definition keep_if_absent :: "'a option \<Rightarrow> 'a option \<Rightarrow> 'a option" where
  "keep_if_absent new old = (case new of Some v \<Rightarrow> Some v | None \<Rightarrow> old)"

definition patchRun :: "run_patch \<Rightarrow> int \<Rightarrow> backup_run \<Rightarrow> backup_run" where
  "patchRun p now d = d\<lparr>br_status := fp_status p,
     br_artifactKey := keep_if_absent (fp_artifactKey p) (br_artifactKey d),
     br_artifactBytes := keep_if_absent (fp_artifactBytes p) (br_artifactBytes d),
     br_collectionCounts := or_old (fp_collectionCounts p) (br_collectionCounts d),
     br_failureReason := keep_if_absent (fp_failureReason p) (br_failureReason d),
     br_prunedCount := keep_if_absent (fp_prunedCount p) (br_prunedCount d),
     br_pruneFailureReason := keep_if_absent (fp_pruneFailureReason p) (br_pruneFailureReason d),
     br_finishedAt := Some (to_iso now)\<rparr>"

definition finishRun :: "('m, backup_run) coll \<Rightarrow> int \<Rightarrow> string \<Rightarrow> run_patch \<Rightarrow> ('m, backup_run option) io" where
  "finishRun Rn now runId patch = cl_update Rn runId (\<lambda>_. True) (patchRun patch now)"

text \<open>Newest first: sorted by start, descending; equal starts keep the cursor's order.\<close>

definition listRuns :: "('m, backup_run) coll \<Rightarrow> string \<Rightarrow> string \<Rightarrow> nat \<Rightarrow> ('m, backup_run list) io" where
  "listRuns Rn uid jobId limit_n = bindM (cl_find Rn (\<lambda>d. br_userId d = uid \<and> br_jobId d = jobId)) (\<lambda>ds.
     returnM (take limit_n (rev (sort_key br_startedAt (rev ds)))))"

definition getRun :: "('m, backup_run) coll \<Rightarrow> string \<Rightarrow> string \<Rightarrow> ('m, backup_run option) io" where
  "getRun Rn uid runId = cl_findOne Rn runId (\<lambda>d. br_userId d = uid)"

definition failed_patch :: "string \<Rightarrow> run_patch" where
  "failed_patch reason = \<lparr>fp_status = ''failed'', fp_artifactKey = None, fp_artifactBytes = None, fp_collectionCounts = None,
     fp_failureReason = Some reason, fp_prunedCount = None, fp_pruneFailureReason = None\<rparr>"

text \<open>A failed run never carries an artifact key: it starts without one and a failed finish sets none.\<close>

lemma failed_run_has_no_artifact:
  "br_artifactKey (patchRun (failed_patch reason) later (newRun i now u j t)) = None \<and>
   br_failureReason (patchRun (failed_patch reason) later (newRun i now u j t)) = Some reason"
  by (simp add: patchRun_def failed_patch_def newRun_def keep_if_absent_def)

end
