(* ===== verification/Js_Value.thy ===== *)
theory Js_Value
  imports Codec
begin

text \<open>
  What JavaScript does with a parsed JSON value the code has not checked: truthiness, \<open>===\<close>, conversion to
  text, the \<open>length\<close> member and the \<open>+\<close> operator. Two parsed objects are never the same reference. \<open>JUndef\<close>
  also stands for \<open>NaN\<close> as the result of an addition; sums of numbers other than integers are out of the model
  and read as \<open>NaN\<close>.
\<close>

definition js_truthy :: "json \<Rightarrow> bool" where
  "js_truthy j = (case j of JNull \<Rightarrow> False | JUndef \<Rightarrow> False | JBool b \<Rightarrow> b
     | JNum t \<Rightarrow> js_parse_float t \<noteq> Some 0 | JStr s \<Rightarrow> s \<noteq> [] | _ \<Rightarrow> True)"

definition js_strict_eq :: "json \<Rightarrow> json \<Rightarrow> bool" where
  "js_strict_eq a b = (case (a, b) of
     (JNum s, JNum t) \<Rightarrow> js_parse_float s \<noteq> None \<and> js_parse_float s = js_parse_float t
   | (JArr xs, _) \<Rightarrow> False | (JObj es, _) \<Rightarrow> False
   | _ \<Rightarrow> a = b)"

fun js_to_string :: "json \<Rightarrow> string" where
  "js_to_string JNull = ''null''"
| "js_to_string JUndef = ''undefined''"
| "js_to_string (JBool b) = (if b then ''true'' else ''false'')"
| "js_to_string (JNum t) = t"
| "js_to_string (JStr s) = s"
| "js_to_string (JArr xs) = js_join '','' (map (\<lambda>x. if x = JNull \<or> x = JUndef then [] else js_to_string x) xs)"
| "js_to_string (JObj es) = ''[object Object]''"

text \<open>\<open>x.length\<close>: of an array or a text its length, of an object the member of that name.\<close>

definition js_length :: "json \<Rightarrow> exn + json" where
  "js_length j = (case j of JNull \<Rightarrow> Inl typeError | JUndef \<Rightarrow> Inl typeError
     | JArr xs \<Rightarrow> Inr (JNum (show_nat (length xs))) | JStr s \<Rightarrow> Inr (JNum (show_nat (length s)))
     | _ \<Rightarrow> Inr (json_member j ''length''))"

definition js_addend :: "json \<Rightarrow> int option" where
  "js_addend j = (case j of JNum t \<Rightarrow> read_int t | JNull \<Rightarrow> Some 0 | JBool b \<Rightarrow> Some (if b then 1 else 0) | _ \<Rightarrow> None)"

definition js_plus :: "json \<Rightarrow> json \<Rightarrow> json" where
  "js_plus a b = (if (case a of JStr s \<Rightarrow> True | JArr xs \<Rightarrow> True | JObj es \<Rightarrow> True | _ \<Rightarrow> False) \<or>
                     (case b of JStr s \<Rightarrow> True | JArr xs \<Rightarrow> True | JObj es \<Rightarrow> True | _ \<Rightarrow> False)
     then JStr (js_to_string a @ js_to_string b)
     else (case (js_addend a, js_addend b) of (Some x, Some y) \<Rightarrow> JNum (show_int (x + y)) | _ \<Rightarrow> JUndef))"

lemma js_plus_ints [simp]: "js_plus (JNum (show_int x)) (JNum (show_int y)) = JNum (show_int (x + y))"
  by (simp add: js_plus_def js_addend_def)

lemma show_nat_int: "show_nat n = show_int (int n)"
  by (simp add: show_int_def)

lemma js_length_array [simp]: "js_length (JArr xs) = Inr (JNum (show_int (int (length xs))))"
  by (simp add: js_length_def show_nat_int)

lemma takeWhile_digits [simp]: "takeWhile is_digit (show_nat n) = show_nat n" "dropWhile is_digit (show_nat n) = []"
  using show_nat_digits [of n] by (simp_all add: takeWhile_eq_all_conv dropWhile_eq_Nil_conv)

lemma js_parse_float_show_int [simp]: "js_parse_float (show_int i) = Some (of_int i)"
proof -
  have sp: "js_trim_start (show_nat n) = show_nat n" for n
    using show_nat_digits [of n]
    by (cases "show_nat n") (auto simp: js_trim_start_def is_js_space_def is_digit_def Let_def)
  have sg: "strip_sign (show_nat n) = (False, show_nat n)" for n
    using show_nat_digits [of n] by (cases "show_nat n") (auto simp: strip_sign_def is_digit_def)
  show ?thesis
  proof (cases "i < 0")
    case True
    have "js_trim_start (CHR ''-'' # s) = CHR ''-'' # s" for s by (simp add: js_trim_start_def is_js_space_def)
    with True show ?thesis by (simp add: js_parse_float_def show_int_def strip_sign_def js_exponent_def Let_def)
  next
    case False
    then show ?thesis by (simp add: js_parse_float_def show_int_def sp sg js_exponent_def Let_def)
  qed
qed

lemma js_strict_eq_ints [simp]: "js_strict_eq (JNum (show_int i)) (JNum (show_int j)) \<longleftrightarrow> i = j"
  by (simp add: js_strict_eq_def)

lemma js_strict_eq_text [simp]: "js_strict_eq (JStr s) j \<longleftrightarrow> j = JStr s" "js_strict_eq j (JStr s) \<longleftrightarrow> j = JStr s"
  by (auto simp: js_strict_eq_def split: json.splits)

end
