(* ===== verification/Mc_Client.thy ===== *)
theory Mc_Client
  imports Js_Value
begin

text \<open>
  \<open>bff-server/mc-service-client.ts\<close>: the client of the movie service a request makes for its own user. axios is
  the parameter \<open>send\<close>, a request to a response over the state \<open>'x\<close>; as documented it rejects a response outside
  2xx with an error that carries the status and the body, and hands over a body that is not JSON as text. The
  interceptor only logs.
\<close>

record 'x mc_client =
  mc_get :: "string \<Rightarrow> (string \<times> string) list \<Rightarrow> ('x, json) io"
  mc_post :: "string \<Rightarrow> json \<Rightarrow> ('x, json) io"
  mc_delete :: "string \<Rightarrow> ('x, json) io"

definition axios_data :: "http_response \<Rightarrow> json" where
  "axios_data res = (case json_parse (rs_body res) of Some j \<Rightarrow> j | None \<Rightarrow> JStr (rs_body res))"

definition problem_title :: "json \<Rightarrow> string option" where
  "problem_title d = optional_text (json_member d ''title'')"

definition axios_call :: "'x http \<Rightarrow> http_request \<Rightarrow> ('x, json) io" where
  "axios_call send rq = bindM (send rq) (\<lambda>res.
     if http_ok res then returnM (axios_data res)
     else throwM (HttpError (rs_status res) (problem_title (axios_data res))))"

definition query_text :: "(string \<times> string) list \<Rightarrow> string" where
  "query_text ps = (if ps = [] then [] else ''?'' @ js_join ''&'' (map (\<lambda>(k, v). k @ ''='' @ encodeURIComponent v) ps))"

definition createMcServiceClient :: "env \<Rightarrow> 'x http \<Rightarrow> string \<Rightarrow> 'x mc_client" where
  "createMcServiceClient E send jwt =
    (let call = (\<lambda>meth path body. axios_call send \<lparr>rq_method = meth, rq_url = mcServiceUrl E @ path,
           rq_headers = [(''Content-Type'', ''application/json''), (''Authorization'', ''Bearer '' @ jwt)], rq_body = body\<rparr>)
     in \<lparr>mc_get = (\<lambda>path ps. call ''GET'' (path @ query_text ps) BNone),
         mc_post = (\<lambda>path j. call ''POST'' path (BText (stringify j))),
         mc_delete = (\<lambda>path. call ''DELETE'' path BNone)\<rparr>)"

text \<open>\<open>(err as ...).response?.status\<close> in a handler.\<close>

definition response_status :: "exn \<Rightarrow> int option" where
  "response_status e = (case e of HttpError st t \<Rightarrow> Some st | _ \<Rightarrow> None)"

text \<open>Every request of a client carries the token it was made for, and nothing else authenticates it.\<close>

lemma client_identity:
  assumes "\<And>rq. (''Authorization'', ''Bearer '' @ jwt) \<in> set (rq_headers rq) \<Longrightarrow> send rq = send' rq"
  shows "createMcServiceClient E send jwt = createMcServiceClient E send' jwt"
  using assms by (simp add: createMcServiceClient_def axios_call_def Let_def)

end
