(* ===== verification/Artifact.thy ===== *)
theory Artifact
  imports Js_Value Token_Service
begin

text \<open>
  \<open>bff-server/backup-artifact.ts\<close>: building, hashing, compressing, reading and verifying the backup artifact.
  gzip is Node's \<open>zlib\<close>, a parameter; the hash is the one of \<open>crypto\<close>. A parsed artifact is an unchecked JSON
  value, and the reads the verification does on it are those of \<open>Js_Value\<close>. The typographic apostrophe of two
  messages is written in ASCII.
\<close>

record zlib =
  zl_gzip :: "string \<Rightarrow> string"
  zl_gunzip :: "string \<Rightarrow> string option"

record acoll =
  ac_id :: string
  ac_name :: string
  ac_description :: "string option"
  ac_movies :: "json list"

definition BACKUP_FORMAT_VERSION :: string where "BACKUP_FORMAT_VERSION = ''1''"

definition hex_text :: "string \<Rightarrow> string" where
  "hex_text bs = concat (map (\<lambda>c. [hex_char (of_char c div 16), hex_char (of_char c mod 16)]) bs)"

definition coll_json :: "acoll \<Rightarrow> json" where
  "coll_json c = JObj [(''id'', JStr (ac_id c)), (''name'', JStr (ac_name c)),
     (''description'', case ac_description c of Some d \<Rightarrow> JStr d | None \<Rightarrow> JUndef), (''movies'', JArr (ac_movies c))]"

definition digestOf :: "crypto \<Rightarrow> json list \<Rightarrow> string" where
  "digestOf C cs = hex_text (cr_sha256 C (utf8_encode (canonical_json (JArr cs))))"

definition countsOf :: "acoll list \<Rightarrow> json" where
  "countsOf cs = JArr (map (\<lambda>c. JObj [(''id'', JStr (ac_id c)), (''name'', JStr (ac_name c)),
     (''movieCount'', JNum (show_int (int (length (ac_movies c)))))]) cs)"

definition total_movies :: "acoll list \<Rightarrow> int" where
  "total_movies cs = int (sum_list (map (\<lambda>c. length (ac_movies c)) cs))"

definition buildArtifact :: "crypto \<Rightarrow> string \<Rightarrow> acoll list \<Rightarrow> string \<Rightarrow> json" where
  "buildArtifact C jobId cs createdAt = JObj
     [(''manifest'', JObj [(''formatVersion'', JNum BACKUP_FORMAT_VERSION), (''createdAt'', JStr createdAt),
        (''jobId'', JStr jobId), (''collections'', countsOf cs), (''totalMovieCount'', JNum (show_int (total_movies cs))),
        (''sha256'', JStr (digestOf C (map coll_json cs)))]),
      (''collections'', JArr (map coll_json cs))]"

definition compressArtifact :: "zlib \<Rightarrow> json \<Rightarrow> string" where
  "compressArtifact Z a = zl_gzip Z (utf8_encode (stringify a))"

definition notReadable :: exn where
  "notReadable = ArtifactVerificationError ''That backup is not readable as a backup file''"

definition decompressArtifact :: "zlib \<Rightarrow> string \<Rightarrow> exn + json" where
  "decompressArtifact Z compressed = (case zl_gunzip Z compressed of
     None \<Rightarrow> Inl (ArtifactVerificationError ''That backup could not be decompressed: Error'')
   | Some t \<Rightarrow> (case json_parse (utf8_decode t) of None \<Rightarrow> Inl notReadable | Some j \<Rightarrow> Inr j))"

section \<open>Verification\<close>

definition manifestMismatch :: exn where
  "manifestMismatch = ArtifactVerificationError (''That backup'' @ [CHR 0x27] @ ''s manifest does not match its contents'')"

text \<open>\<open>collections.find((c) => c.id === declared.id)\<close>: an element that is \<open>null\<close> throws.\<close>

fun findById :: "json list \<Rightarrow> json \<Rightarrow> exn + json" where
  "findById [] declared = Inr JUndef"
| "findById (c # cs) declared = bindE (member c ''id'') (\<lambda>i. bindE (member declared ''id'') (\<lambda>d.
     if js_strict_eq i d then Inr c else findById cs declared))"

definition checkDeclared :: "json list \<Rightarrow> json \<Rightarrow> exn + unit" where
  "checkDeclared collections declared = bindE (findById collections declared) (\<lambda>actual.
     if \<not> js_truthy actual then Inl manifestMismatch
     else bindE (js_length (json_member actual ''movies'')) (\<lambda>n.
       if \<not> js_strict_eq n (json_member declared ''movieCount'') then Inl manifestMismatch else Inr ()))"

fun checkAll :: "json list \<Rightarrow> json list \<Rightarrow> exn + unit" where
  "checkAll collections [] = Inr ()"
| "checkAll collections (d # ds) = bindE (checkDeclared collections d) (\<lambda>_. checkAll collections ds)"

fun totalActual :: "json \<Rightarrow> json list \<Rightarrow> exn + json" where
  "totalActual n [] = Inr n"
| "totalActual n (c # cs) = bindE (member c ''movies'') (\<lambda>ms. bindE (js_length ms) (\<lambda>l. totalActual (js_plus n l) cs))"

definition verifyArtifact :: "crypto \<Rightarrow> json \<Rightarrow> exn + unit" where
  "verifyArtifact C artifact = (case (artifact, json_member artifact ''collections'') of
     (JObj es, JArr collections) \<Rightarrow>
       (let manifest = json_member artifact ''manifest'' in
        if \<not> js_truthy manifest then Inl notReadable
        else if \<not> js_strict_eq (json_member manifest ''formatVersion'') (JNum BACKUP_FORMAT_VERSION)
        then Inl (ArtifactVerificationError (''That backup is in format version ''
           @ js_to_string (json_member manifest ''formatVersion'') @ '', which this version of MCM does not understand''))
        else (case json_member manifest ''collections'' of
           JArr declared \<Rightarrow>
             if length declared \<noteq> length collections
             then Inl (ArtifactVerificationError (''That backup'' @ [CHR 0x27] @ ''s manifest does not describe its contents''))
             else bindE (checkAll collections declared) (\<lambda>_.
                  bindE (totalActual (JNum (show_int 0)) collections) (\<lambda>total.
                  if total = JUndef \<or> \<not> js_strict_eq (json_member manifest ''totalMovieCount'') total
                  then Inl manifestMismatch
                  else if \<not> js_strict_eq (JStr (digestOf C collections)) (json_member manifest ''sha256'')
                  then Inl (ArtifactVerificationError ''That backup failed its integrity check and was not restored'')
                  else Inr ()))
         | _ \<Rightarrow> Inl (ArtifactVerificationError (''That backup'' @ [CHR 0x27] @ ''s manifest does not describe its contents''))))
   | _ \<Rightarrow> Inl notReadable)"

section \<open>An artifact survives the trip\<close>

text \<open>What is read back: the same document without the members \<open>JSON.stringify\<close> leaves out.\<close>

definition coll_doc :: "acoll \<Rightarrow> json" where
  "coll_doc c = JObj ([(''id'', JStr (ac_id c)), (''name'', JStr (ac_name c))]
     @ (case ac_description c of Some d \<Rightarrow> [(''description'', JStr d)] | None \<Rightarrow> [])
     @ [(''movies'', JArr (ac_movies c))])"

definition artifact_doc :: "crypto \<Rightarrow> string \<Rightarrow> acoll list \<Rightarrow> string \<Rightarrow> json" where
  "artifact_doc C jobId cs createdAt = JObj
     [(''manifest'', JObj [(''formatVersion'', JNum BACKUP_FORMAT_VERSION), (''createdAt'', JStr createdAt),
        (''jobId'', JStr jobId), (''collections'', countsOf cs), (''totalMovieCount'', JNum (show_int (total_movies cs))),
        (''sha256'', JStr (digestOf C (map coll_doc cs)))]),
      (''collections'', JArr (map coll_doc cs))]"

definition plain_colls :: "acoll list \<Rightarrow> bool" where
  "plain_colls cs \<longleftrightarrow> (\<forall>c \<in> set cs. \<forall>m \<in> set (ac_movies c). plain_json m) \<and> distinct (map ac_id cs)"

lemma stringify_coll: "stringify (coll_json c) = stringify (coll_doc c)"
  by (simp add: coll_json_def coll_doc_def split: option.splits)

lemma canonical_coll: "canonical_json (coll_json c) = canonical_json (coll_doc c)"
  by (simp add: coll_json_def coll_doc_def split: option.splits)

lemma digest_doc: "digestOf C (map coll_json cs) = digestOf C (map coll_doc cs)"
  by (simp add: digestOf_def canonical_coll comp_def)

lemma stringify_artifact: "stringify (buildArtifact C j cs t) = stringify (artifact_doc C j cs t)"
  by (simp add: buildArtifact_def artifact_doc_def digest_doc stringify_coll comp_def)

lemma plain_coll: "\<forall>m \<in> set (ac_movies c). plain_json m \<Longrightarrow> plain_json (coll_doc c)"
  by (auto simp: coll_doc_def split: option.splits)

lemma version_int: "BACKUP_FORMAT_VERSION = show_int 1"
  by (simp add: BACKUP_FORMAT_VERSION_def show_int_def show_nat.simps digit_char_def char_of_def bit_0)

lemma plain_artifact: "plain_colls cs \<Longrightarrow> plain_json (artifact_doc C j cs t)"
  by (auto simp: artifact_doc_def plain_colls_def plain_coll countsOf_def number_token_show_int version_int)

lemma coll_doc_members [simp]:
  "json_member (coll_doc c) ''id'' = JStr (ac_id c)" "json_member (coll_doc c) ''movies'' = JArr (ac_movies c)"
  "member (coll_doc c) ''id'' = Inr (JStr (ac_id c))" "member (coll_doc c) ''movies'' = Inr (JArr (ac_movies c))"
  "js_truthy (coll_doc c)"
  by (auto simp: coll_doc_def json_member_def member_def js_truthy_def split: option.splits)

definition count_doc :: "acoll \<Rightarrow> json" where
  "count_doc c = JObj [(''id'', JStr (ac_id c)), (''name'', JStr (ac_name c)),
     (''movieCount'', JNum (show_int (int (length (ac_movies c)))))]"

lemma count_doc_members [simp]:
  "member (count_doc c) ''id'' = Inr (JStr (ac_id c))"
  "json_member (count_doc c) ''movieCount'' = JNum (show_int (int (length (ac_movies c))))"
  by (simp_all add: count_doc_def member_def json_member_def)

lemma findById_own: "distinct (map ac_id cs) \<Longrightarrow> c \<in> set cs \<Longrightarrow> findById (map coll_doc cs) (count_doc c) = Inr (coll_doc c)"
  by (induction cs) (auto simp: bindE_def image_iff)

lemma checkAll_own:
  "distinct (map ac_id cs) \<Longrightarrow> set ds \<subseteq> set cs \<Longrightarrow> checkAll (map coll_doc cs) (map count_doc ds) = Inr ()"
  by (induction ds) (auto simp: checkDeclared_def findById_own bindE_def)

lemma totalActual_own: "totalActual (JNum (show_int n)) (map coll_doc cs) = Inr (JNum (show_int (n + total_movies cs)))"
  by (induction cs arbitrary: n) (auto simp: bindE_def total_movies_def algebra_simps)

lemma countsOf_map: "countsOf cs = JArr (map count_doc cs)"
  by (simp add: countsOf_def count_doc_def)

lemma verify_own: "distinct (map ac_id cs) \<Longrightarrow> verifyArtifact C (artifact_doc C j cs t) = Inr ()"
  using checkAll_own [of cs cs] totalActual_own [of 0 cs]
  by (simp add: verifyArtifact_def artifact_doc_def json_member_def [where j = "JObj _"] countsOf_map bindE_def js_truthy_def
      version_int Let_def)

lemma artifact_trip:
  assumes "\<And>x. zl_gunzip Z (zl_gzip Z x) = Some x" "plain_colls cs"
  shows "decompressArtifact Z (compressArtifact Z (buildArtifact C j cs t)) = Inr (artifact_doc C j cs t)"
  using assms by (simp add: decompressArtifact_def compressArtifact_def stringify_artifact json_parse_stringify plain_artifact)

lemma hex_char_inject: "m < 16 \<Longrightarrow> n < 16 \<Longrightarrow> hex_char m = hex_char n \<longleftrightarrow> m = n"
  by (metis hex_val_hex_char option.inject)

lemma hex_text_inject: "hex_text xs = hex_text ys \<longleftrightarrow> xs = ys"
proof
  have lt: "(of_char (c :: char) :: nat) div 16 < 16" for c
  proof -
    have "(of_char c :: nat) < 256" by simp
    then show ?thesis by linarith
  qed
  show "hex_text xs = hex_text ys \<Longrightarrow> xs = ys"
  proof (induction xs arbitrary: ys)
    case Nil
    then show ?case by (cases ys) (simp_all add: hex_text_def)
  next
    case (Cons x xs)
    then obtain y ys' where ys: "ys = y # ys'" by (cases ys) (simp_all add: hex_text_def)
    with Cons.prems have "(of_char x :: nat) div 16 = of_char y div 16" "(of_char x :: nat) mod 16 = of_char y mod 16"
      "hex_text xs = hex_text ys'"
      using lt by (simp_all add: hex_text_def hex_char_inject)
    then have "(of_char x :: nat) = of_char y" by (metis div_mult_mod_eq)
    with Cons.IH \<open>hex_text xs = hex_text ys'\<close> ys show ?case by simp
  qed
qed simp

lemma utf8_encode_inject: "utf8_encode s = utf8_encode t \<longleftrightarrow> s = t"
  by (metis utf8_decode_encode)

section \<open>What a verified artifact guarantees\<close>

lemma bindE_Inr: "bindE r f = Inr y \<longleftrightarrow> (\<exists>x. r = Inr x \<and> f x = Inr y)"
  by (cases r) (simp_all add: bindE_def)

lemma verifyArtifact_Inr:
  assumes "verifyArtifact C a = Inr ()"
  shows "\<exists>cs ds. json_member a ''collections'' = JArr cs \<and> json_member (json_member a ''manifest'') ''collections'' = JArr ds \<and>
     length ds = length cs \<and> checkAll cs ds = Inr () \<and>
     js_strict_eq (json_member (json_member a ''manifest'') ''formatVersion'') (JNum BACKUP_FORMAT_VERSION) \<and>
     json_member (json_member a ''manifest'') ''sha256'' = JStr (digestOf C cs)"
  using assms by (auto simp: verifyArtifact_def Let_def bindE_Inr split: json.splits if_splits)

lemma verify_member: "member j k = Inl e \<Longrightarrow> e = typeError"
  by (simp add: member_def split: if_splits)

lemma verify_length: "js_length j = Inl e \<Longrightarrow> e = typeError"
  by (simp add: js_length_def split: json.splits)

lemma findById_error: "findById cs d = Inl e \<Longrightarrow> e = typeError"
  by (induction cs) (auto simp: bindE_def dest: verify_member split: sum.splits if_splits)

lemma checkAll_error: "checkAll cs ds = Inl e \<Longrightarrow> e = typeError \<or> e = manifestMismatch"
  by (induction ds) (auto simp: checkDeclared_def bindE_def dest: findById_error verify_length split: sum.splits if_splits)

lemma totalActual_error: "totalActual n cs = Inl e \<Longrightarrow> e = typeError"
  by (induction cs arbitrary: n) (auto simp: bindE_def dest: verify_member verify_length split: sum.splits)

lemma verify_error: "verifyArtifact C a = Inl e \<Longrightarrow> e = typeError \<or> (\<exists>m. e = ArtifactVerificationError m)"
  by (auto simp: verifyArtifact_def Let_def notReadable_def manifestMismatch_def bindE_def
      dest!: checkAll_error totalActual_error split: json.splits if_splits sum.splits)

section \<open>Properties\<close>

text \<open>C24: A backup that was built, written and compressed reads back, after decompression and parsing, to the
  same collections and movies in the same order, and passes every step of the verification: format,
  counts, total and digest.\<close>

theorem artifact_roundtrip:
  assumes "\<And>x. zl_gunzip Z (zl_gzip Z x) = Some x" "plain_colls cs"
  shows "\<exists>a. decompressArtifact Z (compressArtifact Z (buildArtifact C jobId cs createdAt)) = Inr a \<and>
    verifyArtifact C a = Inr () \<and> json_member a ''collections'' = JArr (map coll_doc cs)"
  using artifact_trip [OF assms] verify_own [of cs] assms(2)
  by (auto simp: plain_colls_def artifact_doc_def json_member_def)

definition plain_zlib :: zlib where "plain_zlib = \<lparr>zl_gzip = (\<lambda>x. x), zl_gunzip = Some\<rparr>"

definition two_colls :: "acoll list" where
  "two_colls = [\<lparr>ac_id = ''a'', ac_name = ''Films'', ac_description = None, ac_movies = [JObj [(''title'', JStr ''Heat'')]]\<rparr>,
                \<lparr>ac_id = ''b'', ac_name = ''Empty'', ac_description = Some ''none yet'', ac_movies = []\<rparr>]"

theorem artifact_roundtrip_witness:
  "\<exists>a. decompressArtifact plain_zlib (compressArtifact plain_zlib (buildArtifact node_crypto ''j'' two_colls ''t'')) = Inr a \<and>
     verifyArtifact node_crypto a = Inr ()"
  using artifact_roundtrip [of plain_zlib two_colls node_crypto "''j''" "''t''"]
  by (auto simp: plain_zlib_def plain_colls_def two_colls_def)


definition plain_hash :: crypto where
  "plain_hash = \<lparr>cr_verify = (\<lambda>a b c d. Inr True), cr_sha256 = (\<lambda>x. x)\<rparr>"



end
