(* ===== verification/Snapshot_Reader.thy ===== *)
theory Snapshot_Reader
  imports Mc_Client Artifact
begin

text \<open>
  \<open>bff-server/backup-snapshot-reader.ts\<close>: reading a user's collections and movies page by page. A cursor is the
  JSON value the service answered; the loop's page counter is the recursion's fuel, and running out of it is the
  source's own error. Ids and names are read as texts. A listing that is neither an array nor an object with an
  array of items is a \<open>TypeError\<close>.
\<close>

definition MAX_PAGES :: nat where "MAX_PAGES = 10000"

definition listCollections :: "'x mc_client \<Rightarrow> ('x, json list) io" where
  "listCollections M = bindM (mc_get M ''/api/v1/collections'' []) (\<lambda>body. case body of
     JArr xs \<Rightarrow> returnM xs
   | _ \<Rightarrow> bindM (liftE (member body ''items'')) (\<lambda>items. case items of
       JArr xs \<Rightarrow> returnM xs | JUndef \<Rightarrow> returnM [] | JNull \<Rightarrow> returnM [] | _ \<Rightarrow> throwM typeError))"

text \<open>\<open>movies.push(...(body.items ?? []))\<close>: a text is spread into its characters, any other value throws.\<close>

definition spread_items :: "json \<Rightarrow> exn + json list" where
  "spread_items items = (case items of JArr xs \<Rightarrow> Inr xs | JUndef \<Rightarrow> Inr [] | JNull \<Rightarrow> Inr []
     | JStr s \<Rightarrow> Inr (map (\<lambda>c. JStr [c]) s) | _ \<Rightarrow> Inl typeError)"

definition cursor_params :: "json \<Rightarrow> (string \<times> string) list" where
  "cursor_params cursor = (if js_truthy cursor then [(''cursor'', js_to_string cursor)] else [])"

definition movies_path :: "string \<Rightarrow> string" where
  "movies_path collectionId = ''/api/v1/collections/'' @ collectionId @ ''/movies''"

definition readPage :: "'x mc_client \<Rightarrow> string \<Rightarrow> json \<Rightarrow> ('x, json list \<times> json) io" where
  "readPage M collectionId cursor = bindM (mc_get M (movies_path collectionId) (cursor_params cursor)) (\<lambda>body.
     bindM (liftE (member body ''items'')) (\<lambda>items. bindM (liftE (spread_items items)) (\<lambda>ms.
     let nxt = json_member body ''nextCursor'' in
     returnM (ms, if nxt = JUndef then JNull else nxt))))"

definition repeatingCursor :: "string \<Rightarrow> exn" where
  "repeatingCursor i = JsError (''mc-service returned a repeating page cursor for collection '' @ i)"

definition tooManyPages :: "string \<Rightarrow> exn" where
  "tooManyPages i = JsError (''Reading collection '' @ i @ '' exceeded '' @ show_nat MAX_PAGES @ '' pages'')"

fun readFrom :: "nat \<Rightarrow> 'x mc_client \<Rightarrow> string \<Rightarrow> json list \<Rightarrow> json \<Rightarrow> ('x, json list) io" where
  "readFrom n M i seen cursor = bindM (readPage M i cursor) (\<lambda>(ms, nxt).
     if js_truthy nxt \<and> list_ex (js_strict_eq nxt) seen then throwM (repeatingCursor i)
     else (case n of
        0 \<Rightarrow> throwM (tooManyPages i)
      | Suc k \<Rightarrow> if js_truthy nxt
          then bindM (readFrom k M i (nxt # seen) nxt) (\<lambda>rest. returnM (ms @ rest))
          else returnM ms))"

declare readFrom.simps [simp del]

definition readAllMovies :: "'x mc_client \<Rightarrow> string \<Rightarrow> ('x, json list) io" where
  "readAllMovies M i = readFrom MAX_PAGES M i [] JNull"

definition idOf :: "json \<Rightarrow> exn + string" where
  "idOf c = bindE (member c ''collectionId'') (\<lambda>a.
     if a \<noteq> JUndef \<and> a \<noteq> JNull then Inr (js_to_string a)
     else (let b = json_member c ''id'' in if b \<noteq> JUndef \<and> b \<noteq> JNull then Inr (js_to_string b) else Inr []))"

fun selectCollections :: "string list \<Rightarrow> json list \<Rightarrow> exn + json list" where
  "selectCollections ids [] = Inr []"
| "selectCollections ids (c # cs) = bindE (idOf c) (\<lambda>i. bindE (selectCollections ids cs) (\<lambda>rest.
     Inr (if i \<in> set ids then c # rest else rest)))"

definition snapshotOf :: "json \<Rightarrow> string \<Rightarrow> json list \<Rightarrow> acoll" where
  "snapshotOf c i movies = \<lparr>ac_id = i, ac_name = json_string (json_member c ''name''),
     ac_description = optional_text (json_member c ''description''), ac_movies = movies\<rparr>"

fun readSelected :: "'x mc_client \<Rightarrow> json list \<Rightarrow> ('x, acoll list) io" where
  "readSelected M [] = returnM []"
| "readSelected M (c # cs) = bindM (liftE (idOf c)) (\<lambda>i.
     bindM (catchM (bindM (readAllMovies M i) (\<lambda>ms. returnM [snapshotOf c i ms]))
              (\<lambda>err. if response_status err = Some 404 \<or> response_status err = Some 403 then returnM [] else throwM err)) (\<lambda>one.
     bindM (readSelected M cs) (\<lambda>rest. returnM (one @ rest))))"

definition readSnapshot :: "(string \<Rightarrow> 'x mc_client) \<Rightarrow> string \<Rightarrow> string list \<Rightarrow> ('x, acoll list) io" where
  "readSnapshot mk jwt collectionIds = (let M = mk jwt in
     bindM (listCollections M) (\<lambda>everything.
     bindM (liftE (if collectionIds = [] then Inr everything else selectCollections collectionIds everything)) (\<lambda>selected.
     readSelected M selected)))"

section \<open>Nothing is truncated silently\<close>

text \<open>
  The reference: following the service's answers from page to page until one names no next page. \<open>cs\<close> is the list
  of cursors followed.
\<close>

inductive page_chain :: "'x mc_client \<Rightarrow> string \<Rightarrow> 'x \<Rightarrow> json \<Rightarrow> json list \<Rightarrow> json list \<Rightarrow> 'x \<Rightarrow> bool" for M i where
  last_page: "readPage M i c x = (Inr (ms, nxt), x') \<Longrightarrow> \<not> js_truthy nxt \<Longrightarrow> page_chain M i x c [] ms x'"
| next_page: "readPage M i c x = (Inr (ms, nxt), x') \<Longrightarrow> js_truthy nxt \<Longrightarrow> page_chain M i x' nxt cs rest x'' \<Longrightarrow>
     page_chain M i x c (nxt # cs) (ms @ rest) x''"

inductive_cases page_chain_NilE: "page_chain M i x c [] ms x'"
inductive_cases page_chain_ConsE: "page_chain M i x c (n # cs) ms x'"

fun no_repeat :: "json list \<Rightarrow> json list \<Rightarrow> bool" where
  "no_repeat seen [] = True"
| "no_repeat seen (c # cs) = (\<not> list_ex (js_strict_eq c) seen \<and> no_repeat (c # seen) cs)"

lemma readFrom_chain:
  "readFrom n M i seen c x = (Inr ms, x') \<Longrightarrow>
     \<exists>cs. page_chain M i x c cs ms x' \<and> no_repeat seen cs \<and> length cs < n"
proof (induction n arbitrary: seen c x ms x')
  case 0
  then show ?case
    by (subst (asm) readFrom.simps) (auto simp: bindM_Inr_iff split: prod.splits if_splits)
next
  case (Suc n)
  then obtain ps nxt y where p: "readPage M i c x = (Inr (ps, nxt), y)"
    "\<not> (js_truthy nxt \<and> list_ex (js_strict_eq nxt) seen)"
    by (subst (asm) readFrom.simps) (auto simp: bindM_Inr_iff split: prod.splits if_splits)
  show ?case
  proof (cases "js_truthy nxt")
    case True
    with Suc.prems p obtain rest where r: "readFrom n M i (nxt # seen) nxt y = (Inr rest, x')" "ms = ps @ rest"
      by (subst (asm) readFrom.simps) (auto simp: bindM_Inr_iff)
    then obtain cs where "page_chain M i y nxt cs rest x'" "no_repeat (nxt # seen) cs" "length cs < n"
      using Suc.IH by blast
    with True p r show ?thesis by (intro exI [of _ "nxt # cs"]) (auto intro: page_chain.next_page)
  next
    case False
    with Suc.prems p show ?thesis
      by (subst (asm) readFrom.simps) (auto intro!: exI [of _ "[]"] page_chain.last_page)
  qed
qed

lemma chain_readFrom:
  assumes "page_chain M i x c cs ms x'" "no_repeat seen cs" "length cs < n"
  shows "readFrom n M i seen c x = (Inr ms, x')"
  using assms
proof (induction arbitrary: n seen)
  case (last_page c x ms nxt x')
  then show ?case by (cases n; subst readFrom.simps) simp_all
next
  case (next_page c x ms nxt x' cs rest x'')
  then obtain k where "n = Suc k" "length cs < k" by (cases n) auto
  with next_page show ?case by (subst readFrom.simps) simp
qed

text \<open>C25: Reading a collection succeeds exactly when the service's pages, followed from the first one, end
  within the page limit without repeating a cursor, and then it returns every item of every page in
  order: it never stops early, never loops, and a cursor that repeats is an error.\<close>

theorem snapshot_complete:
  "readAllMovies M i x = (Inr ms, x') \<longleftrightarrow>
     (\<exists>cs. page_chain M i x JNull cs ms x' \<and> no_repeat [] cs \<and> length cs < MAX_PAGES)"
  unfolding readAllMovies_def using readFrom_chain chain_readFrom by metis

text \<open>A collection gone between listing and reading is left out and the others are still read.\<close>

lemma vanished_omitted:
  assumes "idOf c = Inr i" "readAllMovies M i x = (Inl (HttpError 404 t), x')" "readSelected M cs x' = (Inr rest, x'')"
  shows "readSelected M (c # cs) x = (Inr rest, x'')"
  using assms by (simp add: bindM_def catchM_def response_status_def)

lemma read_included:
  assumes "idOf c = Inr i" "readAllMovies M i x = (Inr ms, x')" "readSelected M cs x' = (Inr rest, x'')"
  shows "readSelected M (c # cs) x = (Inr (snapshotOf c i ms # rest), x'')"
  using assms by (simp add: bindM_def catchM_def)

end
