(* ===== verification/Url_Guard.thy ===== *)
theory Url_Guard
  imports Js_Value "HOL-Library.Word"
begin

text \<open>
  \<open>bff-server/backup-destination-url-guard.ts\<close>, \<open>bff-server/agent-config-ssrf.ts\<close> and
  \<open>bff-server/pinned-agent.ts\<close>: which addresses the server may be pointed at by a user, and the pinning of a
  connection to the addresses that were checked. \<open>new URL\<close> is the parameter \<open>parseUrl\<close> (\<open>None\<close> when it throws),
  the resolver is the parameter \<open>lookup\<close>. \<open>isIP\<close> is Node's.
\<close>

record url =
  u_protocol :: string
  u_hostname :: string
  u_port :: string
  u_pathname :: string

record vetted =
  vt_hostname :: string
  vt_address :: string
  vt_family :: int
  vt_addresses :: "(string \<times> int) list"
  vt_port :: int
  vt_protocol :: string
  vt_url :: url

type_synonym 'x lookup = "string \<Rightarrow> ('x, (string \<times> int) list) io"

section \<open>Literal addresses\<close>

text \<open>A decimal octet as Node accepts it: no leading zero, at most 255.\<close>

definition is_octet :: "string \<Rightarrow> bool" where
  "is_octet s \<longleftrightarrow> s \<noteq> [] \<and> list_all is_digit s \<and> length s \<le> 3 \<and> (length s = 1 \<or> hd s \<noteq> CHR ''0'') \<and> digits_val 0 s \<le> 255"

definition is_ipv4 :: "string \<Rightarrow> bool" where
  "is_ipv4 s \<longleftrightarrow> length (js_split (CHR ''.'') s) = 4 \<and> list_all is_octet (js_split (CHR ''.'') s)"

definition is_hextet :: "string \<Rightarrow> bool" where
  "is_hextet s \<longleftrightarrow> 1 \<le> length s \<and> length s \<le> 4 \<and> list_all (\<lambda>c. hex_val c \<noteq> None) s"

text \<open>Sixteen-bit groups a colon-separated text stands for; a dotted quad, only in last place, counts two.\<close>

fun hextets :: "bool \<Rightarrow> string list \<Rightarrow> nat option" where
  "hextets quad [] = Some 0"
| "hextets quad [p] = (if is_hextet p then Some 1 else if quad \<and> is_ipv4 p then Some 2 else None)"
| "hextets quad (p # q # ps) = (if is_hextet p then map_option Suc (hextets quad (q # ps)) else None)"

definition half :: "bool \<Rightarrow> string \<Rightarrow> nat option" where
  "half quad s = (if s = [] then Some 0 else hextets quad (js_split (CHR '':'') s))"

text \<open>The text before and after the first \<open>::\<close>.\<close>

fun split_gap :: "string \<Rightarrow> (string \<times> string) option" where
  "split_gap (a # b # s) = (if a = CHR '':'' \<and> b = CHR '':'' then Some ([], s)
     else map_option (\<lambda>(l, r). (a # l, r)) (split_gap (b # s)))"
| "split_gap _ = None"

definition zone_char :: "char \<Rightarrow> bool" where
  "zone_char c = (let n = of_char c :: nat in (48 \<le> n \<and> n \<le> 57) \<or> (65 \<le> n \<and> n \<le> 90) \<or> (97 \<le> n \<and> n \<le> 122) \<or> c \<in> set ''-.:'')"

definition is_ipv6 :: "string \<Rightarrow> bool" where
  "is_ipv6 s = (let addr = takeWhile (\<lambda>c. c \<noteq> CHR ''%'') s; zone = dropWhile (\<lambda>c. c \<noteq> CHR ''%'') s in
     (zone = [] \<or> (tl zone \<noteq> [] \<and> list_all zone_char (tl zone))) \<and>
     (case split_gap addr of
        None \<Rightarrow> half True addr = Some 8
      | Some (l, r) \<Rightarrow> (case (half False l, half True r) of (Some m, Some n) \<Rightarrow> m + n \<le> 7 | _ \<Rightarrow> False)))"

definition isIP :: "string \<Rightarrow> nat" where
  "isIP s = (if is_ipv4 s then 4 else if is_ipv6 s then 6 else 0)"

section \<open>Classification\<close>

definition hex16 :: "string \<Rightarrow> nat" where
  "hex16 s = foldl (\<lambda>a c. 16 * a + (case hex_val c of Some d \<Rightarrow> d | None \<Rightarrow> 0)) 0 s"

definition dotted :: "nat \<Rightarrow> nat \<Rightarrow> nat \<Rightarrow> nat \<Rightarrow> string" where
  "dotted a b c d = show_nat a @ ''.'' @ show_nat b @ ''.'' @ show_nat c @ ''.'' @ show_nat d"

definition dotted_quad_text :: "string \<Rightarrow> bool" where
  "dotted_quad_text s \<longleftrightarrow> length (js_split (CHR ''.'') s) = 4 \<and>
     list_all (\<lambda>p. 1 \<le> length p \<and> length p \<le> 3 \<and> list_all is_digit p) (js_split (CHR ''.'') s)"

definition mappedIpv4 :: "string \<Rightarrow> string option" where
  "mappedIpv4 host = (if js_to_lower (take 7 host) \<noteq> ''::ffff:'' then None
     else (let rest = drop 7 host in
       if dotted_quad_text rest then Some rest
       else (case js_split (CHR '':'') rest of
          [h, l] \<Rightarrow> if is_hextet h \<and> is_hextet l
             then Some (dotted (hex16 h div 256) (hex16 h mod 256) (hex16 l div 256) (hex16 l mod 256)) else None
        | _ \<Rightarrow> None)))"

text \<open>\<open>address.split('.').map(Number)\<close>, \<open>None\<close> for \<open>NaN\<close>; the callers pass decimal texts.\<close>

definition octets :: "string \<Rightarrow> nat option list" where
  "octets address = map (\<lambda>p. if list_all is_digit p then Some (digits_val 0 p) else None) (js_split (CHR ''.'') address)"

definition isBlockedIpv4 :: "string \<Rightarrow> bool" where
  "isBlockedIpv4 address = (let os = octets address in
     if length os \<noteq> 4 \<or> list_ex (\<lambda>x. case x of None \<Rightarrow> True | Some n \<Rightarrow> 255 < n) os then True
     else (let a = the (os ! 0); b = the (os ! 1) in
       a = 0 \<or> a = 10 \<or> a = 127 \<or> (a = 169 \<and> b = 254) \<or> (a = 172 \<and> 16 \<le> b \<and> b \<le> 31) \<or> (a = 192 \<and> b = 168) \<or>
       (a = 192 \<and> b = 0) \<or> (a = 198 \<and> (b = 18 \<or> b = 19)) \<or> (a = 100 \<and> 64 \<le> b \<and> b \<le> 127) \<or> 224 \<le> a))"

definition link_local_text :: "string \<Rightarrow> bool" where
  "link_local_text host \<longleftrightarrow> js_starts_with host ''fe'' \<and> 3 \<le> length host \<and> host ! 2 \<in> set ''89ab''"

definition isBlockedIpv6 :: "string \<Rightarrow> bool" where
  "isBlockedIpv6 address = (let host = js_to_lower address in
     case mappedIpv4 host of
       Some v4 \<Rightarrow> isBlockedIpv4 v4
     | None \<Rightarrow> host = ''::'' \<or> host = ''::1'' \<or> link_local_text host \<or>
         js_starts_with host ''fc'' \<or> js_starts_with host ''fd'' \<or> js_starts_with host ''ff'')"

definition isBlockedAddress :: "string \<Rightarrow> bool" where
  "isBlockedAddress address = (if isIP address = 4 then isBlockedIpv4 address
     else if isIP address = 6 then isBlockedIpv6 address else True)"

datatype ollama_verdict = Allow | Blocked | Loopback

definition METADATA_V6 :: string where "METADATA_V6 = ''fd00:ec2::254''"

definition classifyIpv4 :: "string \<Rightarrow> ollama_verdict" where
  "classifyIpv4 address = (let os = octets address in
     if length os \<noteq> 4 \<or> list_ex (\<lambda>x. case x of None \<Rightarrow> True | Some n \<Rightarrow> 255 < n) os then Blocked
     else (let a = the (os ! 0); b = the (os ! 1) in
       if a = 127 then Loopback else if a = 0 then Blocked else if a = 169 \<and> b = 254 then Blocked
       else if 224 \<le> a then Blocked else Allow))"

definition classifyIpv6 :: "string \<Rightarrow> ollama_verdict" where
  "classifyIpv6 address = (let host = js_to_lower address in
     case mappedIpv4 host of
       Some v4 \<Rightarrow> classifyIpv4 v4
     | None \<Rightarrow> if host = ''::1'' then Loopback else if host = ''::'' then Blocked
         else if link_local_text host then Blocked else if host = METADATA_V6 then Blocked
         else if js_starts_with host ''ff'' then Blocked else Allow)"

definition classifyOllamaAddress :: "string \<Rightarrow> ollama_verdict" where
  "classifyOllamaAddress address = (if isIP address = 4 then classifyIpv4 address
     else if isIP address = 6 then classifyIpv6 address else Blocked)"

section \<open>The guards\<close>

definition csv_hosts :: "string \<Rightarrow> string list" where
  "csv_hosts s = filter (\<lambda>h. h \<noteq> []) (map (\<lambda>h. js_to_lower (js_trim h)) (js_split (CHR '','') s))"

definition allowedDestinationHosts :: "env \<Rightarrow> string list" where
  "allowedDestinationHosts E = csv_hosts (backupAllowedDestinationHosts E)"

definition allowedOllamaHosts :: "env \<Rightarrow> string list" where
  "allowedOllamaHosts E = csv_hosts (agentOllamaAllowedHosts E)"

text \<open>\<open>Number(p.trim())\<close>, kept when it is an integer between 1 and 65535.\<close>

definition loopbackPorts :: "env \<Rightarrow> int list" where
  "loopbackPorts E = List.map_filter (\<lambda>p. case js_number (JStr (js_trim p)) of None \<Rightarrow> None
     | Some x \<Rightarrow> if of_int \<lfloor>x\<rfloor> = x \<and> 0 < x \<and> x \<le> 65535 then Some \<lfloor>x\<rfloor> else None) (js_split (CHR '','') (agentOllamaLoopbackPorts E))"

definition normalizeHost :: "string \<Rightarrow> string" where
  "normalizeHost hostname = (let h = js_to_lower hostname;
       h1 = (case h of c # r \<Rightarrow> if c = CHR ''['' then r else h | [] \<Rightarrow> []) in
     if h1 \<noteq> [] \<and> last h1 = CHR '']'' then butlast h1 else h1)"

text \<open>\<open>Number(url.port || default)\<close>; the port of a parsed URL is empty or decimal.\<close>

definition port_of :: "url \<Rightarrow> int" where
  "port_of u = (if u_port u = [] then (if u_protocol u = ''https:'' then 443 else 80) else int (digits_val 0 (u_port u)))"

definition is_http :: "url \<Rightarrow> bool" where
  "is_http u \<longleftrightarrow> u_protocol u = ''http:'' \<or> u_protocol u = ''https:''"

definition family_of :: "int \<Rightarrow> int" where "family_of f = (if f = 6 then 6 else 4)"

definition vet :: "url \<Rightarrow> (string \<times> int) list \<Rightarrow> vetted" where
  "vet u answers = (let addresses = map (\<lambda>(a, f). (a, family_of f)) answers in
     \<lparr>vt_hostname = normalizeHost (u_hostname u), vt_address = fst (hd addresses), vt_family = snd (hd addresses),
      vt_addresses = addresses, vt_port = port_of u, vt_protocol = u_protocol u, vt_url = u\<rparr>)"

definition resolveOrThrow :: "exn \<Rightarrow> 'x lookup \<Rightarrow> string \<Rightarrow> ('x, (string \<times> int) list) io" where
  "resolveOrThrow err lookup hostname = bindM (catchM (lookup hostname) (\<lambda>_. throwM err)) (\<lambda>answers.
     if answers = [] then throwM err else returnM answers)"

definition destinationNotAllowed :: exn where
  "destinationNotAllowed = DestinationUrlNotAllowedError (''That address is not allowed. Backups may not be sent to a loopback, ''
     @ ''private, link-local or cloud-metadata address unless the host is on the configured backup destination allow-list.'')"
definition destinationNotHttp :: exn where
  "destinationNotHttp = DestinationUrlNotAllowedError ''A backup destination must be an http(s) URL''"
definition destinationUnresolvable :: exn where
  "destinationUnresolvable = DestinationUrlNotAllowedError ''That host could not be resolved to an address''"

definition assertDestinationUrlAllowed ::
    "env \<Rightarrow> (string \<Rightarrow> url option) \<Rightarrow> 'x lookup \<Rightarrow> string \<Rightarrow> ('x, vetted) io" where
  "assertDestinationUrlAllowed E parseUrl lookup value = (case parseUrl value of
     None \<Rightarrow> throwM destinationNotHttp
   | Some u \<Rightarrow>
      if \<not> is_http u then throwM destinationNotHttp
      else (let hostname = normalizeHost (u_hostname u) in
       if hostname = [] then throwM destinationNotHttp
       else (let allowListed = (hostname \<in> set (allowedDestinationHosts E)) in
        if isIP hostname \<noteq> 0
        then (if \<not> allowListed \<and> isBlockedAddress hostname then throwM destinationNotAllowed
              else returnM (vet u [(hostname, int (isIP hostname))]))
        else bindM (resolveOrThrow destinationUnresolvable lookup hostname) (\<lambda>answers.
             if \<not> allowListed \<and> list_ex (\<lambda>(a, f). isBlockedAddress a) answers then throwM destinationNotAllowed
             else returnM (vet u answers)))))"

definition ollamaNotHttp :: exn where "ollamaNotHttp = OllamaUrlNotAllowedError ''Must be a valid http(s) URL''"
definition ollamaNotAllowed :: exn where
  "ollamaNotAllowed = OllamaUrlNotAllowedError ''That address is not allowed (link-local / cloud-metadata range)''"
definition ollamaNotAllowedLoopback :: exn where
  "ollamaNotAllowedLoopback = OllamaUrlNotAllowedError (''That address is not allowed: a loopback address is this server, not ''
     @ ''your machine. Only the configured Ollama port may be reached over loopback.'')"
definition ollamaNotOnList :: exn where
  "ollamaNotOnList = OllamaUrlNotAllowedError ''That host is not in the configured Ollama allow-list''"
definition ollamaUnresolvable :: exn where
  "ollamaUnresolvable = OllamaUrlNotAllowedError ''That host could not be resolved to an address''"

fun checkAnswers :: "env \<Rightarrow> int \<Rightarrow> (string \<times> int) list \<Rightarrow> exn + unit" where
  "checkAnswers E port [] = Inr ()"
| "checkAnswers E port ((a, f) # rest) = (case classifyOllamaAddress a of
     Blocked \<Rightarrow> Inl ollamaNotAllowed
   | Loopback \<Rightarrow> if port \<notin> set (loopbackPorts E) then Inl ollamaNotAllowedLoopback else checkAnswers E port rest
   | Allow \<Rightarrow> checkAnswers E port rest)"

definition assertOllamaUrlAllowed ::
    "env \<Rightarrow> (string \<Rightarrow> url option) \<Rightarrow> 'x lookup \<Rightarrow> string \<Rightarrow> ('x, vetted) io" where
  "assertOllamaUrlAllowed E parseUrl lookup value = (case parseUrl value of
     None \<Rightarrow> throwM ollamaNotHttp
   | Some u \<Rightarrow>
      if \<not> is_http u then throwM ollamaNotHttp
      else (let hostname = normalizeHost (u_hostname u); allow = allowedOllamaHosts E in
       if hostname = [] then throwM ollamaNotHttp
       else if allow \<noteq> [] \<and> hostname \<notin> set allow then throwM ollamaNotOnList
       else bindM (if isIP hostname \<noteq> 0 then returnM [(hostname, int (isIP hostname))]
                   else resolveOrThrow ollamaUnresolvable lookup hostname) (\<lambda>answers.
            bindM (liftE (checkAnswers E (port_of u) answers)) (\<lambda>_. returnM (vet u answers)))))"

text \<open>The resolving check as a field error, and the check of the save form that does not resolve.\<close>

definition validateOllamaUrl ::
    "env \<Rightarrow> (string \<Rightarrow> url option) \<Rightarrow> 'x lookup \<Rightarrow> string \<Rightarrow> ('x, string option) io" where
  "validateOllamaUrl E parseUrl lookup value = catchM (bindM (assertOllamaUrlAllowed E parseUrl lookup value) (\<lambda>_. returnM None))
     (\<lambda>err. case err of OllamaUrlNotAllowedError r \<Rightarrow> returnM (Some r) | _ \<Rightarrow> throwM err)"

definition reason_of :: "exn \<Rightarrow> string" where
  "reason_of e = (case e of OllamaUrlNotAllowedError r \<Rightarrow> r | _ \<Rightarrow> [])"

definition validateOllamaUrlOffline :: "env \<Rightarrow> (string \<Rightarrow> url option) \<Rightarrow> string \<Rightarrow> string option" where
  "validateOllamaUrlOffline E parseUrl value = (case parseUrl value of
     None \<Rightarrow> Some (reason_of ollamaNotHttp)
   | Some u \<Rightarrow>
      if \<not> is_http u then Some (reason_of ollamaNotHttp)
      else (let hostname = normalizeHost (u_hostname u); allow = allowedOllamaHosts E in
       if hostname = [] then Some (reason_of ollamaNotHttp)
       else if allow \<noteq> [] \<and> hostname \<notin> set allow then Some (reason_of ollamaNotOnList)
       else if isIP hostname \<noteq> 0
       then (case classifyOllamaAddress hostname of
              Blocked \<Rightarrow> Some (reason_of ollamaNotAllowed)
            | Loopback \<Rightarrow> if port_of u \<notin> set (loopbackPorts E) then Some (reason_of ollamaNotAllowedLoopback) else None
            | Allow \<Rightarrow> None)
       else None))"

section \<open>Pinning\<close>

text \<open>What the resolver of the pinned agent answers: every vetted address, or the first.\<close>

definition pinnedLookup :: "vetted \<Rightarrow> bool \<Rightarrow> string \<Rightarrow> (string \<times> int) list" where
  "pinnedLookup target everything hostname =
     (if everything then vt_addresses target else [(vt_address target, vt_family target)])"

section \<open>Every address connected to was checked\<close>

text \<open>
  The contract of a guard, and what pinning makes of it: whichever way the HTTP stack asks the pinned resolver,
  it gets addresses the guard admitted for this target, never one it has not seen.
\<close>

locale address_guard =
  fixes guard :: "string \<Rightarrow> ('x, vetted) io" and admits :: "vetted \<Rightarrow> string \<Rightarrow> bool"
  assumes vets: "guard v x = (Inr t, x') \<Longrightarrow> vt_addresses t \<noteq> [] \<and>
      hd (vt_addresses t) = (vt_address t, vt_family t) \<and> (\<forall>(a, f) \<in> set (vt_addresses t). admits t a)"
begin

lemma pinned_admitted:
  assumes "guard v x = (Inr t, x')" "(a, f) \<in> set (pinnedLookup t everything host)"
  shows "admits t a"
  using vets [OF assms(1)] assms(2) hd_in_set [of "vt_addresses t"] by (fastforce simp: pinnedLookup_def split: if_splits)

lemma pinned_answers: "guard v x = (Inr t, x') \<Longrightarrow> pinnedLookup t everything host \<noteq> []"
  using vets by (simp add: pinnedLookup_def)

end

lemma vet_fields [simp]:
  "vt_hostname (vet u as) = normalizeHost (u_hostname u)" "vt_port (vet u as) = port_of u" "vt_url (vet u as) = u"
  "vt_addresses (vet u as) = map (\<lambda>(a, f). (a, family_of f)) as"
  by (simp_all add: vet_def Let_def)

lemma vet_head: "as \<noteq> [] \<Longrightarrow> hd (map (\<lambda>(a, f). (a, family_of f)) as) = (vt_address (vet u as), vt_family (vet u as))"
  by (simp add: vet_def Let_def)

lemma resolveOrThrow_Inr: "resolveOrThrow e lk h x = (Inr as, x') \<Longrightarrow> as \<noteq> []"
  by (auto simp: resolveOrThrow_def bindM_Inr_iff split: if_splits)

definition destination_admits :: "env \<Rightarrow> vetted \<Rightarrow> string \<Rightarrow> bool" where
  "destination_admits E t a \<longleftrightarrow> vt_hostname t \<in> set (allowedDestinationHosts E) \<or> \<not> isBlockedAddress a"

definition ollama_admits :: "env \<Rightarrow> vetted \<Rightarrow> string \<Rightarrow> bool" where
  "ollama_admits E t a \<longleftrightarrow> classifyOllamaAddress a \<noteq> Blocked \<and>
     (classifyOllamaAddress a = Loopback \<longrightarrow> vt_port t \<in> set (loopbackPorts E)) \<and>
     (allowedOllamaHosts E \<noteq> [] \<longrightarrow> vt_hostname t \<in> set (allowedOllamaHosts E))"

lemma checkAnswers_Inr: "checkAnswers E port as = Inr () \<Longrightarrow> (a, f) \<in> set as \<Longrightarrow>
    classifyOllamaAddress a \<noteq> Blocked \<and> (classifyOllamaAddress a = Loopback \<longrightarrow> port \<in> set (loopbackPorts E))"
  by (induction as) (auto split: ollama_verdict.splits if_splits)

interpretation destination_guard: address_guard "assertDestinationUrlAllowed E parseUrl lookup" "destination_admits E"
  for E parseUrl lookup
proof
  fix v x t x'
  assume "assertDestinationUrlAllowed E parseUrl lookup v x = (Inr t, x')"
  then obtain u as where t: "t = vet u as" "as \<noteq> []"
    "normalizeHost (u_hostname u) \<notin> set (allowedDestinationHosts E) \<longrightarrow> \<not> list_ex (\<lambda>(a, f). isBlockedAddress a) as"
    by (auto simp: assertDestinationUrlAllowed_def Let_def bindM_Inr_iff dest: resolveOrThrow_Inr
        split: option.splits if_splits)
  then show "vt_addresses t \<noteq> [] \<and> hd (vt_addresses t) = (vt_address t, vt_family t) \<and>
      (\<forall>(a, f) \<in> set (vt_addresses t). destination_admits E t a)"
    by (auto simp: destination_admits_def list_ex_iff vet_head)
qed

interpretation ollama_guard: address_guard "assertOllamaUrlAllowed E parseUrl lookup" "ollama_admits E"
  for E parseUrl lookup
proof
  fix v x t x'
  assume "assertOllamaUrlAllowed E parseUrl lookup v x = (Inr t, x')"
  then obtain u as where t: "t = vet u as" "as \<noteq> []" "checkAnswers E (port_of u) as = Inr ()"
    "allowedOllamaHosts E \<noteq> [] \<longrightarrow> normalizeHost (u_hostname u) \<in> set (allowedOllamaHosts E)"
    by (auto simp: assertOllamaUrlAllowed_def Let_def bindM_Inr_iff dest: resolveOrThrow_Inr
        split: option.splits if_splits)
  then show "vt_addresses t \<noteq> [] \<and> hd (vt_addresses t) = (vt_address t, vt_family t) \<and>
      (\<forall>(a, f) \<in> set (vt_addresses t). ollama_admits E t a)"
    using checkAnswers_Inr [OF t(3)] by (auto simp: ollama_admits_def vet_head)
qed

section \<open>The blocked ranges as prefixes\<close>

definition ip4 :: "nat \<Rightarrow> nat \<Rightarrow> nat \<Rightarrow> nat \<Rightarrow> 32 word" where
  "ip4 a b c d = of_nat (((a * 256 + b) * 256 + c) * 256 + d)"

definition in_prefix :: "32 word \<Rightarrow> 32 word \<times> nat \<Rightarrow> bool" where
  "in_prefix ip p = (case p of (base, n) \<Rightarrow> drop_bit (32 - n) ip = drop_bit (32 - n) base)"

definition private_prefixes :: "(32 word \<times> nat) list" where
  "private_prefixes = [(ip4 0 0 0 0, 8), (ip4 10 0 0 0, 8), (ip4 100 64 0 0, 10), (ip4 127 0 0 0, 8), (ip4 169 254 0 0, 16),
     (ip4 172 16 0 0, 12), (ip4 192 0 0 0, 16), (ip4 192 168 0 0, 16), (ip4 198 18 0 0, 15), (ip4 224 0 0 0, 3)]"

lemma show_nat_octet: "n < 256 \<Longrightarrow> digits_val 0 (show_nat n) = n \<and> list_all is_digit (show_nat n) \<and> CHR ''.'' \<notin> set (show_nat n)"
  using show_nat_digits [of n] by (auto simp: list_all_iff is_digit_def)

lemma octets_dotted:
  assumes "a < 256" "b < 256" "c < 256" "d < 256"
  shows "octets (dotted a b c d) = [Some a, Some b, Some c, Some d]"
  using assms [THEN show_nat_octet] by (simp add: octets_def dotted_def js_split_append_sep js_split_no_sep)

lemma unat_of_nat32: "n < 2 ^ 32 \<Longrightarrow> unat (of_nat n :: 32 word) = n"
  by (simp add: unat_of_nat take_bit_nat_eq_self)

lemma unat_ip4:
  assumes "a < 256" "b < 256" "c < 256" "d < 256"
  shows "unat (ip4 a b c d) = ((a * 256 + b) * 256 + c) * 256 + d"
proof -
  have "((a * 256 + b) * 256 + c) * 256 + d < 2 ^ 32" using assms by simp
  then show ?thesis unfolding ip4_def by (rule unat_of_nat32)
qed

lemma drop_bit_eq_unat: "drop_bit n (x :: 32 word) = drop_bit n y \<longleftrightarrow> unat x div 2 ^ n = unat y div 2 ^ n"
  unfolding word_unat_eq_iff unat_drop_bit_eq by (simp only: drop_bit_eq_div)

lemma prefix_div:
  assumes "a < 256" "b < 256" "c < 256" "d < (256 :: nat)"
  shows "(((a * 256 + b) * 256 + c) * 256 + d) div 2 ^ 24 = a"
    "(((a * 256 + b) * 256 + c) * 256 + d) div 2 ^ 16 = a * 256 + b"
    "k \<le> 8 \<Longrightarrow> (((a * 256 + b) * 256 + c) * 256 + d) div 2 ^ (16 + k) = (a * 256 + b) div 2 ^ k"
    "(((a * 256 + b) * 256 + c) * 256 + d) div 2 ^ 29 = a div 32"
proof -
  let ?n = "((a * 256 + b) * 256 + c) * 256 + d"
  have n: "?n = (a * 256 + b) * 65536 + (c * 256 + d)" by simp
  have low: "c * 256 + d < 65536" using assms by simp
  have h: "?n div 65536 = a * 256 + b" unfolding n using low by simp
  then show "?n div 2 ^ 16 = a * 256 + b" by simp
  show "?n div 2 ^ (16 + k) = (a * 256 + b) div 2 ^ k" for k
    using h by (simp add: power_add div_mult2_eq)
  have a: "(a * 256 + b) div 256 = a" using assms(2) by simp
  show "?n div 2 ^ 24 = a" using h a div_mult2_eq [of ?n 65536 256] by simp
  then show "?n div 2 ^ 29 = a div 32" using div_mult2_eq [of ?n "2 ^ 24" 32] by simp
qed

lemma unat_ip4_div:
  assumes "a < 256" "b < 256" "c < 256" "d < 256"
  shows "unat (ip4 a b c d) div 2 ^ (32 - 8) = a"
    "unat (ip4 a b c d) div 2 ^ (32 - 16) = a * 256 + b"
    "k \<le> 8 \<Longrightarrow> unat (ip4 a b c d) div 2 ^ (32 - (16 - k)) = (a * 256 + b) div 2 ^ k"
    "unat (ip4 a b c d) div 2 ^ (32 - 3) = a div 32"
proof -
  have e: "32 - 8 = (24 :: nat)" "32 - 16 = (16 :: nat)" "32 - 3 = (29 :: nat)" by simp_all
  have k: "32 - (16 - k) = 16 + k" if "k \<le> 8" for k :: nat using that by simp
  note u = unat_ip4 [OF assms] and v = prefix_div [OF assms]
  show "unat (ip4 a b c d) div 2 ^ (32 - 8) = a" unfolding e u by (rule v)
  show "unat (ip4 a b c d) div 2 ^ (32 - 16) = a * 256 + b" unfolding e u by (rule v)
  show "k \<le> 8 \<Longrightarrow> unat (ip4 a b c d) div 2 ^ (32 - (16 - k)) = (a * 256 + b) div 2 ^ k" unfolding u by (simp only: k v)
  show "unat (ip4 a b c d) div 2 ^ (32 - 3) = a div 32" unfolding e u by (rule v)
qed

lemma two_digits:
  assumes "b < 256" "q < (256 :: nat)"
  shows "a * 256 + b = p * 256 + q \<longleftrightarrow> a = p \<and> b = q"
proof
  assume e: "a * 256 + b = p * 256 + q"
  have "(a * 256 + b) div 256 = a" "(p * 256 + q) div 256 = p" using assms by simp_all
  with e have "a = p" by simp
  with e show "a = p \<and> b = q" by simp
qed simp

lemma in_prefix_iff:
  assumes "a < 256" "b < 256" "c < 256" "d < 256" "p < 256" "q < 256"
  shows "in_prefix (ip4 a b c d) (ip4 p 0 0 0, 8) \<longleftrightarrow> a = p"
    "in_prefix (ip4 a b c d) (ip4 p q 0 0, 16) \<longleftrightarrow> a = p \<and> b = q"
    "k \<le> 8 \<Longrightarrow> in_prefix (ip4 a b c d) (ip4 p q 0 0, 16 - k) \<longleftrightarrow> (a * 256 + b) div 2 ^ k = (p * 256 + q) div 2 ^ k"
    "in_prefix (ip4 a b c d) (ip4 p 0 0 0, 3) \<longleftrightarrow> a div 32 = p div 32"
proof -
  have z: "(0::nat) < 256" by simp
  note v = unat_ip4_div [OF assms(1-4)] unat_ip4_div [OF assms(5,6) z z] unat_ip4_div [OF assms(5) z z z]
  note i = in_prefix_def prod.case drop_bit_eq_unat
  have "a * 256 + b = p * 256 + q \<longleftrightarrow> a = p \<and> b = q" using assms(2,6) by (rule two_digits)
  then show "in_prefix (ip4 a b c d) (ip4 p q 0 0, 16) \<longleftrightarrow> a = p \<and> b = q" unfolding i by (simp only: v)
qed (simp_all only: in_prefix_def prod.case drop_bit_eq_unat unat_ip4_div [OF assms(1-4)]
    unat_ip4_div [OF assms(5,6) zero_less_numeral zero_less_numeral] unat_ip4_div [OF assms(5) zero_less_numeral zero_less_numeral zero_less_numeral])

lemma high_bits: "(m :: nat) * 2 ^ k = 256 \<Longrightarrow> (a * 256 + b) div 2 ^ k = a * m + b div 2 ^ k"
  using div_mult_self1 [of "2 ^ k" b "a * m"] by (simp add: algebra_simps)

lemma same_high_bits:
  assumes "(m :: nat) * 2 ^ k = 256" "b < 256" "q < (256 :: nat)"
  shows "(a * 256 + b) div 2 ^ k = (p * 256 + q) div 2 ^ k \<longleftrightarrow> a = p \<and> b div 2 ^ k = q div 2 ^ k"
proof
  have lt: "b div 2 ^ k < m" "q div 2 ^ k < m" using assms by (simp_all add: less_mult_imp_div_less)
  assume e: "(a * 256 + b) div 2 ^ k = (p * 256 + q) div 2 ^ k"
  then have s: "a * m + b div 2 ^ k = p * m + q div 2 ^ k" by (simp only: high_bits [OF assms(1)])
  have "(a * m + b div 2 ^ k) div m = a" "(p * m + q div 2 ^ k) div m = p" using lt by simp_all
  with s have "a = p" by simp
  with s show "a = p \<and> b div 2 ^ k = q div 2 ^ k" by simp
qed (simp add: high_bits [OF assms(1)])

lemma blocked_prefix_cases:
  assumes "a < 256" "b < 256" "c < 256" "d < (256 :: nat)"
  shows "in_prefix (ip4 a b c d) (ip4 100 64 0 0, 10) \<longleftrightarrow> a = 100 \<and> 64 \<le> b \<and> b \<le> 127"
    "in_prefix (ip4 a b c d) (ip4 172 16 0 0, 12) \<longleftrightarrow> a = 172 \<and> 16 \<le> b \<and> b \<le> 31"
    "in_prefix (ip4 a b c d) (ip4 198 18 0 0, 15) \<longleftrightarrow> a = 198 \<and> (b = 18 \<or> b = 19)"
    "in_prefix (ip4 a b c d) (ip4 224 0 0 0, 3) \<longleftrightarrow> 224 \<le> a"
proof -
  have q: "b div 64 = 1 \<longleftrightarrow> 64 \<le> b \<and> b \<le> 127" "b div 16 = 1 \<longleftrightarrow> 16 \<le> b \<and> b \<le> 31"
    "b div 2 = 9 \<longleftrightarrow> b = 18 \<or> b = 19" "a div 32 = 7 \<longleftrightarrow> 224 \<le> a" using assms(1) by auto
  show "in_prefix (ip4 a b c d) (ip4 100 64 0 0, 10) \<longleftrightarrow> a = 100 \<and> 64 \<le> b \<and> b \<le> 127"
    using in_prefix_iff(3) [OF assms, of 100 64 6] same_high_bits [of 4 6 b 64 a 100] assms(2) q by simp
  show "in_prefix (ip4 a b c d) (ip4 172 16 0 0, 12) \<longleftrightarrow> a = 172 \<and> 16 \<le> b \<and> b \<le> 31"
    using in_prefix_iff(3) [OF assms, of 172 16 4] same_high_bits [of 16 4 b 16 a 172] assms(2) q by simp
  show "in_prefix (ip4 a b c d) (ip4 198 18 0 0, 15) \<longleftrightarrow> a = 198 \<and> (b = 18 \<or> b = 19)"
    using in_prefix_iff(3) [OF assms, of 198 18 1] same_high_bits [of 128 1 b 18 a 198] assms(2) q by simp
  show "in_prefix (ip4 a b c d) (ip4 224 0 0 0, 3) \<longleftrightarrow> 224 \<le> a"
    using in_prefix_iff(4) [OF assms, of 224 0] q by simp
qed

lemma blocked_iff_prefix:
  assumes "a < 256" "b < 256" "c < 256" "d < 256"
  shows "isBlockedIpv4 (dotted a b c d) \<longleftrightarrow> list_ex (in_prefix (ip4 a b c d)) private_prefixes"
proof -
  have p: "in_prefix (ip4 a b c d) (ip4 0 0 0 0, 8) \<longleftrightarrow> a = 0" "in_prefix (ip4 a b c d) (ip4 10 0 0 0, 8) \<longleftrightarrow> a = 10"
    "in_prefix (ip4 a b c d) (ip4 127 0 0 0, 8) \<longleftrightarrow> a = 127"
    "in_prefix (ip4 a b c d) (ip4 169 254 0 0, 16) \<longleftrightarrow> a = 169 \<and> b = 254"
    "in_prefix (ip4 a b c d) (ip4 192 0 0 0, 16) \<longleftrightarrow> a = 192 \<and> b = 0"
    "in_prefix (ip4 a b c d) (ip4 192 168 0 0, 16) \<longleftrightarrow> a = 192 \<and> b = 168"
    by (simp_all add: in_prefix_iff(1) [OF assms, where q = 0] in_prefix_iff(2) [OF assms])
  have "list_ex (in_prefix (ip4 a b c d)) private_prefixes \<longleftrightarrow> a = 0 \<or> a = 10 \<or> (a = 100 \<and> 64 \<le> b \<and> b \<le> 127) \<or>
      a = 127 \<or> (a = 169 \<and> b = 254) \<or> (a = 172 \<and> 16 \<le> b \<and> b \<le> 31) \<or> (a = 192 \<and> b = 0) \<or> (a = 192 \<and> b = 168) \<or>
      (a = 198 \<and> (b = 18 \<or> b = 19)) \<or> 224 \<le> a"
    by (simp add: private_prefixes_def p blocked_prefix_cases [OF assms])
  then show ?thesis using assms by (auto simp: isBlockedIpv4_def octets_dotted)
qed

section \<open>Texts of addresses\<close>

lemma is_octet_show: "n < 256 \<Longrightarrow> is_octet (show_nat n)"
proof -
  assume n: "n < 256"
  have h: "hd (show_nat m) \<noteq> CHR ''0''" if "0 < m" for m :: nat
    using that
  proof (induction m rule: show_nat.induct)
    case (1 m)
    show ?case
    proof (cases "m < 10")
      case True
      with 1 have "m \<in> {1, 2, 3, 4, 5, 6, 7, 8, 9}" by auto
      then show ?thesis by (subst show_nat.simps) (auto simp: digit_char_def char_of_def bit_0)
    next
      case False
      with 1 show ?thesis by (subst show_nat.simps) simp
    qed
  qed
  have l1: "length (show_nat m) = 1" if "m < 10" for m using that by (subst show_nat.simps) simp
  have l2: "length (show_nat m) = 2" if "10 \<le> m" "m < 100" for m
    using that l1 [of "m div 10"] by (subst show_nat.simps) simp
  have l3: "length (show_nat m) = 3" if "100 \<le> m" "m < 1000" for m
    using that l2 [of "m div 10"] by (subst show_nat.simps) simp
  have "length (show_nat n) \<le> 3 \<and> (length (show_nat n) = 1 \<or> 0 < n)"
    using n l1 [of n] l2 [of n] l3 [of n] by (cases "n < 10"; cases "n < 100") auto
  then show ?thesis using n show_nat_octet [OF n] h [of n] by (auto simp: is_octet_def)
qed

lemma is_ipv4_dotted:
  assumes "a < 256" "b < 256" "c < 256" "d < 256"
  shows "is_ipv4 (dotted a b c d)"
  using assms [THEN show_nat_octet] assms [THEN is_octet_show]
  by (simp add: is_ipv4_def dotted_def js_split_append_sep js_split_no_sep)

lemma hextet_chars: "is_hextet h \<Longrightarrow> CHR '':'' \<notin> set h \<and> CHR ''.'' \<notin> set h \<and> CHR ''%'' \<notin> set h"
  by (auto simp: is_hextet_def list_all_iff hex_val_def)

lemma hex16_lt: "is_hextet h \<Longrightarrow> hex16 h < 65536"
proof -
  assume h: "is_hextet h"
  have d: "(case hex_val c of Some d \<Rightarrow> d | None \<Rightarrow> 0) < 16" for c by (auto simp: hex_val_def Let_def)
  have b: "foldl (\<lambda>a c. 16 * a + (case hex_val c of Some d \<Rightarrow> d | None \<Rightarrow> 0)) a s < (a + 1) * 16 ^ length s" for a s
  proof (induction s arbitrary: a)
    case (Cons c s)
    let ?e = "case hex_val c of Some d \<Rightarrow> d | None \<Rightarrow> 0"
    have "16 * a + ?e + 1 \<le> (a + 1) * 16" using d [of c] by simp
    then have "(16 * a + ?e + 1) * 16 ^ length s \<le> ((a + 1) * 16) * 16 ^ length s" by (rule mult_le_mono1)
    also have "\<dots> = (a + 1) * 16 ^ length (c # s)" by (simp only: length_Cons power_Suc mult.assoc)
    finally have le: "(16 * a + ?e + 1) * 16 ^ length s \<le> (a + 1) * 16 ^ length (c # s)" .
    show ?case using order.strict_trans2 [OF Cons.IH [of "16 * a + ?e"] le] by (simp only: foldl_Cons)
  qed simp
  have "(16 :: nat) ^ length h \<le> 16 ^ 4" using h by (intro power_increasing) (simp_all add: is_hextet_def)
  then show ?thesis using b [of 0 h] by (simp add: hex16_def)
qed

definition mapped_text :: "string \<Rightarrow> string \<Rightarrow> string" where
  "mapped_text h l = ''::ffff:'' @ h @ '':'' @ l"

lemma mapped_is_ipv6:
  assumes "is_hextet h" "is_hextet l"
  shows "isIP (mapped_text h l) = 6"
proof -
  have f: "is_hextet ''ffff''" by (simp add: is_hextet_def hex_val_def)
  have cs: "CHR ''%'' \<notin> set (mapped_text h l)" "CHR ''.'' \<notin> set (mapped_text h l)"
    using assms [THEN hextet_chars] by (auto simp: mapped_text_def)
  have "js_split (CHR '':'') (''ffff:'' @ h @ '':'' @ l) = [''ffff'', h, l]"
    using js_split_append_sep [of "CHR '':''" "''ffff''" "h @ CHR '':'' # l"] assms [THEN hextet_chars]
    by (simp add: js_split_append_sep js_split_no_sep)
  then have "half True (''ffff:'' @ h @ '':'' @ l) = Some 3" using assms f by (simp add: half_def)
  moreover have "split_gap (mapped_text h l) = Some ([], ''ffff:'' @ h @ '':'' @ l)" by (simp add: mapped_text_def)
  moreover have "takeWhile (\<lambda>c. c \<noteq> CHR ''%'') (mapped_text h l) = mapped_text h l"
    using cs by (simp add: takeWhile_eq_all_conv) metis
  moreover have "dropWhile (\<lambda>c. c \<noteq> CHR ''%'') (mapped_text h l) = []" using cs by (simp add: dropWhile_eq_Nil_conv) metis
  ultimately have "is_ipv6 (mapped_text h l)" unfolding is_ipv6_def Let_def by (simp only: split option.case) (simp add: half_def)
  moreover have "\<not> is_ipv4 (mapped_text h l)" using cs by (simp add: is_ipv4_def js_split_no_sep)
  ultimately show ?thesis by (simp add: isIP_def)
qed

lemma mapped_blocked:
  assumes "is_hextet h" "is_hextet l" "js_to_lower h = h" "js_to_lower l = l"
  shows "isBlockedAddress (mapped_text h l) \<longleftrightarrow>
    isBlockedIpv4 (dotted (hex16 h div 256) (hex16 h mod 256) (hex16 l div 256) (hex16 l mod 256))"
proof -
  have low: "js_to_lower (mapped_text h l) = mapped_text h l"
    using assms(3,4) by (simp add: mapped_text_def js_to_lower_def js_lower_char_def)
  have sp: "js_split (CHR '':'') (h @ CHR '':'' # l) = [h, l]" "js_split (CHR ''.'') (h @ CHR '':'' # l) = [h @ CHR '':'' # l]"
    using assms(1,2) [THEN hextet_chars] by (simp_all add: js_split_append_sep js_split_no_sep)
  have "mappedIpv4 (mapped_text h l) =
      Some (dotted (hex16 h div 256) (hex16 h mod 256) (hex16 l div 256) (hex16 l mod 256))"
    using assms(1,2) sp by (simp add: mappedIpv4_def mapped_text_def dotted_quad_text_def js_to_lower_def js_lower_char_def)
  then show ?thesis using mapped_is_ipv6 [OF assms(1,2)] low by (simp add: isBlockedAddress_def isBlockedIpv6_def)
qed

section \<open>Properties\<close>



text \<open>Whatever the resolver answers, every address the pinned agent of a vetted backup destination can
  connect to was classified in that same vetting as public, unless the operator listed the host; and there is one.\<close>
theorem destination_pinned:
  assumes "assertDestinationUrlAllowed E parseUrl lookup value x = (Inr t, x')"
  shows "pinnedLookup t everything host \<noteq> [] \<and> ((a, f) \<in> set (pinnedLookup t everything host) \<longrightarrow>
    vt_hostname t \<in> set (allowedDestinationHosts E) \<or> \<not> isBlockedAddress a)"
  using destination_guard.pinned_answers [OF assms] destination_guard.pinned_admitted [OF assms, of a f everything host]
  by (auto simp: destination_admits_def)

definition nas_url :: url where
  "nas_url = \<lparr>u_protocol = ''https:'', u_hostname = ''NAS.example'', u_port = ''5006'', u_pathname = ''/backups''\<rparr>"

definition guard_env :: env where
  "guard_env = default_env\<lparr>backupAllowedDestinationHosts := [], agentOllamaAllowedHosts := ''nas.example'', agentOllamaLoopbackPorts := ''11434''\<rparr>"

definition nas_lookup :: "nat lookup" where "nas_lookup h = (\<lambda>n. (Inr [(''93.184.216.34'', 4), (''93.184.216.35'', 4)], Suc n))"

lemma nas_hosts: "allowedDestinationHosts guard_env = []" "allowedOllamaHosts guard_env = [''nas.example'']"
  by (simp_all add: allowedDestinationHosts_def allowedOllamaHosts_def guard_env_def csv_hosts_def) code_simp+

lemma nas_facts: "is_http nas_url" "normalizeHost (u_hostname nas_url) = ''nas.example''" "isIP ''nas.example'' = 0"
  "\<not> isBlockedAddress ''93.184.216.34''" "\<not> isBlockedAddress ''93.184.216.35''"
  "classifyOllamaAddress ''93.184.216.34'' = Allow" "classifyOllamaAddress ''93.184.216.35'' = Allow"
  by code_simp+

lemma nas_vetted: "assertDestinationUrlAllowed guard_env (\<lambda>_. Some nas_url) nas_lookup v 0 =
    (Inr (vet nas_url [(''93.184.216.34'', 4), (''93.184.216.35'', 4)]), 1)"
  by (simp add: assertDestinationUrlAllowed_def nas_facts nas_hosts resolveOrThrow_def nas_lookup_def bindM_def catchM_def)

theorem destination_pinned_witness: "\<not> isBlockedAddress ''93.184.216.35''"
  using destination_pinned [OF nas_vetted, of True "''nas.example''" "''93.184.216.35''" 4]
  by (simp add: pinnedLookup_def family_of_def nas_hosts)



end
