(* ===== verification/Uri.thy ===== *)
theory Uri
  imports Http Codec
begin

text \<open>
  Percent encoding, both ways: \<open>decodeURIComponent\<close> of the language (\<open>None\<close> is its \<open>URIError\<close>; a code point outside
  Latin-1 reads as a question mark), the RFC 3986 encoding of \<open>bff-server/backup-request-signer.ts\<close> and the path
  encoding of \<open>bff-server/backup-destination-driver.ts\<close>. The lemmas show that both encodings can be undone, so that no
  two keys of a destination share a path on the wire.
\<close>

named_theorems uri_simps \<open>round trips of the encodings of a URL\<close>

section \<open>decodeURIComponent\<close>

text \<open>One escaped byte at the head of a text, and what follows it.\<close>

definition take_pct :: "string \<Rightarrow> (nat \<times> string) option" where
  "take_pct s = (case s of p # a # b # r \<Rightarrow>
       (if p = CHR ''%'' then (case (hex_val a, hex_val b) of (Some x, Some y) \<Rightarrow> Some (16 * x + y, r) | _ \<Rightarrow> None) else None)
     | _ \<Rightarrow> None)"

definition is_continuation :: "nat \<Rightarrow> bool" where "is_continuation m \<longleftrightarrow> 128 \<le> m \<and> m < 192"

text \<open>\<open>k\<close> further escaped bytes of a multi-byte character.\<close>

fun take_continuations :: "nat \<Rightarrow> string \<Rightarrow> (nat list \<times> string) option" where
  "take_continuations 0 s = Some ([], s)"
| "take_continuations (Suc k) s = (case take_pct s of
     Some (m, r) \<Rightarrow> if is_continuation m then map_option (\<lambda>(ms, t). (m # ms, t)) (take_continuations k r) else None
   | None \<Rightarrow> None)"

definition following :: "nat \<Rightarrow> nat option" where
  "following b = (if b < 128 then Some 0 else if 194 \<le> b \<and> b < 224 then Some 1 else if 224 \<le> b \<and> b < 240 then Some 2
     else if 240 \<le> b \<and> b < 245 then Some 3 else None)"

definition decoded_char :: "nat \<Rightarrow> nat list \<Rightarrow> char" where
  "decoded_char b ms = (case ms of [] \<Rightarrow> char_of b
     | m # r \<Rightarrow> if r = [] \<and> b < 196 then char_of ((b - 192) * 64 + (m - 128)) else CHR ''?'')"

lemma take_pct_shorter: "take_pct s = Some (m, r) \<Longrightarrow> length r < length s"
  by (auto simp: take_pct_def split: list.splits if_splits option.splits)

lemma take_continuations_shorter: "take_continuations k s = Some (ms, r) \<Longrightarrow> length r \<le> length s"
proof (induction k arbitrary: s ms)
  case (Suc k)
  then show ?case using take_pct_shorter by (fastforce split: option.splits if_splits)
qed simp

function decodeURIComponent :: "string \<Rightarrow> string option" where
  "decodeURIComponent [] = Some []"
| "decodeURIComponent (c # s) =
     (if c \<noteq> CHR ''%'' then map_option ((#) c) (decodeURIComponent s)
      else (case take_pct (c # s) of None \<Rightarrow> None
       | Some (b, r) \<Rightarrow> (case following b of None \<Rightarrow> None
         | Some k \<Rightarrow> (case take_continuations k r of None \<Rightarrow> None
           | Some (ms, t) \<Rightarrow> map_option ((#) (decoded_char b ms)) (decodeURIComponent t)))))"
  by pat_completeness auto
termination
  by (relation "measure length") (auto dest!: take_pct_shorter take_continuations_shorter)

lemma hex_val_digit [simp]: "hex_val (hex_digit n) = Some (n mod 16)"
proof -
  have lt: "n mod 16 < 16" by simp
  show ?thesis
  proof (cases "n mod 16 < 10")
    case True
    then show ?thesis by (simp add: hex_digit_def hex_val_def Let_def)
  next
    case False
    then have "65 \<le> 55 + n mod 16" "55 + n mod 16 \<le> 70" "55 + n mod 16 - 55 = n mod 16" using lt by linarith+
    with False show ?thesis by (simp add: hex_digit_def hex_val_def Let_def)
  qed
qed

lemma take_pct_pct [simp]: "n < 256 \<Longrightarrow> take_pct (pct n @ r) = Some (n, r)"
proof -
  assume "n < 256"
  then have "n div 16 mod 16 = n div 16" by (simp add: less_mult_imp_div_less)
  then show ?thesis by (simp add: take_pct_def pct_def)
qed

text \<open>One encoded character decodes to itself, whatever follows.\<close>

definition pct_char :: "char \<Rightarrow> string" where
  "pct_char c = (let n = of_char c :: nat in if n < 128 then pct n else pct (192 + n div 64) @ pct (128 + n mod 64))"

lemma pct_Cons: "pct n @ r = CHR ''%'' # tl (pct n @ r)"
  by (simp add: pct_def)

lemma decode_step:
  assumes "take_pct s = Some (b, r)" "following b = Some k" "take_continuations k r = Some (ms, t)"
  shows "decodeURIComponent s = map_option ((#) (decoded_char b ms)) (decodeURIComponent t)"
proof -
  obtain s' where "s = CHR ''%'' # s'" using assms(1) by (auto simp: take_pct_def split: list.splits if_splits)
  then show ?thesis using assms by simp
qed

lemma decode_pct_char: "decodeURIComponent (pct_char c @ r) = map_option ((#) c) (decodeURIComponent r)"
proof -
  define n where "n = (of_char c :: nat)"
  have n: "n < 256" "char_of n = c" by (simp_all add: n_def)
  show ?thesis
  proof (cases "n < 128")
    case True
    then have "decodeURIComponent (pct n @ r) = map_option ((#) (decoded_char n [])) (decodeURIComponent r)"
      by (intro decode_step [of _ n r 0]) (simp_all add: following_def)
    with True n show ?thesis by (simp add: pct_char_def n_def decoded_char_def Let_def)
  next
    case False
    have m: "n mod 64 < 64" by simp
    have q: "2 \<le> n div 64" "n div 64 \<le> 3" using False n by (auto simp: less_eq_div_iff_mult_less_eq div_le_mono2 elim: less_mult_imp_div_less)
    have "decodeURIComponent (pct (192 + n div 64) @ pct (128 + n mod 64) @ r) =
        map_option ((#) (decoded_char (192 + n div 64) [128 + n mod 64])) (decodeURIComponent r)"
      using q m by (intro decode_step [of _ _ "pct (128 + n mod 64) @ r" "Suc 0"]) (simp_all add: following_def is_continuation_def)
    moreover have "decoded_char (192 + n div 64) [128 + n mod 64] = c" using q n by (simp add: decoded_char_def)
    ultimately show ?thesis using False by (simp add: pct_char_def n_def [symmetric] Let_def)
  qed
qed

lemma decode_plain: "c \<noteq> CHR ''%'' \<Longrightarrow> decodeURIComponent ([c] @ r) = map_option ((#) c) (decodeURIComponent r)"
  by simp

lemma decode_concat:
  assumes "\<And>c. f c = pct_char c \<or> (f c = [c] \<and> c \<noteq> CHR ''%'')"
  shows "decodeURIComponent (concat (map f s)) = Some s"
proof (induction s)
  case (Cons c s)
  then show ?case using assms [of c] decode_pct_char [of c] by auto
qed simp

lemma encodeURIComponent_pct_char: "encodeURIComponent s = concat (map (\<lambda>c. if uri_unreserved c then [c] else pct_char c) s)"
  by (auto simp: encodeURIComponent_def pct_char_def Let_def intro!: arg_cong [of _ _ concat])

lemma decode_encodeURIComponent [simp, uri_simps]: "decodeURIComponent (encodeURIComponent s) = Some s"
  unfolding encodeURIComponent_pct_char by (rule decode_concat) (auto simp: uri_unreserved_def)

section \<open>RFC 3986\<close>

text \<open>\<open>encodeURIComponent\<close>, and the five characters it leaves alone: \<open>!'()*\<close>.\<close>

definition strict_char :: "char \<Rightarrow> string" where
  "strict_char c = (if c \<in> set ''!()*'' \<or> of_char c = (39 :: nat) then pct (of_char c) else [c])"

definition uriEncode :: "string \<Rightarrow> string" where
  "uriEncode v = concat (map strict_char (encodeURIComponent v))"

lemma strict_unreserved: "uri_unreserved c \<Longrightarrow> strict_char c = [c] \<or> strict_char c = pct_char c"
  by (auto simp: strict_char_def pct_char_def Let_def)

lemma strict_hex: "strict_char (hex_digit n) = [hex_digit n]"
proof -
  have "hex_val (hex_digit n) \<noteq> None" by simp
  then have "hex_digit n \<notin> set ''!()*''" "of_char (hex_digit n) \<noteq> (39 :: nat)"
    by (auto simp: hex_val_def Let_def split: if_splits simp del: hex_val_digit)
  then show ?thesis by (simp add: strict_char_def)
qed

lemma strict_pct: "concat (map strict_char (pct n)) = pct n"
  by (simp add: pct_def strict_hex) (simp add: strict_char_def)

lemma uriEncode_chars: "uriEncode s = concat (map (\<lambda>c. if uri_unreserved c then strict_char c else pct_char c) s)"
proof -
  have "concat (map strict_char (pct_char c)) = pct_char c" for c
    by (simp add: pct_char_def strict_pct Let_def)
  then show ?thesis unfolding uriEncode_def encodeURIComponent_pct_char by (induction s) auto
qed

lemma decode_uriEncode [simp, uri_simps]: "decodeURIComponent (uriEncode s) = Some s"
  unfolding uriEncode_chars
proof (rule decode_concat)
  fix c show "(if uri_unreserved c then strict_char c else pct_char c) = pct_char c \<or>
    (if uri_unreserved c then strict_char c else pct_char c) = [c] \<and> c \<noteq> CHR ''%''"
    using strict_unreserved [of c] by (auto simp: uri_unreserved_def)
qed

lemma uriEncode_inject [simp]: "uriEncode s = uriEncode t \<longleftrightarrow> s = t"
  by (metis decode_uriEncode option.inject)

lemma set_pct: "set (pct n) \<subseteq> {c. uri_unreserved c \<or> c = CHR ''%''}"
  by (auto simp: pct_def hex_digit_unreserved)

lemma uriEncode_char: "c \<in> set (uriEncode s) \<Longrightarrow> uri_unreserved c \<or> c = CHR ''%''"
  using set_pct encodeURIComponent_chars unfolding uriEncode_def strict_char_def by (fastforce split: if_splits)

lemma uriEncode_no_slash: "CHR ''/'' \<notin> set (uriEncode s)"
  using uriEncode_char by (fastforce simp: uri_unreserved_def)

section \<open>Paths\<close>

definition encodeSegments :: "string \<Rightarrow> string" where
  "encodeSegments path = js_join ''/'' (map uriEncode (js_split (CHR ''/'') path))"

definition encodePath :: "string \<Rightarrow> string" where
  "encodePath path = encodeSegments (if js_starts_with path ''/'' then path else CHR ''/'' # path)"

lemma split_join: "\<forall>p \<in> set ps. c \<notin> set p \<Longrightarrow> ps \<noteq> [] \<Longrightarrow> js_split c (js_join [c] ps) = ps"
  by (induction ps rule: induct_list012) (auto simp: js_split_no_sep js_split_append_sep)

lemma join_split: "js_join [c] (js_split c s) = s"
proof (induction s)
  case (Cons x s)
  obtain p ps where "js_split c s = p # ps" by (meson js_split_not_Nil neq_Nil_conv)
  with Cons show ?case by (cases ps) auto
qed simp

text \<open>What a server makes of a path: its segments, decoded.\<close>

definition decodePath :: "string \<Rightarrow> string option" where
  "decodePath s = map_option (js_join ''/'') (those (map decodeURIComponent (js_split (CHR ''/'') s)))"

lemma those_map_Some [simp]: "those (map Some xs) = Some xs"
  by (induction xs) simp_all

lemma decode_encodeSegments [simp, uri_simps]: "decodePath (encodeSegments p) = Some p"
proof -
  have "js_split (CHR ''/'') (encodeSegments p) = map uriEncode (js_split (CHR ''/'') p)"
    unfolding encodeSegments_def by (rule split_join) (simp_all add: uriEncode_no_slash)
  then have "map decodeURIComponent (js_split (CHR ''/'') (encodeSegments p)) = map Some (js_split (CHR ''/'') p)"
    by (simp add: comp_def)
  then show ?thesis by (simp only: decodePath_def those_map_Some) (simp add: join_split)
qed

lemma encodeSegments_inject [simp]: "encodeSegments p = encodeSegments q \<longleftrightarrow> p = q"
  by (metis decode_encodeSegments option.inject)

lemma encodePath_absolute [simp, uri_simps]: "decodePath (encodePath (CHR ''/'' # p)) = Some (CHR ''/'' # p)"
  by (simp add: encodePath_def js_starts_with_def)

end
