(* ===== verification/Request_Signer.thy ===== *)
theory Request_Signer
  imports Uri Artifact Js_Date "HOL-Library.Product_Lexorder"
begin

text \<open>
  \<open>bff-server/backup-request-signer.ts\<close>: AWS Signature Version 4. SHA-256 and HMAC are Node's, parameters over bytes.
  The names of HTTP methods and headers are ASCII, and header names are no numbers, so an object of headers keeps the
  order in which they were set.
\<close>

type_synonym hmac = "string \<Rightarrow> string \<Rightarrow> string"

record signing_credentials =
  sc_accessKeyId :: string
  sc_secretAccessKey :: string
  sc_region :: string
  sc_service :: string
  sc_sessionToken :: "string option"

record signable_request =
  sr_method :: string
  sr_path :: string
  sr_query :: string
  sr_headers :: "(string \<times> string) list"
  sr_payloadHash :: string

record signed_request =
  sd_authorization :: string
  sd_headers :: "(string \<times> string) list"
  sd_canonicalRequest :: string
  sd_stringToSign :: string

definition ALGORITHM :: string where "ALGORITHM = ''AWS4-HMAC-SHA256''"

definition sha256Hex :: "crypto \<Rightarrow> string \<Rightarrow> string" where
  "sha256Hex C data = hex_text (cr_sha256 C data)"

definition js_upper_ascii :: "string \<Rightarrow> string" where
  "js_upper_ascii s = map (\<lambda>c. let n = of_char c :: nat in if 97 \<le> n \<and> n \<le> 122 then char_of (n - 32) else c) s"

section \<open>The canonical request\<close>

definition canonicalUri :: "string \<Rightarrow> string" where
  "canonicalUri path = (if path = [] then ''/'' else js_join ''/'' (map uriEncode (js_split (CHR ''/'') path)))"

definition uriError :: exn where "uriError = JsError ''URI malformed''"

definition queryPair :: "string \<Rightarrow> exn + string \<times> string" where
  "queryPair part = (let rawKey = takeWhile (\<lambda>c. c \<noteq> CHR ''='') part; rawValue = drop (Suc (length rawKey)) part in
     case (decodeURIComponent rawKey, decodeURIComponent rawValue) of
       (Some k, Some v) \<Rightarrow> Inr (uriEncode k, uriEncode v) | _ \<Rightarrow> Inl uriError)"

fun queryPairs :: "string list \<Rightarrow> exn + (string \<times> string) list" where
  "queryPairs [] = Inr []"
| "queryPairs (part # parts) = (if part = [] then queryPairs parts
     else bindE (queryPair part) (\<lambda>p. bindE (queryPairs parts) (\<lambda>ps. Inr (p # ps))))"

definition canonicalQuery :: "string \<Rightarrow> exn + string" where
  "canonicalQuery query = (if query = [] then Inr []
     else bindE (queryPairs (js_split (CHR ''&'') query)) (\<lambda>pairs.
       Inr (js_join ''&'' (map (\<lambda>(k, v). k @ ''='' @ v) (sort pairs)))))"

text \<open>\<open>replace(/\s+/g, ' ')\<close>\<close>

fun collapseSpace :: "string \<Rightarrow> string" where
  "collapseSpace [] = []"
| "collapseSpace (c # s) = (if is_js_space c
     then (case s of d # r \<Rightarrow> if is_js_space d then collapseSpace s else CHR '' '' # collapseSpace s | [] \<Rightarrow> [CHR '' ''])
     else c # collapseSpace s)"

definition headerName :: "string \<Rightarrow> string" where "headerName nm = js_to_lower (js_trim nm)"
definition headerValue :: "string \<Rightarrow> string" where "headerValue v = collapseSpace (js_trim v)"

fun groupInto :: "string \<Rightarrow> string \<Rightarrow> (string \<times> string list) list \<Rightarrow> (string \<times> string list) list" where
  "groupInto k v [] = [(k, [v])]"
| "groupInto k v ((k', vs) # g) = (if k = k' then (k', vs @ [v]) # g else (k', vs) # groupInto k v g)"

definition groupHeaders :: "(string \<times> string) list \<Rightarrow> (string \<times> string list) list" where
  "groupHeaders headers = fold (\<lambda>(nm, v). groupInto (headerName nm) (headerValue v)) headers []"

definition canonicalHeaders :: "(string \<times> string) list \<Rightarrow> string \<times> string" where
  "canonicalHeaders headers = (let grouped = groupHeaders headers; names = sort (map fst grouped) in
     (concat (map (\<lambda>n. n @ '':'' @ js_join '','' (the (map_of grouped n)) @ [CHR 0x0A]) names), js_join '';'' names))"

definition buildCanonicalRequest :: "signable_request \<Rightarrow> exn + string" where
  "buildCanonicalRequest req = (let (canonical, signedHeaders) = canonicalHeaders (sr_headers req) in
     bindE (canonicalQuery (sr_query req)) (\<lambda>q. Inr (js_join [CHR 0x0A]
       [js_upper_ascii (sr_method req), canonicalUri (sr_path req), q, canonical, signedHeaders, sr_payloadHash req])))"

section \<open>The signature\<close>

definition credentialScope :: "signing_credentials \<Rightarrow> string \<Rightarrow> string" where
  "credentialScope cred dateStamp = dateStamp @ ''/'' @ sc_region cred @ ''/'' @ sc_service cred @ ''/aws4_request''"

definition buildStringToSign :: "crypto \<Rightarrow> string \<Rightarrow> string \<Rightarrow> signing_credentials \<Rightarrow> string" where
  "buildStringToSign C canonicalRequest amzDate cred = js_join [CHR 0x0A]
     [ALGORITHM, amzDate, credentialScope cred (take 8 amzDate), sha256Hex C (utf8_encode canonicalRequest)]"

definition signingKey :: "hmac \<Rightarrow> string \<Rightarrow> string \<Rightarrow> string \<Rightarrow> string \<Rightarrow> string" where
  "signingKey H secretAccessKey dateStamp region service =
     (let kDate = H (utf8_encode (''AWS4'' @ secretAccessKey)) (utf8_encode dateStamp);
          kRegion = H kDate (utf8_encode region);
          kService = H kRegion (utf8_encode service)
      in H kService ''aws4_request'')"

definition amzDateOf :: "int \<Rightarrow> string" where
  "amzDateOf date = hd (js_split (CHR ''.'') (filter (\<lambda>c. c \<noteq> CHR '':'' \<and> c \<noteq> CHR ''-'') (to_iso date))) @ ''Z''"

text \<open>Setting a member of an object: in place when it exists, else at the end.\<close>

fun setMember :: "string \<Rightarrow> string \<Rightarrow> (string \<times> string) list \<Rightarrow> (string \<times> string) list" where
  "setMember k v [] = [(k, v)]"
| "setMember k v ((k', v') # es) = (if k = k' then (k', v) # es else (k', v') # setMember k v es)"

definition supplied :: "(string \<times> string) list \<Rightarrow> string set" where
  "supplied headers = set (map (\<lambda>(n, v). headerName n) headers)"

definition headersToSign :: "signable_request \<Rightarrow> signing_credentials \<Rightarrow> string \<Rightarrow> (string \<times> string) list" where
  "headersToSign req cred amzDate = (let given = supplied (sr_headers req) in sr_headers req
     @ (if ''x-amz-date'' \<notin> given then [(''x-amz-date'', amzDate)] else [])
     @ (if sc_service cred = ''s3'' \<and> ''x-amz-content-sha256'' \<notin> given then [(''x-amz-content-sha256'', sr_payloadHash req)] else [])
     @ (case sc_sessionToken cred of Some t \<Rightarrow>
          if t \<noteq> [] \<and> ''x-amz-security-token'' \<notin> given then [(''x-amz-security-token'', t)] else [] | None \<Rightarrow> []))"

definition authorizationFor :: "crypto \<Rightarrow> hmac \<Rightarrow> signing_credentials \<Rightarrow> string \<Rightarrow> string \<Rightarrow> string \<Rightarrow> string" where
  "authorizationFor C H cred amzDate canonicalRequest signedHeaders = (let dateStamp = take 8 amzDate;
       signature = hex_text (H (signingKey H (sc_secretAccessKey cred) dateStamp (sc_region cred) (sc_service cred))
         (utf8_encode (buildStringToSign C canonicalRequest amzDate cred))) in
     ALGORITHM @ '' Credential='' @ sc_accessKeyId cred @ ''/'' @ credentialScope cred dateStamp @ '', SignedHeaders=''
       @ signedHeaders @ '', Signature='' @ signature)"

definition signRequest :: "crypto \<Rightarrow> hmac \<Rightarrow> int \<Rightarrow> signable_request \<Rightarrow> signing_credentials \<Rightarrow> exn + signed_request" where
  "signRequest C H now req cred = (let amzDate = amzDateOf now; headers = headersToSign req cred amzDate in
     bindE (buildCanonicalRequest (req\<lparr>sr_headers := headers\<rparr>)) (\<lambda>canonicalRequest.
     let authorization = authorizationFor C H cred amzDate canonicalRequest (snd (canonicalHeaders headers)) in
     Inr \<lparr>sd_authorization = authorization,
       sd_headers = setMember ''authorization'' authorization (fold (\<lambda>(nm, v). setMember (headerName nm) v) headers []),
       sd_canonicalRequest = canonicalRequest, sd_stringToSign = buildStringToSign C canonicalRequest amzDate cred\<rparr>))"

section \<open>What the other side checks\<close>

text \<open>
  The verification a storage server is documented to make, from the request as it arrives: every header but the
  authorization itself is signed, the path is taken as written on the request line, the query is re-ordered, and the
  payload is hashed again.
\<close>

definition signedNames :: "(string \<times> string) list \<Rightarrow> string list" where
  "signedNames headers = sort (filter (\<lambda>n. n \<noteq> ''authorization'') (map fst headers))"

definition arrivedRequest :: "string \<Rightarrow> string \<Rightarrow> string \<Rightarrow> (string \<times> string) list \<Rightarrow> string \<Rightarrow> exn + string" where
  "arrivedRequest meth wirePath wireQuery headers payloadHash = bindE (canonicalQuery wireQuery) (\<lambda>q.
     Inr (js_join [CHR 0x0A] [meth, wirePath, q,
       concat (map (\<lambda>n. n @ '':'' @ headerValue (the (map_of headers n)) @ [CHR 0x0A]) (signedNames headers)),
       js_join '';'' (signedNames headers), payloadHash]))"

definition serverAccepts ::
    "crypto \<Rightarrow> hmac \<Rightarrow> signing_credentials \<Rightarrow> string \<Rightarrow> string \<Rightarrow> string \<Rightarrow> (string \<times> string) list \<Rightarrow> string \<Rightarrow> bool" where
  "serverAccepts C H cred meth wirePath wireQuery headers body =
     (case (map_of headers ''x-amz-date'', arrivedRequest meth wirePath wireQuery headers (sha256Hex C body)) of
        (Some d, Inr r) \<Rightarrow>
          map_of headers ''authorization'' = Some (authorizationFor C H cred d r (js_join '';'' (signedNames headers))) \<and>
          map_of headers ''x-amz-content-sha256'' = Some (sha256Hex C body) \<and> distinct (map fst headers)
      | _ \<Rightarrow> False)"

text \<open>Headers that are already in the form the signer gives them.\<close>

definition plain_header :: "string \<times> string \<Rightarrow> bool" where
  "plain_header h \<longleftrightarrow> headerName (fst h) = fst h \<and> fst h \<noteq> ''authorization''"

lemma setMember_new: "k \<notin> fst ` set es \<Longrightarrow> setMember k v es = es @ [(k, v)]"
  by (induction es) auto

lemma groupInto_new: "k \<notin> fst ` set g \<Longrightarrow> groupInto k v g = g @ [(k, [v])]"
  by (induction g) auto

lemma fold_setMember:
  "distinct (map fst hs) \<Longrightarrow> list_all plain_header hs \<Longrightarrow> fst ` set hs \<inter> fst ` set es = {} \<Longrightarrow>
    fold (\<lambda>(nm, v). setMember (headerName nm) v) hs es = es @ hs"
  by (induction hs arbitrary: es) (auto simp: plain_header_def setMember_new)

lemma fold_groupInto:
  "distinct (map fst hs) \<Longrightarrow> list_all plain_header hs \<Longrightarrow> fst ` set hs \<inter> fst ` set g = {} \<Longrightarrow>
    fold (\<lambda>(nm, v). groupInto (headerName nm) (headerValue v)) hs g = g @ map (\<lambda>(n, v). (n, [headerValue v])) hs"
  by (induction hs arbitrary: g) (auto simp: plain_header_def groupInto_new)

lemma plain_canonicalHeaders:
  assumes "distinct (map fst hs)" "list_all plain_header hs"
  shows "canonicalHeaders hs =
    (concat (map (\<lambda>n. n @ '':'' @ headerValue (the (map_of hs n)) @ [CHR 0x0A]) (sort (map fst hs))), js_join '';'' (sort (map fst hs)))"
proof -
  let ?g = "map (\<lambda>(n, v). (n, [headerValue v])) hs"
  have g: "groupHeaders hs = ?g" using fold_groupInto [OF assms, of "[]"] by (simp add: groupHeaders_def)
  have n: "map fst (groupHeaders hs) = map fst hs" by (simp add: g comp_def split_def)
  have v: "the (map_of ?g n) = [headerValue (the (map_of hs n))]" if "n \<in> fst ` set hs" for n
    using that by (induction hs) auto
  have m: "map (\<lambda>n. n @ '':'' @ js_join '','' (the (map_of (groupHeaders hs) n)) @ [CHR 0x0A]) (sort (map fst hs)) =
      map (\<lambda>n. n @ '':'' @ headerValue (the (map_of hs n)) @ [CHR 0x0A]) (sort (map fst hs))"
  proof (rule map_cong [OF refl])
    fix n assume "n \<in> set (sort (map fst hs))"
    then show "n @ '':'' @ js_join '','' (the (map_of (groupHeaders hs) n)) @ [CHR 0x0A] =
        n @ '':'' @ headerValue (the (map_of hs n)) @ [CHR 0x0A]" using v [of n] by (simp add: g)
  qed
  show ?thesis unfolding canonicalHeaders_def Let_def n m ..
qed

lemma headersToSign_plain:
  assumes "distinct (map fst (sr_headers req))" "list_all plain_header (sr_headers req)"
  shows "distinct (map fst (headersToSign req cred d))" "list_all plain_header (headersToSign req cred d)"
proof -
  have s: "supplied (sr_headers req) = fst ` set (sr_headers req)"
    using assms(2) by (force simp: supplied_def plain_header_def list_all_iff)
  have w: "headerName ''x-amz-date'' = ''x-amz-date''" "headerName ''x-amz-content-sha256'' = ''x-amz-content-sha256''"
    "headerName ''x-amz-security-token'' = ''x-amz-security-token''" by code_simp+
  show "distinct (map fst (headersToSign req cred d))"
    using assms(1) by (auto simp: headersToSign_def s Let_def split: option.split)
  show "list_all plain_header (headersToSign req cred d)"
    using assms(2) by (auto simp: headersToSign_def plain_header_def w Let_def split: option.split)
qed

lemma canonicalUri_encodeSegments: "path \<noteq> [] \<Longrightarrow> canonicalUri path = encodeSegments path"
  by (simp add: canonicalUri_def encodeSegments_def)

lemma map_of_distinct_append: "x \<notin> fst ` set hs \<Longrightarrow> map_of (hs @ [(x, v)]) k = (if k = x then Some v else map_of hs k)"
  by (induction hs) auto

lemma sign_parts:
  assumes "signRequest C H now req cred = Inr s"
  defines "hs \<equiv> headersToSign req cred (amzDateOf now)"
  shows "\<exists>r. buildCanonicalRequest (req\<lparr>sr_headers := hs\<rparr>) = Inr r \<and>
    sd_authorization s = authorizationFor C H cred (amzDateOf now) r (snd (canonicalHeaders hs)) \<and>
    sd_headers s = setMember ''authorization'' (sd_authorization s) (fold (\<lambda>(nm, v). setMember (headerName nm) v) hs [])"
  using assms(1) unfolding signRequest_def Let_def bindE_Inr_iff hs_def by auto

lemma sign_query: "signRequest C H now req cred = Inr s \<Longrightarrow> \<exists>q. canonicalQuery (sr_query req) = Inr q"
  by (cases "canonicalQuery (sr_query req)") (auto simp: signRequest_def buildCanonicalRequest_def Let_def split: prod.splits)

lemma sign_accepted:
  assumes signed: "signRequest C H now req cred = Inr s"
    and plain: "distinct (map fst (sr_headers req))" "list_all plain_header (sr_headers req)"
    and s3: "sc_service cred = ''s3''"
    and free: "''x-amz-date'' \<notin> fst ` set (sr_headers req)" "''x-amz-content-sha256'' \<notin> fst ` set (sr_headers req)"
    and body: "sr_payloadHash req = sha256Hex C body" and path: "js_starts_with (sr_path req) ''/''"
    and meth: "js_upper_ascii (sr_method req) = sr_method req"
  shows "serverAccepts C H cred (sr_method req) (encodePath (sr_path req)) (sr_query req) (sd_headers s) body"
proof -
  define d where "d = amzDateOf now"
  define hs where "hs = headersToSign req cred d"
  note p = headersToSign_plain [OF plain, of cred d, folded hs_def]
  obtain q where q: "canonicalQuery (sr_query req) = Inr q" using sign_query [OF signed] by blast
  have ne: "sr_path req \<noteq> []" using path by (auto simp: js_starts_with_def)
  define a where "a = sd_authorization s"
  have fresh: "''authorization'' \<notin> fst ` set hs" using p(2) by (auto simp: list_all_iff plain_header_def)
  obtain r where r: "buildCanonicalRequest (req\<lparr>sr_headers := hs\<rparr>) = Inr r"
      "a = authorizationFor C H cred d r (snd (canonicalHeaders hs))"
      "sd_headers s = setMember ''authorization'' a (fold (\<lambda>(nm, v). setMember (headerName nm) v) hs [])"
    using sign_parts [OF signed] unfolding hs_def d_def a_def by blast
  have out: "sd_headers s = hs @ [(''authorization'', a)]"
    using r(3) fold_setMember [OF p, of "[]"] fresh by (simp add: setMember_new)
  have names: "signedNames (sd_headers s) = sort (map fst hs)"
  proof -
    have "filter (\<lambda>n. n \<noteq> ''authorization'') (map fst hs) = map fst hs"
      using p(2) by (auto simp: filter_id_conv list_all_iff plain_header_def)
    then show ?thesis by (simp add: signedNames_def out)
  qed
  have vals: "map (\<lambda>n. n @ '':'' @ headerValue (the (map_of (sd_headers s) n)) @ [CHR 0x0A]) (sort (map fst hs)) =
      map (\<lambda>n. n @ '':'' @ headerValue (the (map_of hs n)) @ [CHR 0x0A]) (sort (map fst hs))"
    using fresh by (intro map_cong refl) (force simp: out map_of_distinct_append simp del: map_of_append)
  have uri: "canonicalUri (sr_path req) = encodePath (sr_path req)"
    using canonicalUri_encodeSegments [OF ne] path by (simp add: encodePath_def)
  have arrived: "arrivedRequest (sr_method req) (encodePath (sr_path req)) (sr_query req) (sd_headers s) (sha256Hex C body) = Inr r"
    using r(1) unfolding arrivedRequest_def names vals
    by (simp add: buildCanonicalRequest_def plain_canonicalHeaders [OF p] q meth uri body)
  have auth: "a = authorizationFor C H cred d r (js_join '';'' (sort (map fst hs)))"
    using r(2) by (simp add: plain_canonicalHeaders [OF p])
  have date: "map_of hs ''x-amz-date'' = Some d" "map_of hs ''x-amz-content-sha256'' = Some (sr_payloadHash req)"
  proof -
    have s: "supplied (sr_headers req) = fst ` set (sr_headers req)"
      using plain(2) by (force simp: supplied_def plain_header_def list_all_iff)
    show "map_of hs ''x-amz-date'' = Some d" "map_of hs ''x-amz-content-sha256'' = Some (sr_payloadHash req)"
      using free s3 by (auto simp: hs_def headersToSign_def s Let_def map_add_def map_of_eq_None_iff [symmetric] simp del: map_of_eq_None_iff)
  qed
  have got: "map_of (sd_headers s) ''x-amz-date'' = Some d"
      "map_of (sd_headers s) ''x-amz-content-sha256'' = Some (sha256Hex C body)"
      "map_of (sd_headers s) ''authorization'' = Some a" "distinct (map fst (sd_headers s))"
    using date fresh p(1) body unfolding out map_of_distinct_append [OF fresh] by simp_all
  show ?thesis unfolding serverAccepts_def got(1-3) arrived names using got(4) by (simp add: auth)
qed

end
