(* ===== verification/Pinned_Transport.thy ===== *)
theory Pinned_Transport
  imports Url_Guard Uri
begin

text \<open>
  The pinned transport of \<open>bff-server/backup-destination-driver.ts\<close>: the only way from a driver to a socket. Node's
  HTTP client is the parameter \<open>W\<close>, a request on the wire to a response; a request carries the resolver its agent was
  given. An exception is a connection failure or the timeout.
\<close>

definition REQUEST_TIMEOUT_MS :: int where "REQUEST_TIMEOUT_MS = 30000"

record transport_request =
  tr_method :: string
  tr_path :: string
  tr_query :: string
  tr_headers :: "(string \<times> string) list"
  tr_body :: "string option"

record wire_request =
  wi_secure :: bool
  wi_host :: string
  wi_port :: int
  wi_method :: string
  wi_path :: string
  wi_headers :: "(string \<times> string) list"
  wi_body :: string
  wi_timeout :: int
  wi_lookup :: "bool \<Rightarrow> string \<Rightarrow> (string \<times> int) list"

type_synonym 'x wire = "wire_request \<Rightarrow> ('x, http_response) io"
type_synonym 'x transport = "transport_request \<Rightarrow> ('x, http_response) io"

definition wireRequest :: "vetted \<Rightarrow> transport_request \<Rightarrow> wire_request" where
  "wireRequest v req = \<lparr>wi_secure = (vt_protocol v = ''https:''), wi_host = vt_hostname v, wi_port = vt_port v,
     wi_method = tr_method req, wi_path = encodePath (tr_path req) @ (if tr_query req = [] then [] else CHR ''?'' # tr_query req),
     wi_headers = tr_headers req, wi_body = (case tr_body req of Some b \<Rightarrow> b | None \<Rightarrow> []), wi_timeout = REQUEST_TIMEOUT_MS,
     wi_lookup = pinnedLookup v\<rparr>"

definition createPinnedTransport :: "vetted \<Rightarrow> 'x wire \<Rightarrow> 'x transport" where
  "createPinnedTransport v W req = W (wireRequest v req)"

section \<open>Reading a request line\<close>

text \<open>The path and the query of a request line, as a server separates them.\<close>

definition linePath :: "wire_request \<Rightarrow> string" where
  "linePath w = takeWhile (\<lambda>c. c \<noteq> CHR ''?'') (wi_path w)"

definition lineQuery :: "wire_request \<Rightarrow> string" where
  "lineQuery w = drop (Suc (length (linePath w))) (wi_path w)"

lemma set_js_join: "set (js_join sep ps) \<subseteq> set sep \<union> \<Union> (set ` set ps)"
  by (induction ps rule: induct_list012) auto

lemma encodeSegments_chars: "c \<in> set (encodeSegments p) \<Longrightarrow> uri_unreserved c \<or> c = CHR ''%'' \<or> c = CHR ''/''"
proof -
  assume "c \<in> set (encodeSegments p)"
  then have "c \<in> set ''/'' \<or> (\<exists>s. c \<in> set (uriEncode s))"
    using set_js_join [of "''/''" "map uriEncode (js_split (CHR ''/'') p)"] unfolding encodeSegments_def by auto
  then show ?thesis using uriEncode_char by auto
qed

lemma encodePath_chars: "c \<in> set (encodePath p) \<Longrightarrow> uri_unreserved c \<or> c = CHR ''%'' \<or> c = CHR ''/''"
  unfolding encodePath_def by (rule encodeSegments_chars)

lemma query_mark_reserved: "\<not> (uri_unreserved (CHR ''?'') \<or> CHR ''?'' = CHR ''%'' \<or> CHR ''?'' = CHR ''/'')"
  by (simp add: uri_unreserved_def)

lemma encodePath_no_query: "CHR ''?'' \<notin> set (encodePath p)"
  using query_mark_reserved encodePath_chars by blast

lemma takeWhile_before: "c \<notin> set a \<Longrightarrow> takeWhile (\<lambda>x. x \<noteq> c) (a @ c # b) = a" "c \<notin> set a \<Longrightarrow> takeWhile (\<lambda>x. x \<noteq> c) a = a"
  by (induction a) auto

lemma wire_line [simp]:
  "linePath (wireRequest v req) = encodePath (tr_path req)" "lineQuery (wireRequest v req) = tr_query req"
proof -
  show "linePath (wireRequest v req) = encodePath (tr_path req)"
    by (simp add: linePath_def wireRequest_def takeWhile_before encodePath_no_query)
  then show "lineQuery (wireRequest v req) = tr_query req" by (simp add: lineQuery_def) (simp add: wireRequest_def)
qed

lemma wire_fields [simp]:
  "wi_method (wireRequest v req) = tr_method req" "wi_headers (wireRequest v req) = tr_headers req"
  "wi_body (wireRequest v req) = (case tr_body req of Some b \<Rightarrow> b | None \<Rightarrow> [])" "wi_lookup (wireRequest v req) = pinnedLookup v"
  "wi_host (wireRequest v req) = vt_hostname v" "wi_port (wireRequest v req) = vt_port v"
  by (simp_all add: wireRequest_def)

end
