(* ===== verification/Destination_Store.thy ===== *)
theory Destination_Store
  imports Job_Store Secret_Crypto
begin

text \<open>
  \<open>bff-server/backup-destination-store.ts\<close>: the storage destinations of a user and their sealed credentials. A
  document carries the fields of both kinds of destination, \<open>None\<close> where it lacks one; \<open>secretEnc\<close> is
  excluded from every view. The unique index on owner and label is the collection's: an insert or update it
  refuses throws \<open>duplicateKey\<close>.
\<close>

datatype test_result = TestOk | TestFailed string

record destination =
  ds_id :: string
  ds_userId :: string
  ds_type :: string
  ds_label :: string
  ds_endpoint :: string
  ds_basePath :: string
  ds_bucket :: "string option"
  ds_region :: "string option"
  ds_pathStyle :: "bool option"
  ds_accessKeyId :: "string option"
  ds_username :: "string option"
  ds_secretEnc :: "string option"
  ds_lastTestedAt :: "string option"
  ds_lastTestResult :: "test_result option"
  ds_createdAt :: string
  ds_updatedAt :: string

record destination_view =
  dv_id :: string
  dv_type :: string
  dv_label :: string
  dv_endpoint :: string
  dv_basePath :: string
  dv_bucket :: "string option"
  dv_region :: "string option"
  dv_pathStyle :: "bool option"
  dv_accessKeyId :: "string option"
  dv_username :: "string option"
  dv_lastTestedAt :: "string option"
  dv_lastTestResult :: "test_result option"
  dv_createdAt :: string
  dv_updatedAt :: string

record destination_input =
  di_type :: string
  di_label :: string
  di_endpoint :: string
  di_basePath :: "string option"
  di_bucket :: "string option"
  di_region :: "string option"
  di_pathStyle :: "bool option"
  di_accessKeyId :: "string option"
  di_username :: "string option"
  di_secret :: "string option"

record destination_patch =
  dp_type :: "string option"
  dp_label :: "string option"
  dp_endpoint :: "string option"
  dp_basePath :: "string option"
  dp_bucket :: "string option"
  dp_region :: "string option"
  dp_pathStyle :: "bool option"
  dp_accessKeyId :: "string option"
  dp_username :: "string option"
  dp_secret :: "string option"

definition destinationView :: "destination \<Rightarrow> destination_view" where
  "destinationView d = \<lparr>dv_id = ds_id d, dv_type = ds_type d, dv_label = ds_label d, dv_endpoint = ds_endpoint d,
     dv_basePath = ds_basePath d, dv_bucket = ds_bucket d, dv_region = ds_region d, dv_pathStyle = ds_pathStyle d,
     dv_accessKeyId = ds_accessKeyId d, dv_username = ds_username d, dv_lastTestedAt = ds_lastTestedAt d,
     dv_lastTestResult = ds_lastTestResult d, dv_createdAt = ds_createdAt d, dv_updatedAt = ds_updatedAt d\<rparr>"

text \<open>\<open>x || d\<close> on an optional text.\<close>

definition text_or :: "string option \<Rightarrow> string \<Rightarrow> string" where
  "text_or x d = (case x of Some t \<Rightarrow> if t = [] then d else t | None \<Rightarrow> d)"

definition sealDestinationSecret :: "gcm \<Rightarrow> env \<Rightarrow> string \<Rightarrow> string \<Rightarrow> string \<Rightarrow> string \<Rightarrow> exn + string" where
  "sealDestinationSecret G E iv uid destinationId secret =
     bindE (backupEncryptionKey E) (\<lambda>key. encryptSecret G iv secret key (backupSecretAad uid destinationId))"

definition sealOptional :: "gcm \<Rightarrow> env \<Rightarrow> string \<Rightarrow> string \<Rightarrow> string \<Rightarrow> string option \<Rightarrow> exn + string option" where
  "sealOptional G E iv uid destinationId secret = (case secret of
     None \<Rightarrow> Inr None
   | Some s \<Rightarrow> bindE (sealDestinationSecret G E iv uid destinationId s) (\<lambda>blob. Inr (Some blob)))"

definition newDestination :: "int \<Rightarrow> string \<Rightarrow> string \<Rightarrow> destination_input \<Rightarrow> string option \<Rightarrow> destination" where
  "newDestination now freshId uid i secretEnc = (let s3 = (di_type i = ''s3'') in
     \<lparr>ds_id = freshId, ds_userId = uid, ds_type = di_type i, ds_label = di_label i, ds_endpoint = di_endpoint i,
      ds_basePath = text_or (di_basePath i) ''mcm-backups'',
      ds_bucket = (if s3 then Some (or_old (di_bucket i) []) else None),
      ds_region = (if s3 then Some (text_or (di_region i) ''us-east-1'') else None),
      ds_pathStyle = (if s3 then Some (or_old (di_pathStyle i) True) else None),
      ds_accessKeyId = (if s3 then Some (or_old (di_accessKeyId i) []) else None),
      ds_username = (if s3 then None else Some (or_old (di_username i) [])),
      ds_secretEnc = secretEnc, ds_lastTestedAt = None, ds_lastTestResult = None,
      ds_createdAt = to_iso now, ds_updatedAt = to_iso now\<rparr>)"

definition labelTaken :: exn where
  "labelTaken = BackupDestinationInputError ''You already have a destination with that label''"

definition uniqueLabel :: "('m, 'a) io \<Rightarrow> ('m, 'a) io" where
  "uniqueLabel write = catchM write (\<lambda>err. throwM (if err = duplicateKey then labelTaken else err))"

definition createDestination ::
    "gcm \<Rightarrow> env \<Rightarrow> ('m, destination) coll \<Rightarrow> string \<Rightarrow> int \<Rightarrow> string \<Rightarrow> string \<Rightarrow> destination_input \<Rightarrow> ('m, destination_view) io" where
  "createDestination G E D iv now freshId uid input =
     (if di_secret input = Some [] then throwM (BackupDestinationInputError ''A destination secret cannot be empty'')
      else bindM (liftE (sealOptional G E iv uid freshId (di_secret input))) (\<lambda>secretEnc.
        let d = newDestination now freshId uid input secretEnc in
        thenM (uniqueLabel (cl_insert D freshId d)) (returnM (destinationView d))))"

definition listDestinations :: "('m, destination) coll \<Rightarrow> string \<Rightarrow> ('m, destination_view list) io" where
  "listDestinations D uid = bindM (cl_find D (\<lambda>d. ds_userId d = uid)) (\<lambda>ds.
     returnM (map destinationView (sort_key ds_label ds)))"

definition getDestination :: "('m, destination) coll \<Rightarrow> string \<Rightarrow> string \<Rightarrow> ('m, destination_view option) io" where
  "getDestination D uid destinationId = bindM (cl_findOne D destinationId (\<lambda>d. ds_userId d = uid)) (\<lambda>d.
     returnM (map_option destinationView d))"

definition getDestinationSecret ::
    "gcm \<Rightarrow> env \<Rightarrow> ('m, destination) coll \<Rightarrow> string \<Rightarrow> string \<Rightarrow> ('m, string option) io" where
  "getDestinationSecret G E D uid destinationId = bindM (cl_findOne D destinationId (\<lambda>d. ds_userId d = uid)) (\<lambda>doc.
     case doc of None \<Rightarrow> returnM None
     | Some d \<Rightarrow> (case text_or (ds_secretEnc d) [] of
         [] \<Rightarrow> returnM None
       | c # cs \<Rightarrow> liftE (bindE (backupEncryptionKey E) (\<lambda>key.
           bindE (decryptSecret G (c # cs) key (backupSecretAad uid destinationId)) (\<lambda>p. Inr (Some p))))))"

definition setDestination :: "destination_patch \<Rightarrow> string option \<Rightarrow> int \<Rightarrow> destination \<Rightarrow> destination" where
  "setDestination p secretEnc now d = (let keep = (\<lambda>new old. case new of Some v \<Rightarrow> Some v | None \<Rightarrow> old) in
     d\<lparr>ds_type := or_old (dp_type p) (ds_type d), ds_label := or_old (dp_label p) (ds_label d),
       ds_endpoint := or_old (dp_endpoint p) (ds_endpoint d), ds_basePath := or_old (dp_basePath p) (ds_basePath d),
       ds_bucket := keep (dp_bucket p) (ds_bucket d), ds_region := keep (dp_region p) (ds_region d),
       ds_pathStyle := (case dp_pathStyle p of Some v \<Rightarrow> Some v | None \<Rightarrow> ds_pathStyle d),
       ds_accessKeyId := keep (dp_accessKeyId p) (ds_accessKeyId d), ds_username := keep (dp_username p) (ds_username d),
       ds_secretEnc := keep secretEnc (ds_secretEnc d), ds_updatedAt := to_iso now\<rparr>)"

definition updateDestination ::
    "gcm \<Rightarrow> env \<Rightarrow> ('m, destination) coll \<Rightarrow> string \<Rightarrow> int \<Rightarrow> string \<Rightarrow> string \<Rightarrow> destination_patch \<Rightarrow>
     ('m, destination_view option) io" where
  "updateDestination G E D iv now uid destinationId patch =
     (if dp_secret patch = Some []
      then throwM (BackupDestinationInputError ''A destination secret cannot be set to empty. Omit it to keep the stored one.'')
      else bindM (liftE (sealOptional G E iv uid destinationId (dp_secret patch))) (\<lambda>secretEnc.
        bindM (uniqueLabel (cl_update D destinationId (\<lambda>d. ds_userId d = uid) (setDestination patch secretEnc now)))
          (\<lambda>doc. returnM (map_option destinationView doc))))"

definition recordTestResult :: "('m, destination) coll \<Rightarrow> int \<Rightarrow> string \<Rightarrow> string \<Rightarrow> test_result \<Rightarrow> ('m, unit) io" where
  "recordTestResult D now uid destinationId result = thenM
     (cl_update D destinationId (\<lambda>d. ds_userId d = uid)
        (\<lambda>d. d\<lparr>ds_lastTestedAt := Some (to_iso now), ds_lastTestResult := Some result\<rparr>))
     (returnM ())"

definition deleteDestination ::
    "('m, destination) coll \<Rightarrow> ('m, job) coll \<Rightarrow> int \<Rightarrow> string \<Rightarrow> string \<Rightarrow> ('m, bool) io" where
  "deleteDestination D J now uid destinationId =
     thenM (cl_updateMany J (\<lambda>j. jb_userId j = uid \<and> jb_destinationId j = destinationId)
              (\<lambda>j. j\<lparr>jb_enabled := False, jb_updatedAt := to_iso now, jb_nextRunAt := None\<rparr>))
    (bindM (cl_delete D destinationId (\<lambda>d. ds_userId d = uid)) (\<lambda>n. returnM (n = 1)))"

section \<open>Destinations beside the jobs\<close>

text \<open>The two collections of one database, neither touching the documents of the other.\<close>

locale destination_db = job_db J jview D + dests: collection_up D dview
  for J :: "('m, job) coll" and jview :: "'m \<Rightarrow> string \<Rightarrow> job option"
    and D :: "('m, destination) coll" and dview :: "'m \<Rightarrow> string \<Rightarrow> destination option" +
  assumes job_leaves: "leaves_alone J dview"
begin

lemmas job_leaves_dests [simp] = leaves_aloneD [OF job_leaves]
lemmas dest_sims = io_simps dests.results dests.views

lemma secret_of:
  "fst (getDestinationSecret G E D u i m) = (case hit (dview m) i (\<lambda>d. ds_userId d = u) of
     None \<Rightarrow> Inr None
   | Some d \<Rightarrow> (case text_or (ds_secretEnc d) [] of
         [] \<Rightarrow> Inr None
       | c # cs \<Rightarrow> bindE (backupEncryptionKey E) (\<lambda>key.
           bindE (decryptSecret G (c # cs) key (backupSecretAad u i)) (\<lambda>p. Inr (Some p)))))"
  by (simp add: getDestinationSecret_def dest_sims split: option.split list.split)

lemma secret_leaves: "snd (getDestinationSecret G E D u i m) = snd (cl_findOne D i (\<lambda>d. ds_userId d = u) m)"
  by (simp add: getDestinationSecret_def dest_sims split: option.split list.split)

lemma created:
  assumes "createDestination G E D iv now i u input m = (Inr v, m')"
  shows "di_secret input \<noteq> Some [] \<and> (\<exists>blob. sealOptional G E iv u i (di_secret input) = Inr blob \<and>
     dview m' = (dview m)(i \<mapsto> newDestination now i u input blob))"
  using assms
  by (auto simp: createDestination_def uniqueLabel_def Let_def dest_sims split: if_splits sum.splits)

lemma updated:
  assumes "updateDestination G E D iv now u i patch m = (Inr v, m')"
  shows "\<exists>blob. sealOptional G E iv u i (dp_secret patch) = Inr blob \<and>
     dview m' = (case hit (dview m) i (\<lambda>d. ds_userId d = u) of
        Some d \<Rightarrow> (dview m)(i \<mapsto> setDestination patch blob now d) | None \<Rightarrow> dview m)"
  using assms
  by (auto simp: updateDestination_def uniqueLabel_def Let_def dest_sims split: if_splits sum.splits option.splits)

lemma delete_views:
  "jview (snd (deleteDestination D J now u i m)) = (\<lambda>k. map_option (\<lambda>j. if jb_userId j = u \<and> jb_destinationId j = i
     then j\<lparr>jb_enabled := False, jb_updatedAt := to_iso now, jb_nextRunAt := None\<rparr> else j) (jview m k))"
  "dview (snd (deleteDestination D J now u i m)) = (if hit (dview m) i (\<lambda>d. ds_userId d = u) = None then dview m else (dview m)(i := None))"
  "fst (deleteDestination D J now u i m) = Inr (hit (dview m) i (\<lambda>d. ds_userId d = u) \<noteq> None)"
  by (auto simp: deleteDestination_def dest_sims jobs.results jobs.views)

lemma due_jobs:
  assumes "fst (findDueJobs J now n m) = Inr ds" "j \<in> set ds"
  shows "j \<in> ran (jview m)" "dueFilter (to_iso now) j"
proof -
  obtain all where a: "fst (cl_find J (dueFilter (to_iso now)) m) = Inr all" "set all = {d \<in> ran (jview m). dueFilter (to_iso now) d}"
    using jobs.find_result by blast
  have "ds = take n (sort_key (\<lambda>d. case jb_nextRunAt d of Some n \<Rightarrow> n | None \<Rightarrow> []) all)"
    using assms(1) unfolding findDueJobs_def bindM_run a(1) by simp
  then have "j \<in> set all" using assms(2) by (metis in_set_takeD set_sort)
  with a(2) show "j \<in> ran (jview m)" "dueFilter (to_iso now) j" by auto
qed

end

lemma encrypted_not_empty:
  assumes "encryptSecret G iv p key aad = Inr blob" "iv \<noteq> []"
  shows "blob \<noteq> []"
proof
  assume "blob = []"
  moreover obtain rest where "blob = base64_encode (iv @ rest)"
    using assms(1) unfolding encryptSecret_def bindE_Inr_iff case_prod_beta by auto
  ultimately have "base64_decode [] = iv @ rest" using base64_decode_encode [of "iv @ rest"] by simp
  then show False using assms(2) by (simp add: base64_decode_def List.map_filter_simps)
qed

text \<open>The reference: jobs and destinations side by side, a job of \<open>due_job\<close>'s owner, and one S3 destination.\<close>

definition pair_jobs :: "(job docs \<times> destination docs, job) coll" where "pair_jobs = part_of fst apfst ref_coll"
definition pair_dests :: "(job docs \<times> destination docs, destination) coll" where "pair_dests = part_of snd apsnd ref_coll"

interpretation pair_db: destination_db pair_jobs "\<lambda>m. doc_view (fst m)" pair_dests "\<lambda>m. doc_view (snd m)"
  by (intro destination_db.intro destination_db_axioms.intro job_db.intro job_db_axioms.intro)
    (simp_all add: pair_jobs_def pair_dests_def part_of_leaves_alone part_of_up [OF ref_coll.collection_up_axioms])

definition backup_env :: env where "backup_env = default_env\<lparr>backupCredentialEncKey := demo_key\<rparr>"

definition nas_input :: destination_input where
  "nas_input = \<lparr>di_type = ''s3'', di_label = ''NAS'', di_endpoint = ''https://nas.example'', di_basePath = None, di_bucket = Some ''b'',
     di_region = None, di_pathStyle = None, di_accessKeyId = Some ''ak'', di_username = None, di_secret = Some ''s3cr3t''\<rparr>"

definition rename_patch :: destination_patch where
  "rename_patch = \<lparr>dp_type = Some ''s3'', dp_label = Some ''Cellar'', dp_endpoint = None, dp_basePath = None, dp_bucket = None,
     dp_region = None, dp_pathStyle = None, dp_accessKeyId = None, dp_username = None, dp_secret = None\<rparr>"

lemma backup_env_key: "backupEncryptionKey backup_env = Inr demo_key" "loadKey demo_key = Inr (replicate 32 (CHR ''k''))"
  by (simp_all add: backupEncryptionKey_def backup_env_def demo_key_facts KEY_BYTES_def loadKey_def)

lemma nas_created:
  obtains m1 where "createDestination ref_gcm backup_env pair_dests (replicate 12 (CHR ''i'')) now ''d'' ''u'' nas_input ([], []) =
    (Inr (destinationView (snd (hd (snd m1)))), m1)"
proof -
  obtain blob where b: "encryptSecret ref_gcm (replicate 12 (CHR ''i'')) ''s3cr3t'' demo_key (backupSecretAad ''u'' ''d'') = Inr blob"
    by (simp add: encryptSecret_def backup_env_key case_prod_beta)
  let ?m1 = "([], [(''d'', newDestination now ''d'' ''u'' nas_input (Some blob))])"
  have "createDestination ref_gcm backup_env pair_dests (replicate 12 (CHR ''i'')) now ''d'' ''u'' nas_input ([], []) =
      (Inr (destinationView (snd (hd (snd ?m1)))), ?m1)"
    using b by (simp add: createDestination_def nas_input_def sealOptional_def sealDestinationSecret_def backup_env_key uniqueLabel_def
        Let_def io_simps pair_dests_def part_of_def on_part_def ref_coll_def)
  then show ?thesis by (rule that)
qed

section \<open>Properties\<close>



text \<open>Once a destination is deleted no job of its owner that pointed to it is ever found due, whatever the
  instant of the tick; the jobs that pointed elsewhere and those of other users are untouched.\<close>
theorem deleted_destination_orphans_stopped:
  assumes "destination_db J jview D dview" "deleteDestination D J now u i m = (Inr True, m')"
  shows "dview m' i = None \<and>
    (\<forall>t n ds. fst (findDueJobs J t n m') = Inr ds \<longrightarrow> \<not> list_ex (\<lambda>j. jb_userId j = u \<and> jb_destinationId j = i) ds) \<and>
    (\<forall>k j. jview m k = Some j \<and> (jb_userId j \<noteq> u \<or> jb_destinationId j \<noteq> i) \<longrightarrow> jview m' k = Some j)"
proof -
  note v = destination_db.delete_views [OF assms(1), of now u i m, unfolded assms(2) fst_conv snd_conv]
  have stopped: "\<not> dueFilter t j" if "j \<in> ran (jview m')" "jb_userId j = u" "jb_destinationId j = i" for t j
  proof -
    from that(1) obtain k where "jview m' k = Some j" by (auto simp: ran_def)
    then obtain j0 where "j = (if jb_userId j0 = u \<and> jb_destinationId j0 = i
        then j0\<lparr>jb_enabled := False, jb_updatedAt := to_iso now, jb_nextRunAt := None\<rparr> else j0)"
      by (simp only: v(1) map_option_eq_Some) blast
    with that(2,3) have "\<not> jb_enabled j" by (simp split: if_splits)
    then show ?thesis by (simp add: dueFilter_def)
  qed
  have "\<not> list_ex (\<lambda>j. jb_userId j = u \<and> jb_destinationId j = i) ds" if "fst (findDueJobs J t n m') = Inr ds" for t n ds
  proof
    assume "list_ex (\<lambda>j. jb_userId j = u \<and> jb_destinationId j = i) ds"
    then obtain j where j: "j \<in> set ds" "jb_userId j = u" "jb_destinationId j = i" by (auto simp: list_ex_iff)
    show False using stopped [OF destination_db.due_jobs(1) [OF assms(1) that j(1)] j(2,3)]
      destination_db.due_jobs(2) [OF assms(1) that j(1)] by blast
  qed
  moreover have "jview m' k = Some j" if "jview m k = Some j" "jb_userId j \<noteq> u \<or> jb_destinationId j \<noteq> i" for k j
    using that by (auto simp: v(1))
  moreover have "dview m' i = None" using v(2,3) by (simp split: if_splits)
  ultimately show ?thesis by blast
qed

theorem deleted_destination_orphans_stopped_witness:
  "\<exists>m'. deleteDestination pair_dests pair_jobs 0 ''u'' ''d'' ([(''j'', due_job)], [(''d'', newDestination 0 ''d'' ''u'' nas_input None)]) = (Inr True, m') \<and>
    doc_view (snd m') ''d'' = None"
proof -
  let ?m = "([(''j'', due_job)], [(''d'', newDestination 0 ''d'' ''u'' nas_input None)])"
  have "\<exists>m'. deleteDestination pair_dests pair_jobs 0 ''u'' ''d'' ?m = (Inr True, m')"
    by (simp add: deleteDestination_def newDestination_def Let_def hit_def io_simps pair_dests_def pair_jobs_def part_of_def
        on_part_def ref_coll_def)
  then obtain m' where m: "deleteDestination pair_dests pair_jobs 0 ''u'' ''d'' ?m = (Inr True, m')" by blast
  then show ?thesis using deleted_destination_orphans_stopped [OF pair_db.destination_db_axioms m] by blast
qed

end
