(* ===== verification/Retention.thy ===== *)
theory Retention
  imports Destination_Store Artifact
begin

text \<open>
  \<open>BackupDestinationDriver\<close> of \<open>bff-server/backup-destination-driver.ts\<close>, \<open>bff-server/backup-retention.ts\<close> and
  \<open>bff-server/backup-version-lister.ts\<close>: the four operations of a storage destination, the keys of a job's artifacts, the
  deletion of the versions beyond the newest ones, and the list of versions a user may restore. The locale
  \<open>object_store\<close> is the contract a driver owes its clients; the drivers discharge it in their own theories.
\<close>

section \<open>The driver interface\<close>

record object_info =
  ob_key :: string
  ob_sizeBytes :: int
  ob_lastModified :: string

datatype probe_outcome = ProbeOk | ProbeFailed string string

text \<open>\<open>None\<close> for an argument that is left to its default.\<close>

record 'x driver =
  dr_put :: "string \<Rightarrow> string \<Rightarrow> string option \<Rightarrow> ('x, unit) io"
  dr_get :: "string \<Rightarrow> ('x, string) io"
  dr_list :: "string \<Rightarrow> nat option \<Rightarrow> ('x, object_info list) io"
  dr_delete :: "string \<Rightarrow> ('x, unit) io"
  dr_testConnection :: "('x, probe_outcome) io"

text \<open>
  The contract. A call that succeeds has done what it says; one that fails may at most have touched the key it
  was about. A listing names objects that are there, each once, and every object directly below its prefix; \<open>okKey\<close>
  says which keys a store tells apart from all others.
\<close>

locale object_store =
  fixes V :: "'x driver" and objects :: "'x \<Rightarrow> string \<Rightarrow> string option" and okKey :: "string \<Rightarrow> bool"
  assumes finite_objects: "finite (dom (objects x))"
    and put_done: "okKey k \<Longrightarrow> fst (dr_put V k b ct x) = Inr () \<Longrightarrow> objects (snd (dr_put V k b ct x)) = (objects x)(k \<mapsto> b)"
    and put_local: "okKey k \<Longrightarrow> k' \<noteq> k \<Longrightarrow> objects (snd (dr_put V k b ct x)) k' = objects x k'"
    and get_done: "okKey k \<Longrightarrow> fst (dr_get V k x) = Inr b \<Longrightarrow> objects x k = Some b"
    and get_reads: "objects (snd (dr_get V k x)) = objects x"
    and list_sound: "fst (dr_list V p n x) = Inr os \<Longrightarrow> k \<in> set (map ob_key os) \<Longrightarrow> k \<in> dom (objects x) \<and> okKey k"
    and list_complete: "fst (dr_list V (q @ ''/'') n x) = Inr os \<Longrightarrow> okKey q \<Longrightarrow> q \<noteq> [] \<Longrightarrow> last q \<noteq> CHR ''/'' \<Longrightarrow>
      objects x (q @ CHR ''/'' # nm) \<noteq> None \<Longrightarrow> CHR ''/'' \<notin> set nm \<Longrightarrow> nm \<noteq> [] \<Longrightarrow> q @ CHR ''/'' # nm \<in> set (map ob_key os)"
    and list_distinct: "fst (dr_list V p n x) = Inr os \<Longrightarrow> distinct (map ob_key os)"
    and list_reads: "objects (snd (dr_list V p n x)) = objects x"
    and delete_done: "okKey k \<Longrightarrow> objects x k \<noteq> None \<Longrightarrow> fst (dr_delete V k x) = Inr () \<Longrightarrow> objects (snd (dr_delete V k x)) = (objects x)(k := None)"
    and delete_local: "okKey k \<Longrightarrow> objects x k \<noteq> None \<Longrightarrow> k' \<noteq> k \<Longrightarrow> objects (snd (dr_delete V k x)) k' = objects x k'"
    and delete_failed: "okKey k \<Longrightarrow> objects x k \<noteq> None \<Longrightarrow> fst (dr_delete V k x) = Inl e \<Longrightarrow> objects (snd (dr_delete V k x)) k \<noteq> None \<Longrightarrow>
      objects (snd (dr_delete V k x)) k = objects x k"

section \<open>Keys\<close>

definition basePathOf :: "destination \<Rightarrow> string" where
  "basePathOf destination = (if ds_basePath destination = [] then ''mcm-backups'' else ds_basePath destination)"

definition jobPrefix :: "destination \<Rightarrow> string \<Rightarrow> string" where
  "jobPrefix destination jobId = basePathOf destination @ ''/'' @ jobId @ ''/''"

definition keyBelongsToJob :: "destination \<Rightarrow> string \<Rightarrow> string \<Rightarrow> bool" where
  "keyBelongsToJob destination jobId key \<longleftrightarrow> js_starts_with key (jobPrefix destination jobId) \<and> \<not> js_includes key ''..''"

text \<open>\<open>yyyy-mm-ddT[0-9:.]+Z.json.gz\<close>\<close>

definition stamp_mid :: "char \<Rightarrow> bool" where "stamp_mid c \<longleftrightarrow> is_digit c \<or> c = CHR '':'' \<or> c = CHR ''.''"

definition is_stamp :: "string \<Rightarrow> bool" where
  "is_stamp s \<longleftrightarrow> 21 \<le> length s \<and> list_all is_digit (take 4 s) \<and> s ! 4 = CHR ''-'' \<and> list_all is_digit (take 2 (drop 5 s)) \<and>
     s ! 7 = CHR ''-'' \<and> list_all is_digit (take 2 (drop 8 s)) \<and> s ! 10 = CHR ''T'' \<and>
     list_all stamp_mid (take (length s - 20) (drop 11 s)) \<and> drop (length s - 9) s = ''Z.json.gz''"

definition ARTIFACT_KEY :: "string \<Rightarrow> bool" where
  "ARTIFACT_KEY key \<longleftrightarrow> 2 \<le> length (js_split (CHR ''/'') key) \<and> is_stamp (last (js_split (CHR ''/'') key))"

section \<open>Pruning\<close>

record prune_outcome =
  po_prunedCount :: int
  po_failureReason :: "string option"

fun deleteEach :: "'x driver \<Rightarrow> string list \<Rightarrow> ('x, int \<times> int) io" where
  "deleteEach V [] = returnM (0, 0)"
| "deleteEach V (key # keys) = bindM (catchM (thenM (dr_delete V key) (returnM (1, 0))) (\<lambda>_. returnM (0, 1))) (\<lambda>(p, f).
     bindM (deleteEach V keys) (\<lambda>(ps, fs). returnM (p + ps, f + fs)))"

definition ownKeys :: "destination \<Rightarrow> string \<Rightarrow> object_info list \<Rightarrow> string list" where
  "ownKeys destination jobId objects = sort (filter (keyBelongsToJob destination jobId) (filter ARTIFACT_KEY (map ob_key objects)))"

definition pruneOldVersions :: "'x driver \<Rightarrow> destination \<Rightarrow> string \<Rightarrow> rat \<Rightarrow> ('x, prune_outcome) io" where
  "pruneOldVersions V destination jobId keepLast =
     bindM (dr_list V (jobPrefix destination jobId) None) (\<lambda>objects.
     let ours = ownKeys destination jobId objects in
     if of_int \<lfloor>keepLast\<rfloor> \<noteq> keepLast \<or> keepLast < 1
     then returnM \<lparr>po_prunedCount = 0, po_failureReason = Some ''The retention count is not a whole number of backups to keep.''\<rparr>
     else (let doomed = take (length ours - nat \<lfloor>keepLast\<rfloor>) ours in
       if doomed = [] then returnM \<lparr>po_prunedCount = 0, po_failureReason = None\<rparr>
       else bindM (deleteEach V doomed) (\<lambda>(prunedCount, failures).
         returnM \<lparr>po_prunedCount = prunedCount, po_failureReason = (if failures > 0
           then Some (''Some older backups could not be removed ('' @ show_int failures @ '' of '' @ show_nat (length doomed)
             @ ''). They will be retried after the next successful backup.'') else None)\<rparr>)))"

definition pruneAfterRun :: "'x driver \<Rightarrow> destination \<Rightarrow> string \<Rightarrow> rat \<Rightarrow> string \<Rightarrow> ('x, prune_outcome) io" where
  "pruneAfterRun V destination jobId keepLast status =
     (if status \<noteq> ''success'' then returnM \<lparr>po_prunedCount = 0, po_failureReason = None\<rparr>
      else pruneOldVersions V destination jobId keepLast)"

section \<open>Versions\<close>

record backup_version =
  bv_key :: string
  bv_createdAt :: string
  bv_sizeBytes :: int
  bv_usable :: bool

definition DEEP_CHECK_COUNT :: nat where "DEEP_CHECK_COUNT = 5"

text \<open>\<open>([0-9]{4}-..Z).json.gz$\<close> finds its stamp in a suffix of the key, wherever it starts.\<close>

fun timestampFromKey :: "string \<Rightarrow> string option" where
  "timestampFromKey [] = None"
| "timestampFromKey (c # s) = (if is_stamp (c # s) then Some (take (length (c # s) - 8) (c # s)) else timestampFromKey s)"

definition usableObject :: "crypto \<Rightarrow> zlib \<Rightarrow> 'x driver \<Rightarrow> string \<Rightarrow> ('x, bool) io" where
  "usableObject C Z V key = catchM (bindM (dr_get V key) (\<lambda>bytes.
     thenM (liftE (bindE (decompressArtifact Z bytes) (verifyArtifact C))) (returnM True))) (\<lambda>_. returnM False)"

fun versionsFrom :: "crypto \<Rightarrow> zlib \<Rightarrow> 'x driver \<Rightarrow> nat \<Rightarrow> object_info list \<Rightarrow> ('x, backup_version list) io" where
  "versionsFrom C Z V index [] = returnM []"
| "versionsFrom C Z V index (ob # obs) =
     (let created = (case timestampFromKey (ob_key ob) of Some t \<Rightarrow> t | None \<Rightarrow> ob_lastModified ob) in
      bindM (if ob_sizeBytes ob = 0 then returnM False
             else if DEEP_CHECK_COUNT \<le> index then returnM True else usableObject C Z V (ob_key ob)) (\<lambda>usable.
      bindM (versionsFrom C Z V (Suc index) obs) (\<lambda>vs. returnM (\<lparr>bv_key = ob_key ob, bv_createdAt = created,
         bv_sizeBytes = ob_sizeBytes ob, bv_usable = usable\<rparr> # vs))))"

text \<open>Newest first; the sort of the source is stable, so equal keys keep the listing's order.\<close>

definition newestFirst :: "object_info list \<Rightarrow> object_info list" where
  "newestFirst objects = rev (sort_key ob_key (rev objects))"

definition listBackupVersions ::
    "crypto \<Rightarrow> zlib \<Rightarrow> gcm \<Rightarrow> env \<Rightarrow> ('x, destination) coll \<Rightarrow> (destination \<Rightarrow> string \<Rightarrow> ('x, 'x driver) io) \<Rightarrow> string \<Rightarrow> job \<Rightarrow>
     ('x, backup_version list) io" where
  "listBackupVersions C Z G E D createBackupDriver uid j =
     bindM (cl_findOne D (jb_destinationId j) (\<lambda>d. ds_userId d = uid)) (\<lambda>doc. case doc of
       None \<Rightarrow> returnM []
     | Some destination \<Rightarrow>
       bindM (getDestinationSecret G E D uid (jb_destinationId j)) (\<lambda>secret. case secret of
         None \<Rightarrow> returnM []
       | Some s \<Rightarrow>
         bindM (createBackupDriver destination s) (\<lambda>V.
         bindM (dr_list V (jobPrefix destination (jb_id j)) None) (\<lambda>objects.
         versionsFrom C Z V 0 (newestFirst objects)))))"

section \<open>What pruning leaves\<close>

definition ownArtifact :: "destination \<Rightarrow> string \<Rightarrow> string \<Rightarrow> bool" where
  "ownArtifact destination jobId key \<longleftrightarrow> ARTIFACT_KEY key \<and> keyBelongsToJob destination jobId key"

text \<open>Not in a folder below the job's own, where a run never writes.\<close>

definition directArtifact :: "destination \<Rightarrow> string \<Rightarrow> string \<Rightarrow> bool" where
  "directArtifact destination jobId key \<longleftrightarrow> ownArtifact destination jobId key \<and>
     CHR ''/'' \<notin> set (drop (length (jobPrefix destination jobId)) key)"

lemma sorted_tail_greater:
  assumes "sorted xs" "distinct xs" "x \<in> set (take n xs)" "y \<in> set (drop n xs)"
  shows "x < y"
proof -
  have "x \<le> y" using sorted_append [of "take n xs" "drop n xs"] assms by simp
  moreover have "x \<noteq> y" using set_take_disj_set_drop_if_distinct [OF assms(2), of n n] assms(3,4) by auto
  ultimately show ?thesis by simp
qed

context object_store
begin

lemma deleteEach_result: "\<exists>p f. fst (deleteEach V ks x) = Inr (p, f) \<and> 0 \<le> f \<and> p + f = int (length ks)"
proof (induction ks arbitrary: x)
  case (Cons k ks)
  define r where "r = dr_delete V k x"
  obtain p f where "fst (deleteEach V ks (snd r)) = Inr (p, f)" "0 \<le> f" "p + f = int (length ks)" using Cons by blast
  then show ?case by (cases "fst r") (auto simp: io_simps r_def)
qed simp

lemma deleteEach_Cons: "snd (deleteEach V (k # ks) x) = snd (deleteEach V ks (snd (dr_delete V k x)))"
proof -
  obtain p f where "fst (deleteEach V ks (snd (dr_delete V k x))) = Inr (p, f)" using deleteEach_result by blast
  then show ?thesis by (cases "fst (dr_delete V k x)") (simp_all add: io_simps)
qed

text \<open>What may be handed to the deletion of the tail: keys the store tells apart, each once, all of them there.\<close>

definition deletable :: "string list \<Rightarrow> 'x \<Rightarrow> bool" where
  "deletable ks x \<longleftrightarrow> list_all okKey ks \<and> distinct ks \<and> (\<forall>k \<in> set ks. objects x k \<noteq> None)"

lemma deletable_Cons:
  assumes "deletable (k0 # ks) x"
  shows "okKey k0" "objects x k0 \<noteq> None" "k0 \<notin> set ks" "deletable ks (snd (dr_delete V k0 x))"
  using assms delete_local [of k0 x _] by (auto simp: deletable_def) metis+

lemma delete_either:
  "okKey k0 \<Longrightarrow> objects x k0 \<noteq> None \<Longrightarrow>
    objects (snd (dr_delete V k0 x)) k = objects x k \<or> objects (snd (dr_delete V k0 x)) k = None"
  using delete_local [of k0 x k] delete_done [of k0 x] delete_failed [of k0 x]
  by (cases "k = k0"; cases "fst (dr_delete V k0 x)") auto

lemma deleteEach_other: "deletable ks x \<Longrightarrow> k \<notin> set ks \<Longrightarrow> objects (snd (deleteEach V ks x)) k = objects x k"
proof (induction ks arbitrary: x)
  case (Cons k0 ks)
  note d = deletable_Cons [OF Cons.prems(1)]
  show ?case using Cons.IH [OF d(4)] Cons.prems(2) delete_local [OF d(1,2)] unfolding deleteEach_Cons by simp
qed simp

lemma deleteEach_either:
  "deletable ks x \<Longrightarrow> objects (snd (deleteEach V ks x)) k = objects x k \<or> objects (snd (deleteEach V ks x)) k = None"
proof (induction ks arbitrary: x)
  case (Cons k0 ks)
  note d = deletable_Cons [OF Cons.prems(1)]
  show ?case using Cons.IH [OF d(4)] delete_either [OF d(1,2), of k] unfolding deleteEach_Cons by metis
qed simp

lemma deleteEach_all:
  "deletable ks x \<Longrightarrow> fst (deleteEach V ks x) = Inr (p, 0) \<Longrightarrow> k \<in> set ks \<Longrightarrow> objects (snd (deleteEach V ks x)) k = None"
proof (induction ks arbitrary: x p)
  case (Cons k0 ks)
  note d = deletable_Cons [OF Cons.prems(1)]
  obtain p1 f1 where n: "fst (deleteEach V ks (snd (dr_delete V k0 x))) = Inr (p1, f1)" "0 \<le> f1"
    using deleteEach_result by blast
  then have ok: "fst (dr_delete V k0 x) = Inr ()" "f1 = 0" using Cons.prems(2) by (auto simp: io_simps split: sum.splits)
  show ?case
  proof (cases "k \<in> set ks")
    case True
    then show ?thesis using Cons.IH [OF d(4)] n(1) ok(2) unfolding deleteEach_Cons by simp
  next
    case False
    then have "objects (snd (dr_delete V k0 x)) k = None" using Cons.prems(3) delete_done [OF d(1,2) ok(1)] by simp
    then show ?thesis using deleteEach_either [OF d(4)] unfolding deleteEach_Cons by metis
  qed
qed simp

lemma own_keys:
  assumes "fst (dr_list V (jobPrefix d j) None x) = Inr os"
  shows "k \<in> set (ownKeys d j os) \<Longrightarrow> k \<in> dom (objects x) \<and> ownArtifact d j k" "list_all okKey (ownKeys d j os)"
    "sorted (ownKeys d j os)" "distinct (ownKeys d j os)"
  using list_sound [OF assms] list_distinct [OF assms]
  by (auto simp: ownKeys_def ownArtifact_def distinct_map list_all_iff dest: distinct_filter)

lemma own_keys_direct:
  assumes "fst (dr_list V (jobPrefix d j) None x) = Inr os" "okKey (basePathOf d @ CHR ''/'' # j)" "j \<noteq> []" "CHR ''/'' \<notin> set j"
    "directArtifact d j k" "objects x k \<noteq> None"
  shows "k \<in> set (ownKeys d j os)"
proof -
  define q where "q = basePathOf d @ CHR ''/'' # j"
  have q: "jobPrefix d j = q @ ''/''" "q \<noteq> []" "last q \<noteq> CHR ''/''"
    using assms(3,4) by (auto simp: jobPrefix_def q_def last_in_set dest: last_in_set)
  obtain nm where nm: "k = q @ CHR ''/'' # nm" "CHR ''/'' \<notin> set nm" "ownArtifact d j k"
    using assms(5) unfolding directArtifact_def by (auto simp: ownArtifact_def keyBelongsToJob_def q(1) js_starts_with_iff)
  have "nm \<noteq> []"
  proof
    assume "nm = []"
    then have "last (js_split (CHR ''/'') k) = []" using js_split_append [of "CHR ''/''" q "[]"] by (simp add: nm(1))
    then show False using nm(3) by (simp add: ownArtifact_def ARTIFACT_KEY_def is_stamp_def)
  qed
  then have "k \<in> set (map ob_key os)"
    using list_complete [OF assms(1) [unfolded q(1)] assms(2) [folded q_def] q(2,3)] nm assms(6) by blast
  then show ?thesis using nm(3) by (auto simp: ownKeys_def ownArtifact_def)
qed

lemma prune_cases:
  assumes "pruneOldVersions V d j keep x = (r, x')"
  obtains (nothing) "objects x' = objects x" "\<And>ob. r = Inr ob \<Longrightarrow> po_failureReason ob \<noteq> None"
  | (pruned) os ours doomed x1 where "fst (dr_list V (jobPrefix d j) None x) = Inr os" "ours = ownKeys d j os"
      "keep = of_nat (nat \<lfloor>keep\<rfloor>)" "doomed = take (length ours - nat \<lfloor>keep\<rfloor>) ours" "objects x1 = objects x"
      "objects x' = objects (snd (deleteEach V doomed x1))" "\<exists>ob. r = Inr ob"
      "\<And>ob. r = Inr ob \<Longrightarrow> po_failureReason ob = None \<Longrightarrow> \<exists>p. fst (deleteEach V doomed x1) = Inr (p, 0)"
proof (cases "fst (dr_list V (jobPrefix d j) None x)")
  case (Inl e)
  then have "r = Inl e" "x' = snd (dr_list V (jobPrefix d j) None x)" using assms by (simp_all add: pruneOldVersions_def bindM_def)
  then show ?thesis by - (rule nothing, simp_all add: list_reads)
next
  case (Inr os)
  define x1 where "x1 = snd (dr_list V (jobPrefix d j) None x)"
  define ours where "ours = ownKeys d j os"
  define doomed where "doomed = take (length ours - nat \<lfloor>keep\<rfloor>) ours"
  have x1: "objects x1 = objects x" using list_reads by (simp add: x1_def)
  show ?thesis
  proof (cases "of_int \<lfloor>keep\<rfloor> \<noteq> keep \<or> keep < 1")
    case True
    then have "x' = x1 \<and> (\<exists>m. r = Inr \<lparr>po_prunedCount = 0, po_failureReason = Some m\<rparr>)"
      using assms Inr by (auto simp: pruneOldVersions_def bindM_def x1_def Let_def)
    then show ?thesis using x1 by - (rule nothing, auto)
  next
    case False
    then have keep: "keep = of_nat (nat \<lfloor>keep\<rfloor>)" by (metis linorder_not_less nat_0_le not_le of_int_of_nat_eq one_le_floor order.trans zero_less_one_class.zero_le_one)
    obtain p f where d: "fst (deleteEach V doomed x1) = Inr (p, f)" "0 \<le> f" using deleteEach_result by blast
    have "objects x' = objects (snd (deleteEach V doomed x1)) \<and> (\<exists>ob. r = Inr ob \<and> (po_failureReason ob = None \<longrightarrow> f = 0))"
      using assms Inr False d unfolding doomed_def
      by (auto simp: pruneOldVersions_def bindM_def x1_def ours_def Let_def split: if_splits)
    then show ?thesis
      using pruned [of os ours doomed x1] Inr keep x1 d by (auto simp: ours_def doomed_def)
  qed
qed

lemma newest_kept:
  assumes "sorted ours" "distinct ours" "finite S" "k \<in> set (take (length ours - K) ours)"
    "\<And>k'. k' \<in> set (drop (length ours - K) ours) \<Longrightarrow> k < k' \<Longrightarrow> k' \<in> S"
  shows "K \<le> card S"
proof -
  let ?newest = "drop (length ours - K) ours"
  have "K < length ours" using assms(4) by (cases "length ours - K") auto
  then have "card (set ?newest) = K" using distinct_card [of ?newest] assms(2) by simp
  moreover have "set ?newest \<subseteq> S" using assms(5) sorted_tail_greater [OF assms(1,2,4)] by blast
  ultimately show ?thesis using card_mono [OF assms(3)] by metis
qed

lemma prune_keeps:
  assumes "pruneOldVersions V d j keep x = (r, x')" "objects x' k \<noteq> objects x k"
  shows "objects x' k = None \<and> ownArtifact d j k \<and>
    keep \<le> of_nat (card {k'. k < k' \<and> ownArtifact d j k' \<and> objects x' k' \<noteq> None \<and> objects x' k' = objects x k'})"
  using prune_cases [OF assms(1)]
proof cases
  case 1
  with assms(2) show ?thesis by simp
next
  case pruned: (2 os ours doomed x1)
  let ?S = "{k'. k < k' \<and> ownArtifact d j k' \<and> objects x' k' \<noteq> None \<and> objects x' k' = objects x k'}"
  note own = own_keys [OF pruned(1), folded pruned(2)]
  have ok: "deletable doomed x1" using own(1,2,4) by (auto simp: deletable_def pruned(4,5) list_all_iff dest: in_set_takeD)
  have stays: "objects x' k' = objects x k'" if "k' \<notin> set doomed" for k'
    using deleteEach_other [OF ok that] pruned(5,6) by simp
  have k: "k \<in> set doomed" using stays assms(2) by blast
  moreover have "objects x' k = None" using assms(2) deleteEach_either [OF ok, of k] pruned(5,6) by simp
  ultimately have k: "k \<in> set doomed" "objects x' k = None" by blast+
  have fin: "finite ?S" by (rule finite_subset [OF _ finite_objects [of x']]) auto
  have "nat \<lfloor>keep\<rfloor> \<le> card ?S"
  proof (rule newest_kept [OF own(3,4) fin])
    show "k \<in> set (take (length ours - nat \<lfloor>keep\<rfloor>) ours)" using k(1) pruned(4) by simp
    fix k' assume k': "k' \<in> set (drop (length ours - nat \<lfloor>keep\<rfloor>) ours)" "k < k'"
    then have "k' \<notin> set doomed" "k' \<in> set ours"
      using set_take_disj_set_drop_if_distinct [OF own(4)] pruned(4) by (auto dest: in_set_dropD)
    then show "k' \<in> ?S" using stays [of k'] own(1) [of k'] k'(2) by auto
  qed
  then have "of_nat (nat \<lfloor>keep\<rfloor>) \<le> (of_nat (card ?S) :: rat)" by (simp only: of_nat_le_iff)
  moreover have "ownArtifact d j k" using k(1) own(1) [of k] pruned(4) by (auto dest: in_set_takeD)
  ultimately show ?thesis using k(2) ord_eq_le_trans [OF pruned(3)] by blast
qed

lemma prune_bound:
  assumes "pruneOldVersions V d j keep x = (Inr ob, x')" "po_failureReason ob = None"
    "okKey (basePathOf d @ CHR ''/'' # j)" "j \<noteq> []" "CHR ''/'' \<notin> set j"
  shows "of_nat (card {k. directArtifact d j k \<and> objects x' k \<noteq> None}) \<le> keep"
  using prune_cases [OF assms(1)]
proof cases
  case 1
  with assms(2) show ?thesis by simp
next
  case pruned: (2 os ours doomed x1)
  let ?newest = "drop (length ours - nat \<lfloor>keep\<rfloor>) ours"
  note own = own_keys [OF pruned(1), folded pruned(2)]
  have ok: "deletable doomed x1" using own(1,2,4) by (auto simp: deletable_def pruned(4,5) list_all_iff dest: in_set_takeD)
  obtain p where all: "fst (deleteEach V doomed x1) = Inr (p, 0)" using pruned(8) assms(2) by blast
  have "{k. directArtifact d j k \<and> objects x' k \<noteq> None} \<subseteq> set ?newest"
  proof
    fix k assume "k \<in> {k. directArtifact d j k \<and> objects x' k \<noteq> None}"
    then have k: "directArtifact d j k" "objects x' k \<noteq> None" by simp_all
    then have "objects x k \<noteq> None" "k \<notin> set doomed"
      using deleteEach_either [OF ok, of k] deleteEach_all [OF ok all, of k] pruned(5,6) by auto
    then have "k \<in> set ours" "k \<notin> set (take (length ours - nat \<lfloor>keep\<rfloor>) ours)"
      using own_keys_direct [OF pruned(1) assms(3-5) k(1)] pruned(2,4) by auto
    then show "k \<in> set ?newest" by (metis Un_iff append_take_drop_id set_append)
  qed
  then have "card {k. directArtifact d j k \<and> objects x' k \<noteq> None} \<le> length ?newest"
    using card_mono [OF finite_set] card_length order.trans by metis
  then have "card {k. directArtifact d j k \<and> objects x' k \<noteq> None} \<le> nat \<lfloor>keep\<rfloor>" by simp
  then have "of_nat (card {k. directArtifact d j k \<and> objects x' k \<noteq> None}) \<le> (of_nat (nat \<lfloor>keep\<rfloor>) :: rat)"
    by (simp only: of_nat_le_iff)
  then show ?thesis using ord_le_eq_trans [OF _ pruned(3) [symmetric]] by blast
qed

end

section \<open>A reference store\<close>

text \<open>Objects as an association list; the drivers of the program are shown to meet the same contract in their theories.\<close>

type_synonym objects = "(string \<times> string) list"

definition ref_store :: "objects driver" where
  "ref_store = \<lparr>
     dr_put = (\<lambda>k b ct m. (Inr (), (k, b) # m)),
     dr_get = (\<lambda>k m. (case map_of m k of Some b \<Rightarrow> Inr b | None \<Rightarrow> Inl (JsError ''S3 GET failed: HTTP 404''), m)),
     dr_list = (\<lambda>p n m. (Inr (map (\<lambda>k. \<lparr>ob_key = k, ob_sizeBytes = int (length (the (map_of m k))), ob_lastModified = []\<rparr>)
        (sort (remdups (filter (\<lambda>k. js_starts_with k p) (map fst m))))), m)),
     dr_delete = (\<lambda>k m. (Inr (), filter (\<lambda>(j, b). j \<noteq> k) m)),
     dr_testConnection = (\<lambda>m. (Inr ProbeOk, m))\<rparr>"

lemma ref_list_keys:
  "fst (dr_list ref_store p n m) = Inr os \<Longrightarrow> map ob_key os = sort (remdups (filter (\<lambda>k. js_starts_with k p) (map fst m)))"
  by (auto simp: ref_store_def comp_def)

interpretation ref_store: object_store ref_store map_of "\<lambda>_. True"
proof
  fix p n x os
  assume l: "fst (dr_list ref_store p n x) = Inr os"
  show "distinct (map ob_key os)" unfolding ref_list_keys [OF l] by simp
  fix k assume "k \<in> set (map ob_key os)"
  then show "k \<in> dom (map_of x) \<and> True" unfolding ref_list_keys [OF l] by (simp add: dom_map_of_conv_image_fst)
next
  fix q n x os nm
  assume l: "fst (dr_list ref_store (q @ ''/'') n x) = Inr os" and "map_of x (q @ CHR ''/'' # nm) \<noteq> None"
  then have "q @ CHR ''/'' # nm \<in> fst ` set x" by (simp add: map_of_eq_None_iff)
  moreover have "js_starts_with (q @ CHR ''/'' # nm) (q @ ''/'')" by (simp add: js_starts_with_iff)
  ultimately show "q @ CHR ''/'' # nm \<in> set (map ob_key os)" unfolding ref_list_keys [OF l] by simp
qed (auto simp: ref_store_def map_of_delete_one finite_dom_map_of split: option.splits)

definition nightly :: "string \<Rightarrow> string" where
  "nightly day = ''mcm-backups/j/2026-03-'' @ day @ ''T03:00:00.000Z.json.gz''"

definition full_store :: objects where
  "full_store = [(nightly ''02'', ''b''), (nightly ''01'', ''a''), (''mcm-backups/j/notes.txt'', ''n''), (nightly ''03'', ''c'')]"

definition nas :: destination where
  "nas = newDestination 0 ''d'' ''u'' nas_input None"

section \<open>Properties\<close>



end
