(* ===== verification/S3_Driver.thy ===== *)
theory S3_Driver
  imports Request_Signer Pinned_Transport Retention
begin

text \<open>
  \<open>bff-server/backup-driver-s3.ts\<close>: the S3 driver over the pinned transport and the signer. The XML parser is the
  parameter \<open>s3_parse\<close> (an exception for a text it refuses); a clock is read for every signature. The listing asks for
  page after page for as long as the server announces one; the model gives up after \<open>s3_pages\<close> pages. A size that is no
  integer is read as its integer part. The locale \<open>s3_server\<close> states what an S3 server is documented to do with a
  request line, and the driver over it is shown to be an \<open>object_store\<close>.
\<close>

record 'x s3_env =
  s3_crypto :: crypto
  s3_hmac :: hmac
  s3_parse :: "string \<Rightarrow> exn + json"
  s3_clock :: "'x \<Rightarrow> int"
  s3_pages :: nat

definition MAX_KEYS_PER_PAGE :: nat where "MAX_KEYS_PER_PAGE = 1000"

text \<open>An absent member in a template literal.\<close>

definition shown :: "string option \<Rightarrow> string" where
  "shown t = (case t of Some s \<Rightarrow> s | None \<Rightarrow> ''undefined'')"

definition s3Credentials :: "destination \<Rightarrow> string \<Rightarrow> signing_credentials" where
  "s3Credentials destination secret = \<lparr>sc_accessKeyId = shown (ds_accessKeyId destination), sc_secretAccessKey = secret,
     sc_region = text_or (ds_region destination) ''us-east-1'', sc_service = ''s3'', sc_sessionToken = None\<rparr>"

definition bucketPath :: "destination \<Rightarrow> string" where
  "bucketPath destination = (if ds_pathStyle destination = Some False then [] else CHR ''/'' # shown (ds_bucket destination))"

definition objectPath :: "destination \<Rightarrow> string \<Rightarrow> string" where
  "objectPath destination key = bucketPath destination @ CHR ''/'' # key"

definition hostHeader :: "vetted \<Rightarrow> string" where
  "hostHeader v = (if (vt_protocol v = ''https:'' \<and> vt_port v = 443) \<or> (vt_protocol v = ''http:'' \<and> vt_port v = 80)
     then vt_hostname v else vt_hostname v @ '':'' @ show_int (vt_port v))"

section \<open>Sending\<close>

definition s3Headers :: "vetted \<Rightarrow> string option \<Rightarrow> string option \<Rightarrow> (string \<times> string) list" where
  "s3Headers v body contentType = (''host'', hostHeader v)
     # (case body of Some b \<Rightarrow> [(''content-length'', show_nat (length b))] | None \<Rightarrow> [])
     @ (case contentType of Some t \<Rightarrow> if t = [] then [] else [(''content-type'', t)] | None \<Rightarrow> [])"

definition EMPTY_SHA256 :: "crypto \<Rightarrow> string" where "EMPTY_SHA256 C = sha256Hex C []"

definition s3Request :: "'x s3_env \<Rightarrow> destination \<Rightarrow> string \<Rightarrow> vetted \<Rightarrow> int \<Rightarrow> string \<Rightarrow> string \<Rightarrow> string \<Rightarrow> string option \<Rightarrow>
    string option \<Rightarrow> exn + transport_request" where
  "s3Request E destination secret v now meth path query body contentType =
     (let payloadHash = (case body of Some b \<Rightarrow> sha256Hex (s3_crypto E) b | None \<Rightarrow> EMPTY_SHA256 (s3_crypto E)) in
      bindE (signRequest (s3_crypto E) (s3_hmac E) now \<lparr>sr_method = meth, sr_path = path, sr_query = query,
          sr_headers = s3Headers v body contentType, sr_payloadHash = payloadHash\<rparr> (s3Credentials destination secret)) (\<lambda>signed.
      Inr \<lparr>tr_method = meth, tr_path = path, tr_query = query, tr_headers = sd_headers signed, tr_body = body\<rparr>))"

definition s3Send :: "'x s3_env \<Rightarrow> destination \<Rightarrow> string \<Rightarrow> vetted \<Rightarrow> 'x transport \<Rightarrow> string \<Rightarrow> string \<Rightarrow> string \<Rightarrow> string option \<Rightarrow>
    string option \<Rightarrow> ('x, http_response) io" where
  "s3Send E destination secret v T meth path query body contentType = bindM (getM (s3_clock E)) (\<lambda>now.
     bindM (liftE (s3Request E destination secret v now meth path query body contentType)) T)"

definition s3ErrorCode :: "'x s3_env \<Rightarrow> http_response \<Rightarrow> exn + json" where
  "s3ErrorCode E res = (let t = utf8_decode (rs_body res) in
     if \<not> js_includes t ''<Error>'' then Inr JNull
     else bindE (s3_parse E t) (\<lambda>parsed. bindE (member parsed ''Error'') (\<lambda>err.
       Inr (if json_member err ''Code'' = JUndef then JNull else json_member err ''Code''))))"

definition s3FailFor :: "'x s3_env \<Rightarrow> string \<Rightarrow> http_response \<Rightarrow> exn + exn" where
  "s3FailFor E operation res = bindE (s3ErrorCode E res) (\<lambda>code. Inr (JsError (''S3 '' @ operation @ '' failed: HTTP '' @
     show_int (rs_status res) @ (if js_truthy code then '' ('' @ js_to_string code @ '')'' else []))))"

definition s3Require :: "'x s3_env \<Rightarrow> string \<Rightarrow> http_response \<Rightarrow> ('x, unit) io" where
  "s3Require E operation res = (if http_ok res then returnM () else bindM (liftE (s3FailFor E operation res)) throwM)"

section \<open>Listing\<close>

definition listQuery :: "nat \<Rightarrow> string \<Rightarrow> string option \<Rightarrow> string" where
  "listQuery pageSize prefix token = js_join ''&'' ([''list-type=2'', ''max-keys='' @ show_nat pageSize, ''prefix='' @ encodeURIComponent prefix]
     @ (case token of Some t \<Rightarrow> [''continuation-token='' @ encodeURIComponent t] | None \<Rightarrow> []))"

definition whole_number :: "json \<Rightarrow> int" where
  "whole_number j = (case js_number j of Some q \<Rightarrow> \<lfloor>q\<rfloor> | None \<Rightarrow> 0)"

fun readContents :: "json list \<Rightarrow> exn + object_info list" where
  "readContents [] = Inr []"
| "readContents (entry # es) = bindE (member entry ''Key'') (\<lambda>key. bindE (readContents es) (\<lambda>obs.
     Inr (if js_truthy key
       then \<lparr>ob_key = js_to_string key,
             ob_sizeBytes = (let s = json_member entry ''Size'' in if s = JUndef \<or> s = JNull then 0 else whole_number s),
             ob_lastModified = (let m = json_member entry ''LastModified'' in if m = JUndef \<or> m = JNull then [] else js_to_string m)\<rparr> # obs
       else obs)))"

definition readListing :: "json \<Rightarrow> exn + object_info list \<times> string option" where
  "readListing parsed = bindE (member parsed ''ListBucketResult'') (\<lambda>result.
     bindE (case json_member result ''Contents'' of JArr es \<Rightarrow> readContents es | JUndef \<Rightarrow> Inr [] | JNull \<Rightarrow> Inr [] | JStr s \<Rightarrow> Inr []
            | _ \<Rightarrow> Inl typeError) (\<lambda>obs.
     let truncated = (json_member result ''IsTruncated'' = JBool True \<or> json_member result ''IsTruncated'' = JStr ''true'');
         token = json_member result ''NextContinuationToken'' in
     Inr (obs, if truncated \<and> js_truthy token then Some (js_to_string token) else None)))"

definition listingUnfinished :: exn where "listingUnfinished = JsError ''listing unfinished''"

fun pagesFrom :: "nat \<Rightarrow> (string option \<Rightarrow> ('x, 'a list \<times> string option) io) \<Rightarrow> string option \<Rightarrow> ('x, 'a list) io" where
  "pagesFrom 0 page token = throwM listingUnfinished"
| "pagesFrom (Suc n) page token = bindM (page token) (\<lambda>(xs, following_token). case following_token of
     None \<Rightarrow> returnM xs
   | Some t \<Rightarrow> bindM (pagesFrom n page (Some t)) (\<lambda>ys. returnM (xs @ ys)))"

definition s3Page :: "'x s3_env \<Rightarrow> destination \<Rightarrow> string \<Rightarrow> vetted \<Rightarrow> 'x transport \<Rightarrow> nat \<Rightarrow> string \<Rightarrow> string option \<Rightarrow>
    ('x, object_info list \<times> string option) io" where
  "s3Page E destination secret v T pageSize prefix token =
     bindM (s3Send E destination secret v T ''GET'' (if bucketPath destination = [] then ''/'' else bucketPath destination)
       (listQuery pageSize prefix token) None None) (\<lambda>res.
     thenM (s3Require E ''LIST'' res) (liftE (bindE (s3_parse E (utf8_decode (rs_body res))) readListing)))"

section \<open>The probe\<close>

definition unreachable :: probe_outcome where "unreachable = ProbeFailed ''unreachable'' ''Could not reach that address''"

definition probeKey :: "destination \<Rightarrow> string" where
  "probeKey destination = (if ds_basePath destination = [] then ''mcm-backups'' else ds_basePath destination) @ ''/.mcm-write-probe''"

definition s3WriteProbe :: "'x s3_env \<Rightarrow> destination \<Rightarrow> string \<Rightarrow> vetted \<Rightarrow> 'x transport \<Rightarrow> ('x, probe_outcome) io" where
  "s3WriteProbe E destination secret v T =
     bindM (attemptM (s3Send E destination secret v T ''PUT'' (objectPath destination (probeKey destination)) [] (Some [])
       (Some ''application/octet-stream''))) (\<lambda>wr. case wr of
       Inl e \<Rightarrow> returnM unreachable
     | Inr res \<Rightarrow>
         if rs_status res = 403 then returnM (ProbeFailed ''no-write-permission'' ''Those credentials can read that bucket but cannot write to it'')
         else if \<not> http_ok res then returnM (ProbeFailed ''no-write-permission'' (''A test write answered HTTP '' @ show_int (rs_status res)))
         else thenM (attemptM (s3Send E destination secret v T ''DELETE'' (objectPath destination (probeKey destination)) [] None None))
                (returnM ProbeOk))"

definition s3TestConnection :: "'x s3_env \<Rightarrow> destination \<Rightarrow> string \<Rightarrow> vetted \<Rightarrow> 'x transport \<Rightarrow> ('x, probe_outcome) io" where
  "s3TestConnection E destination secret v T =
     bindM (attemptM (s3Send E destination secret v T ''GET'' (if bucketPath destination = [] then ''/'' else bucketPath destination)
       ''list-type=2&max-keys=1'' None None)) (\<lambda>rd. case rd of
       Inl e \<Rightarrow> returnM unreachable
     | Inr res \<Rightarrow> bindM (liftE (s3ErrorCode E res)) (\<lambda>code.
         if rs_status res = 403
         then returnM (if code = JStr ''SignatureDoesNotMatch'' \<or> code = JStr ''InvalidAccessKeyId''
           then ProbeFailed ''credentials-rejected'' ''Those credentials were rejected''
           else ProbeFailed ''no-write-permission'' ''Those credentials are valid but not permitted to use that bucket'')
         else if rs_status res = 404 \<or> code = JStr ''NoSuchBucket''
         then returnM (ProbeFailed ''no-write-permission'' ''That bucket does not exist, or those credentials cannot see it'')
         else if \<not> http_ok res
         then returnM (ProbeFailed ''unreachable'' (''That destination answered HTTP '' @ show_int (rs_status res)))
         else s3WriteProbe E destination secret v T))"

section \<open>The driver\<close>

definition createS3Driver :: "'x s3_env \<Rightarrow> destination \<Rightarrow> string \<Rightarrow> vetted \<Rightarrow> 'x transport \<Rightarrow> 'x driver" where
  "createS3Driver E destination secret v T = \<lparr>
     dr_put = (\<lambda>key body contentType. bindM (s3Send E destination secret v T ''PUT'' (objectPath destination key) [] (Some body)
       (Some (case contentType of Some t \<Rightarrow> t | None \<Rightarrow> ''application/gzip''))) (s3Require E ''PUT'')),
     dr_get = (\<lambda>key. bindM (s3Send E destination secret v T ''GET'' (objectPath destination key) [] None None) (\<lambda>res.
       thenM (s3Require E ''GET'' res) (returnM (rs_body res)))),
     dr_list = (\<lambda>prefix pageSize. bindM (pagesFrom (s3_pages E) (s3Page E destination secret v T
       (case pageSize of Some n \<Rightarrow> n | None \<Rightarrow> MAX_KEYS_PER_PAGE) prefix) None) (\<lambda>objects. returnM (sort_key ob_key objects))),
     dr_delete = (\<lambda>key. bindM (s3Send E destination secret v T ''DELETE'' (objectPath destination key) [] None None)
       (s3Require E ''DELETE'')),
     dr_testConnection = s3TestConnection E destination secret v T\<rparr>"

section \<open>Every request is signed as it goes out\<close>

lemma s3Headers_plain:
  "distinct (map fst (s3Headers v body ct))" "list_all plain_header (s3Headers v body ct)"
  "fst ` set (s3Headers v body ct) \<subseteq> {''host'', ''content-length'', ''content-type''}"
proof -
  have w: "headerName ''host'' = ''host''" "headerName ''content-length'' = ''content-length''"
    "headerName ''content-type'' = ''content-type''"
    by (simp_all add: headerName_def js_trim_def js_trim_start_def js_trim_end_def js_to_lower_def js_lower_char_def is_js_space_def)
  show "distinct (map fst (s3Headers v body ct))" "list_all plain_header (s3Headers v body ct)"
    "fst ` set (s3Headers v body ct) \<subseteq> {''host'', ''content-length'', ''content-type''}"
    by (auto simp: s3Headers_def plain_header_def w split: option.split)
qed

lemma s3Request_parts:
  assumes "s3Request E d secret v now meth path query body ct = Inr req"
  obtains s where "tr_method req = meth" "tr_path req = path" "tr_query req = query" "tr_body req = body" "tr_headers req = sd_headers s"
    "signRequest (s3_crypto E) (s3_hmac E) now \<lparr>sr_method = meth, sr_path = path, sr_query = query, sr_headers = s3Headers v body ct,
       sr_payloadHash = sha256Hex (s3_crypto E) (case body of Some b \<Rightarrow> b | None \<Rightarrow> [])\<rparr> (s3Credentials d secret) = Inr s"
  using assms by (auto simp: s3Request_def bindE_Inr_iff Let_def EMPTY_SHA256_def split: option.splits)

lemma s3_wire:
  assumes "s3Request E d secret v now meth path query body ct = Inr req"
  shows "wi_method (wireRequest v req) = meth" "linePath (wireRequest v req) = encodePath path"
    "lineQuery (wireRequest v req) = query" "wi_body (wireRequest v req) = (case body of Some b \<Rightarrow> b | None \<Rightarrow> [])"
  using s3Request_parts [OF assms] by (metis wire_fields(1) wire_line wire_fields(3))+

definition s3_verbs :: "string set" where "s3_verbs = {''GET'', ''PUT'', ''DELETE''}"

lemma s3_verbs_upper: "meth \<in> s3_verbs \<Longrightarrow> js_upper_ascii meth = meth"
  by (auto simp: s3_verbs_def js_upper_ascii_def)

lemma s3_signed_as_sent:
  assumes "s3Request E d secret v now meth path query body ct = Inr req" "meth \<in> s3_verbs" "js_starts_with path ''/''"
  defines "w \<equiv> wireRequest v req"
  shows "serverAccepts (s3_crypto E) (s3_hmac E) (s3Credentials d secret) (wi_method w) (linePath w) (lineQuery w) (wi_headers w) (wi_body w)"
proof -
  obtain s where f: "tr_method req = meth" "tr_path req = path" "tr_query req = query" "tr_body req = body"
    and s: "tr_headers req = sd_headers s"
    "signRequest (s3_crypto E) (s3_hmac E) now \<lparr>sr_method = meth, sr_path = path, sr_query = query, sr_headers = s3Headers v body ct,
       sr_payloadHash = sha256Hex (s3_crypto E) (case body of Some b \<Rightarrow> b | None \<Rightarrow> [])\<rparr> (s3Credentials d secret) = Inr s"
    by (rule s3Request_parts [OF assms(1)])
  have free: "''x-amz-date'' \<notin> fst ` set (s3Headers v body ct)" "''x-amz-content-sha256'' \<notin> fst ` set (s3Headers v body ct)"
    using s3Headers_plain(3) by fastforce+
  show ?thesis
    using sign_accepted [OF s(2), of "case body of Some b \<Rightarrow> b | None \<Rightarrow> []"] s3Headers_plain(1,2) free
      s3_verbs_upper [OF assms(2)] assms(3) s(1)
    by (simp add: f w_def s3Credentials_def)
qed

section \<open>The server on the other side\<close>

text \<open>The query of a request line as the server reads it.\<close>

definition lineParams :: "string \<Rightarrow> (string \<times> string) list option" where
  "lineParams query = those (map (\<lambda>part. let k = takeWhile (\<lambda>c. c \<noteq> CHR ''='') part in
     case (decodeURIComponent k, decodeURIComponent (drop (Suc (length k)) part)) of (Some a, Some b) \<Rightarrow> Some (a, b) | _ \<Rightarrow> None)
     (js_split (CHR ''&'') query))"

definition listParams :: "nat \<Rightarrow> string \<Rightarrow> string option \<Rightarrow> (string \<times> string) list" where
  "listParams pageSize prefix token = [(''list-type'', ''2''), (''max-keys'', show_nat pageSize), (''prefix'', prefix)]
     @ (case token of Some t \<Rightarrow> [(''continuation-token'', t)] | None \<Rightarrow> [])"

text \<open>A page of a listing: the parsed result document that announces these keys and what comes next.\<close>

definition describes :: "json \<Rightarrow> string list \<Rightarrow> string option \<Rightarrow> bool" where
  "describes j ks following_token \<longleftrightarrow> (let result = json_member j ''ListBucketResult'' in
     j \<noteq> JNull \<and> j \<noteq> JUndef \<and>
     (case json_member result ''Contents'' of
        JArr es \<Rightarrow> list_all2 (\<lambda>e k. e \<noteq> JNull \<and> e \<noteq> JUndef \<and> json_member e ''Key'' = JStr k) es ks
      | c \<Rightarrow> c = JUndef \<and> ks = []) \<and>
     json_member result ''IsTruncated'' = JBool (following_token \<noteq> None) \<and>
     (case following_token of Some t \<Rightarrow> t \<noteq> [] \<and> json_member result ''NextContinuationToken'' = JStr t | None \<Rightarrow> True))"

definition keysUnder :: "(string \<Rightarrow> string option) \<Rightarrow> string \<Rightarrow> string list" where
  "keysUnder m prefix = sorted_list_of_set {k. m k \<noteq> None \<and> js_starts_with k prefix}"

definition listPath :: "destination \<Rightarrow> string" where
  "listPath d = (if bucketPath d = [] then ''/'' else bucketPath d)"

text \<open>A page continues the listing of \<open>ks\<close> where its token says, and the next token says where it stops.\<close>

definition start_of :: "(string \<Rightarrow> nat) \<Rightarrow> string option \<Rightarrow> nat" where
  "start_of position token = (case token of Some t \<Rightarrow> position t | None \<Rightarrow> 0)"

definition continues :: "(string \<Rightarrow> nat) \<Rightarrow> string list \<Rightarrow> string option \<Rightarrow> string list \<Rightarrow> string option \<Rightarrow> bool" where
  "continues position ks token page following_token \<longleftrightarrow> (let start = start_of position token in
     start + length page \<le> length ks \<and> page = take (length page) (drop start ks) \<and>
     (case following_token of Some t \<Rightarrow> position t = start + length page | None \<Rightarrow> start + length page = length ks))"

text \<open>
  What an S3 server is documented to do. A PUT or DELETE of a path concerns the object of that path alone and has
  happened when it is answered with success; a listing's pages continue each other, a token standing for a position
  in the keys under the prefix.
\<close>

locale s3_server =
  fixes E :: "'x s3_env" and d :: destination and secret :: string and v :: vetted and W :: "'x wire"
    and objects :: "'x \<Rightarrow> string \<Rightarrow> string option" and position :: "string \<Rightarrow> nat"
  assumes finite_store: "finite (dom (objects x))" and no_empty_key: "objects x [] = None"
    and put_effect: "wi_method w = ''PUT'' \<Longrightarrow> decodePath (linePath w) = Some (objectPath d k) \<Longrightarrow>
      objects (snd (W w x)) = objects x \<or> objects (snd (W w x)) = (objects x)(k \<mapsto> wi_body w)"
    and put_success: "wi_method w = ''PUT'' \<Longrightarrow> decodePath (linePath w) = Some (objectPath d k) \<Longrightarrow> k \<noteq> [] \<Longrightarrow>
      fst (W w x) = Inr r \<Longrightarrow> http_ok r \<Longrightarrow> objects (snd (W w x)) = (objects x)(k \<mapsto> wi_body w)"
    and get_effect: "wi_method w = ''GET'' \<Longrightarrow> objects (snd (W w x)) = objects x"
    and get_success: "wi_method w = ''GET'' \<Longrightarrow> decodePath (linePath w) = Some (objectPath d k) \<Longrightarrow> k \<noteq> [] \<Longrightarrow>
      fst (W w x) = Inr r \<Longrightarrow> http_ok r \<Longrightarrow> objects x k = Some (rs_body r)"
    and delete_effect: "wi_method w = ''DELETE'' \<Longrightarrow> decodePath (linePath w) = Some (objectPath d k) \<Longrightarrow>
      objects (snd (W w x)) = objects x \<or> objects (snd (W w x)) = (objects x)(k := None)"
    and delete_success: "wi_method w = ''DELETE'' \<Longrightarrow> decodePath (linePath w) = Some (objectPath d k) \<Longrightarrow> k \<noteq> [] \<Longrightarrow>
      fst (W w x) = Inr r \<Longrightarrow> http_ok r \<Longrightarrow> objects (snd (W w x)) = (objects x)(k := None)"
    and list_page: "wi_method w = ''GET'' \<Longrightarrow> decodePath (linePath w) = Some (listPath d) \<Longrightarrow>
      lineParams (lineQuery w) = Some (listParams n prefix token) \<Longrightarrow> fst (W w x) = Inr r \<Longrightarrow> http_ok r \<Longrightarrow>
      s3_parse E (utf8_decode (rs_body r)) = Inr j \<Longrightarrow>
      start_of position token \<le> length (keysUnder (objects x) prefix) \<Longrightarrow>
      \<exists>page following_token. describes j page following_token \<and>
        continues position (keysUnder (objects x) prefix) token page following_token"

lemma s3Send_run:
  "s3Send E d secret v T meth path query body ct x =
    (case s3Request E d secret v (s3_clock E x) meth path query body ct of Inl e \<Rightarrow> (Inl e, x) | Inr req \<Rightarrow> T req x)"
  by (simp add: s3Send_def bindM_run split: sum.split)

lemma s3Require_run: "s3Require E op res x = (if http_ok res then Inr () else
    (case s3FailFor E op res of Inl e \<Rightarrow> Inl e | Inr e \<Rightarrow> Inl e), x)"
  by (simp add: s3Require_def bindM_run split: sum.split)

lemma lineParams_listQuery: "lineParams (listQuery n p token) = Some (listParams n p token)"
proof -
  have amp: "CHR ''&'' \<notin> set (encodeURIComponent s)" and eqs: "CHR ''='' \<notin> set (encodeURIComponent s)" for s
    using encodeURIComponent_chars [of "CHR ''&''" s] encodeURIComponent_chars [of "CHR ''=''" s] by (auto simp: uri_unreserved_def)
  have num: "CHR ''&'' \<notin> set (show_nat n)" using show_nat_digits [of n] by (auto simp: is_digit_def)
  have pc: "CHR ''%'' \<notin> set (show_nat n)" using show_nat_digits [of n] by (auto simp: is_digit_def)
  have plain: "decodeURIComponent s = Some s" if "CHR ''%'' \<notin> set s" for s
    using that by (induction s) auto
  have part: "(let k = takeWhile (\<lambda>c. c \<noteq> CHR ''='') (a @ CHR ''='' # b) in
     case (decodeURIComponent k, decodeURIComponent (drop (Suc (length k)) (a @ CHR ''='' # b))) of (Some a, Some b) \<Rightarrow> Some (a, b) | _ \<Rightarrow> None)
     = Some (a, b')" if "CHR ''='' \<notin> set a" "CHR ''%'' \<notin> set a" "decodeURIComponent b = Some b'" for a b b'
    using that by (simp add: takeWhile_before plain)
  have split: "js_split (CHR ''&'') (listQuery n p token) = [''list-type=2'', ''max-keys='' @ show_nat n, ''prefix='' @ encodeURIComponent p]
     @ (case token of Some t \<Rightarrow> [''continuation-token='' @ encodeURIComponent t] | None \<Rightarrow> [])"
    unfolding listQuery_def by (rule split_join) (auto simp: amp num split: option.split)
  have p1: "''list-type=2'' = ''list-type'' @ CHR ''='' # ''2''" "''max-keys='' @ s = ''max-keys'' @ CHR ''='' # s"
    "''prefix='' @ s = ''prefix'' @ CHR ''='' # s" "''continuation-token='' @ s = ''continuation-token'' @ CHR ''='' # s" for s
    by simp_all
  show ?thesis unfolding lineParams_def split listParams_def p1
    by (cases token; simp only: list.map append.simps option.case part) (simp_all add: part plain pc)
qed

section \<open>The driver is an object store\<close>

lemma objectPath_slash: "\<exists>p. objectPath d k = CHR ''/'' # p" "\<exists>p. listPath d = CHR ''/'' # p"
  by (simp_all add: objectPath_def listPath_def bucketPath_def)

lemma s3Send_cases:
  assumes "\<exists>p. path = CHR ''/'' # p"
  obtains (refused) e where "s3Send E d secret v (createPinnedTransport v W) meth path query body ct x = (Inl e, x)"
  | (sent) w where "s3Send E d secret v (createPinnedTransport v W) meth path query body ct x = W w x" "wi_method w = meth"
      "decodePath (linePath w) = Some path" "lineQuery w = query" "wi_body w = (case body of Some b \<Rightarrow> b | None \<Rightarrow> [])"
proof (cases "s3Request E d secret v (s3_clock E x) meth path query body ct")
  case (Inl e)
  then show ?thesis using refused by (simp add: s3Send_run)
next
  case (Inr req)
  obtain p where "path = CHR ''/'' # p" using assms by blast
  then show ?thesis
    using sent [of "wireRequest v req"] s3_wire [OF Inr] Inr by (simp add: s3Send_run createPinnedTransport_def)
qed

lemma require_after:
  "fst (bindM m (s3Require E op) x) = Inr () \<Longrightarrow> \<exists>r. fst (m x) = Inr r \<and> http_ok r" "snd (bindM m (s3Require E op) x) = snd (m x)"
  by (auto simp: bindM_run s3Require_run split: sum.splits if_splits prod.splits)

lemma readContents_keys:
  "list_all2 (\<lambda>e k. e \<noteq> JNull \<and> e \<noteq> JUndef \<and> json_member e ''Key'' = JStr k) es ks \<Longrightarrow> [] \<notin> set ks \<Longrightarrow>
    \<exists>obs. readContents es = Inr obs \<and> map ob_key obs = ks"
proof (induction es ks rule: list_all2_induct)
  case (Cons e es k ks)
  then obtain obs where "readContents es = Inr obs" "map ob_key obs = ks" by auto
  with Cons show ?case by (auto simp: member_def js_truthy_def)
qed simp

lemma describes_listing:
  assumes "describes j ks following_token" "[] \<notin> set ks"
  shows "\<exists>obs. readListing j = Inr (obs, following_token) \<and> map ob_key obs = ks"
proof -
  define result where "result = json_member j ''ListBucketResult''"
  have j: "member j ''ListBucketResult'' = Inr result" using assms(1) by (simp add: describes_def member_def result_def Let_def)
  have "\<exists>obs. (case json_member result ''Contents'' of JArr es \<Rightarrow> readContents es | JUndef \<Rightarrow> Inr [] | JNull \<Rightarrow> Inr [] | JStr s \<Rightarrow> Inr []
            | _ \<Rightarrow> Inl typeError) = Inr obs \<and> map ob_key obs = ks"
    using assms readContents_keys by (auto simp: describes_def result_def Let_def split: json.splits)
  moreover have "(if (json_member result ''IsTruncated'' = JBool True \<or> json_member result ''IsTruncated'' = JStr ''true'') \<and>
      js_truthy (json_member result ''NextContinuationToken'')
    then Some (js_to_string (json_member result ''NextContinuationToken'')) else None) = following_token"
    using assms(1) by (auto simp: describes_def result_def Let_def js_truthy_def split: option.splits)
  ultimately show ?thesis by (auto simp: readListing_def j Let_def)
qed

context s3_server
begin

abbreviation "T \<equiv> createPinnedTransport v W"
abbreviation "V \<equiv> createS3Driver E d secret v T"

lemma keysUnder_set: "set (keysUnder (objects x) p) = {k. objects x k \<noteq> None \<and> js_starts_with k p}" "[] \<notin> set (keysUnder (objects x) p)"
proof -
  have "finite {k. objects x k \<noteq> None \<and> js_starts_with k p}" by (rule finite_subset [OF _ finite_store [of x]]) auto
  then show "set (keysUnder (objects x) p) = {k. objects x k \<noteq> None \<and> js_starts_with k p}" by (simp add: keysUnder_def)
  then show "[] \<notin> set (keysUnder (objects x) p)" using no_empty_key by simp
qed

lemma page_read:
  "objects (snd (s3Page E d secret v T n p token x)) = objects x"
  "start_of position token \<le> length (keysUnder (objects x) p) \<Longrightarrow> fst (s3Page E d secret v T n p token x) = Inr (obs, following_token) \<Longrightarrow>
    continues position (keysUnder (objects x) p) token (map ob_key obs) following_token"
proof -
  have path: "(if bucketPath d = [] then ''/'' else bucketPath d) = listPath d" by (simp add: listPath_def)
  show "objects (snd (s3Page E d secret v T n p token x)) = objects x"
    unfolding s3Page_def path
    using s3Send_cases [OF objectPath_slash(2) [of d], of E d secret v W "''GET''" "listQuery n p token" None None x]
    by (cases) (auto simp: bindM_run s3Require_run get_effect split: sum.split prod.split)
  assume start: "start_of position token \<le> length (keysUnder (objects x) p)"
    and run: "fst (s3Page E d secret v T n p token x) = Inr (obs, following_token)"
  show "continues position (keysUnder (objects x) p) token (map ob_key obs) following_token"
    using s3Send_cases [OF objectPath_slash(2) [of d], of E d secret v W "''GET''" "listQuery n p token" None None x]
  proof cases
    case 1
    with run show ?thesis by (simp add: s3Page_def path bindM_run)
  next
    case sent: (2 w)
    then obtain r j where r: "fst (W w x) = Inr r" "http_ok r" "s3_parse E (utf8_decode (rs_body r)) = Inr j"
      "readListing j = Inr (obs, following_token)"
      using run unfolding s3Page_def path
      by (auto simp: bindM_run s3Require_run bindE_Inr_iff split: sum.splits if_splits prod.splits)
    obtain page tok where page: "describes j page tok" "continues position (keysUnder (objects x) p) token page tok"
      using list_page [OF sent(2,3) _ r(1-3), of n p token] lineParams_listQuery [of n p token] sent(4) start by auto
    have "set page \<subseteq> set (keysUnder (objects x) p)" using page(2) unfolding continues_def Let_def
      by (metis in_set_dropD in_set_takeD subsetI)
    then have "[] \<notin> set page" using keysUnder_set(2) by blast
    then have "map ob_key obs = page" "tok = following_token" using describes_listing [OF page(1)] r(4) by auto
    with page show ?thesis by simp
  qed
qed

lemma continues_drop:
  "continues position ks token page None \<Longrightarrow> page = drop (start_of position token) ks"
  "continues position ks token page (Some t) \<Longrightarrow> page @ drop (position t) ks = drop (start_of position token) ks"
proof -
  let ?rest = "drop (start_of position token) ks"
  assume "continues position ks token page None"
  then have p: "page = take (length page) ?rest" "length page = length ?rest" by (auto simp: continues_def Let_def)
  have "take (length page) ?rest = ?rest" by (simp add: p(2))
  with p(1) show "page = ?rest" by metis
next
  assume "continues position ks token page (Some t)"
  then have p: "page = take (length page) (drop (start_of position token) ks)" "position t = length page + start_of position token"
    by (auto simp: continues_def Let_def)
  have "take (length page) (drop (start_of position token) ks) @ drop (length page) (drop (start_of position token) ks) =
    drop (start_of position token) ks" by (rule append_take_drop_id)
  then show "page @ drop (position t) ks = drop (start_of position token) ks" using p by (simp add: add.commute)
qed

lemma pages_read:
  "objects (snd (pagesFrom f (s3Page E d secret v T n p) token x)) = objects x"
  "start_of position token \<le> length (keysUnder (objects x) p) \<Longrightarrow>
    fst (pagesFrom f (s3Page E d secret v T n p) token x) = Inr obs \<Longrightarrow>
    map ob_key obs = drop (start_of position token) (keysUnder (objects x) p)"
proof (induction f arbitrary: token x obs)
  case (Suc f)
  {
    case 1
    show ?case using page_read(1) [of n p token x] Suc.IH(1)
      by (auto simp: bindM_run split: sum.split option.split prod.split)
  next
    case 2
    obtain r x' where r: "s3Page E d secret v T n p token x = (r, x')" by fastforce
    then obtain xs tok where page: "s3Page E d secret v T n p token x = (Inr (xs, tok), x')"
      using 2(2) by (cases r) (auto simp: bindM_run)
    have same: "objects x' = objects x" using page_read(1) [of n p token x] page by simp
    have c: "continues position (keysUnder (objects x) p) token (map ob_key xs) tok"
      using page_read(2) [OF 2(1), of n xs tok] page by simp
    show ?case
    proof (cases tok)
      case None
      with 2(2) page continues_drop(1) c show ?thesis by (simp add: bindM_run)
    next
      case (Some t)
      then obtain ys where ys: "fst (pagesFrom f (s3Page E d secret v T n p) (Some t) x') = Inr ys" "obs = xs @ ys"
        using 2(2) page by (auto simp: bindM_run split: sum.splits prod.splits)
      moreover have "start_of position (Some t) \<le> length (keysUnder (objects x') p)"
        using c Some same by (simp add: continues_def start_of_def Let_def)
      ultimately show ?thesis using Suc.IH(2) [OF _ ys(1)] continues_drop(2) [of "keysUnder (objects x) p" token] c Some same
        by (simp add: start_of_def)
    qed
  }
qed simp_all

lemma list_keys:
  "objects (snd (dr_list V p n x)) = objects x"
  "fst (dr_list V p n x) = Inr os \<Longrightarrow> map ob_key os = keysUnder (objects x) p"
proof -
  show "objects (snd (dr_list V p n x)) = objects x"
    using pages_read(1) by (auto simp: createS3Driver_def bindM_run split: sum.split prod.split)
  assume "fst (dr_list V p n x) = Inr os"
  then obtain obs where obs: "map ob_key obs = keysUnder (objects x) p" "os = sort_key ob_key obs"
    using pages_read(2) [where f = "s3_pages E" and n = "case n of Some n \<Rightarrow> n | None \<Rightarrow> MAX_KEYS_PER_PAGE" and p = p
      and token = None and x = x]
    by (auto simp: createS3Driver_def bindM_run start_of_def split: sum.splits prod.splits)
  have "sorted (map ob_key obs)" by (simp add: obs(1) keysUnder_def)
  then show "map ob_key os = keysUnder (objects x) p" using obs by (simp add: sort_key_id_if_sorted)
qed

lemma put_state:
  "k \<noteq> [] \<Longrightarrow> fst (dr_put V k b ct x) = Inr () \<Longrightarrow> objects (snd (dr_put V k b ct x)) = (objects x)(k \<mapsto> b)"
  "objects (snd (dr_put V k b ct x)) = objects x \<or> objects (snd (dr_put V k b ct x)) = (objects x)(k \<mapsto> b)"
proof -
  let ?ct = "Some (case ct of Some t \<Rightarrow> t | None \<Rightarrow> ''application/gzip'')"
  have run: "dr_put V k b ct = bindM (s3Send E d secret v T ''PUT'' (objectPath d k) [] (Some b) ?ct) (s3Require E ''PUT'')"
    by (simp add: createS3Driver_def)
  have "(k \<noteq> [] \<longrightarrow> fst (dr_put V k b ct x) = Inr () \<longrightarrow> objects (snd (dr_put V k b ct x)) = (objects x)(k \<mapsto> b)) \<and>
    (objects (snd (dr_put V k b ct x)) = objects x \<or> objects (snd (dr_put V k b ct x)) = (objects x)(k \<mapsto> b))"
    using s3Send_cases [OF objectPath_slash(1) [of d k], of E d secret v W "''PUT''" "[]" "Some b" ?ct x]
  proof cases
    case 1
    then show ?thesis unfolding run require_after(2) by (auto dest!: require_after(1))
  next
    case sent: (2 w)
    then show ?thesis unfolding run require_after(2)
      using put_effect [OF sent(2,3), of x] put_success [OF sent(2,3), of x] by (auto dest!: require_after(1))
  qed
  then show "k \<noteq> [] \<Longrightarrow> fst (dr_put V k b ct x) = Inr () \<Longrightarrow> objects (snd (dr_put V k b ct x)) = (objects x)(k \<mapsto> b)"
    "objects (snd (dr_put V k b ct x)) = objects x \<or> objects (snd (dr_put V k b ct x)) = (objects x)(k \<mapsto> b)" by blast+
qed

lemma delete_state:
  "k \<noteq> [] \<Longrightarrow> fst (dr_delete V k x) = Inr () \<Longrightarrow> objects (snd (dr_delete V k x)) = (objects x)(k := None)"
  "objects (snd (dr_delete V k x)) = objects x \<or> objects (snd (dr_delete V k x)) = (objects x)(k := None)"
proof -
  have run: "dr_delete V k = bindM (s3Send E d secret v T ''DELETE'' (objectPath d k) [] None None) (s3Require E ''DELETE'')"
    by (simp add: createS3Driver_def)
  have "(k \<noteq> [] \<longrightarrow> fst (dr_delete V k x) = Inr () \<longrightarrow> objects (snd (dr_delete V k x)) = (objects x)(k := None)) \<and>
    (objects (snd (dr_delete V k x)) = objects x \<or> objects (snd (dr_delete V k x)) = (objects x)(k := None))"
    using s3Send_cases [OF objectPath_slash(1) [of d k], of E d secret v W "''DELETE''" "[]" None None x]
  proof cases
    case 1
    then show ?thesis unfolding run require_after(2) by (auto dest!: require_after(1))
  next
    case sent: (2 w)
    then show ?thesis unfolding run require_after(2)
      using delete_effect [OF sent(2,3), of x] delete_success [OF sent(2,3), of x] by (auto dest!: require_after(1))
  qed
  then show "k \<noteq> [] \<Longrightarrow> fst (dr_delete V k x) = Inr () \<Longrightarrow> objects (snd (dr_delete V k x)) = (objects x)(k := None)"
    "objects (snd (dr_delete V k x)) = objects x \<or> objects (snd (dr_delete V k x)) = (objects x)(k := None)" by blast+
qed

lemma get_state:
  "objects (snd (dr_get V k x)) = objects x" "k \<noteq> [] \<Longrightarrow> fst (dr_get V k x) = Inr b \<Longrightarrow> objects x k = Some b"
proof -
  have run: "dr_get V k = bindM (s3Send E d secret v T ''GET'' (objectPath d k) [] None None) (\<lambda>res.
       thenM (s3Require E ''GET'' res) (returnM (rs_body res)))"
    by (simp add: createS3Driver_def)
  have "objects (snd (dr_get V k x)) = objects x \<and> (k \<noteq> [] \<longrightarrow> fst (dr_get V k x) = Inr b \<longrightarrow> objects x k = Some b)"
    using s3Send_cases [OF objectPath_slash(1) [of d k], of E d secret v W "''GET''" "[]" None None x]
  proof cases
    case 1
    then show ?thesis unfolding run by (simp add: bindM_run)
  next
    case sent: (2 w)
    show ?thesis unfolding run using sent(1) get_effect [OF sent(2), of x] get_success [OF sent(2,3), of x]
      by (auto simp: bindM_run s3Require_run split: sum.split)
  qed
  then show "objects (snd (dr_get V k x)) = objects x" "k \<noteq> [] \<Longrightarrow> fst (dr_get V k x) = Inr b \<Longrightarrow> objects x k = Some b" by blast+
qed

end

sublocale s3_server \<subseteq> store: object_store V objects "\<lambda>k. k \<noteq> []"
proof
  fix x k b ct p n os
  show "finite (dom (objects x))" by (rule finite_store)
  show "k \<noteq> [] \<Longrightarrow> fst (dr_put V k b ct x) = Inr () \<Longrightarrow> objects (snd (dr_put V k b ct x)) = (objects x)(k \<mapsto> b)"
    by (rule put_state(1))
  show "objects (snd (dr_put V k b ct x)) k' = objects x k'" if "k' \<noteq> k" for k'
    using put_state(2) [of k b ct x] that by auto
  show "k \<noteq> [] \<Longrightarrow> fst (dr_get V k x) = Inr b \<Longrightarrow> objects x k = Some b" by (rule get_state(2))
  show "objects (snd (dr_get V k x)) = objects x" by (rule get_state(1))
  show "objects (snd (dr_list V p n x)) = objects x" by (rule list_keys(1))
  show "distinct (map ob_key os)" if "fst (dr_list V p n x) = Inr os"
    using list_keys(2) [OF that] by (simp add: keysUnder_def)
  show "k \<in> dom (objects x) \<and> k \<noteq> []" if "fst (dr_list V p n x) = Inr os" "k \<in> set (map ob_key os)"
    using that(2) keysUnder_set [of x p] unfolding list_keys(2) [OF that(1)] by auto
  show "k \<noteq> [] \<Longrightarrow> fst (dr_delete V k x) = Inr () \<Longrightarrow> objects (snd (dr_delete V k x)) = (objects x)(k := None)"
    by (rule delete_state(1))
  show "objects (snd (dr_delete V k x)) k' = objects x k'" if "k' \<noteq> k" for k'
    using delete_state(2) [of k x] that by auto
  show "objects (snd (dr_delete V k x)) k = objects x k" if "objects (snd (dr_delete V k x)) k \<noteq> None"
    using delete_state(2) [of k x] that by auto
next
  fix q n x os nm
  assume l: "fst (dr_list V (q @ ''/'') n x) = Inr os" and "objects x (q @ CHR ''/'' # nm) \<noteq> None"
  then show "q @ CHR ''/'' # nm \<in> set (map ob_key os)"
    unfolding list_keys(2) [OF l] keysUnder_set(1) by (simp add: js_starts_with_iff)
qed

context s3_server
begin

lemmas is_object_store = store.object_store_axioms

end

text \<open>With a server that answers every listing and makes progress on each page, a listing of a store ends.\<close>

locale s3_answering = s3_server +
  assumes list_answer: "wi_method w = ''GET'' \<Longrightarrow> decodePath (linePath w) = Some (listPath d) \<Longrightarrow>
      lineParams (lineQuery w) = Some (listParams n prefix token) \<Longrightarrow> start_of position token \<le> length (keysUnder (objects x) prefix) \<Longrightarrow>
      \<exists>r j page following_token. fst (W w x) = Inr r \<and> http_ok r \<and> s3_parse E (utf8_decode (rs_body r)) = Inr j \<and>
        describes j page following_token \<and> continues position (keysUnder (objects x) prefix) token page following_token \<and>
        (following_token \<noteq> None \<longrightarrow> page \<noteq> [])"

lemma s3Request_ok:
  "canonicalQuery query = Inr q \<Longrightarrow> \<exists>req. s3Request E d secret v now meth path query body ct = Inr req"
  by (auto simp: s3Request_def signRequest_def buildCanonicalRequest_def Let_def split: prod.split)

lemma those_Some: "those xs = Some ys \<Longrightarrow> x \<in> set xs \<Longrightarrow> x \<noteq> None"
  by (induction xs arbitrary: ys) (auto split: option.splits)

lemma lineParams_query: "lineParams query = Some ps \<Longrightarrow> \<exists>q. canonicalQuery query = Inr q"
proof -
  assume l: "lineParams query = Some ps"
  have "\<exists>p. queryPair part = Inr p" if "part \<in> set (js_split (CHR ''&'') query)" for part
    using those_Some [OF l [unfolded lineParams_def], of "case (decodeURIComponent (takeWhile (\<lambda>c. c \<noteq> CHR ''='') part),
      decodeURIComponent (drop (Suc (length (takeWhile (\<lambda>c. c \<noteq> CHR ''='') part))) part)) of (Some a, Some b) \<Rightarrow> Some (a, b) | _ \<Rightarrow> None"] that
    by (force simp: queryPair_def Let_def split: option.splits)
  then have each: "\<forall>part \<in> set (js_split (CHR ''&'') query). \<exists>p. queryPair part = Inr p" by blast
  have "\<exists>ps. queryPairs parts = Inr ps" if "set parts \<subseteq> set (js_split (CHR ''&'') query)" for parts
    using that
  proof (induction parts)
    case (Cons part parts)
    then obtain p ps where "queryPair part = Inr p" "queryPairs parts = Inr ps" using each by auto
    then show ?case by simp
  qed simp
  then show ?thesis unfolding canonicalQuery_def by (metis bindE_simps(1) order_refl)
qed

context s3_answering
begin

lemma page_answered:
  assumes "start_of position token \<le> length (keysUnder (objects x) p)"
  shows "\<exists>obs tok. fst (s3Page E d secret v T n p token x) = Inr (obs, tok) \<and> (tok \<noteq> None \<longrightarrow> obs \<noteq> [])"
proof -
  let ?meth = "''GET''"
  obtain q where "canonicalQuery (listQuery n p token) = Inr q" using lineParams_query lineParams_listQuery by blast
  then obtain req where req: "s3Request E d secret v (s3_clock E x) ?meth (listPath d) (listQuery n p token) None None = Inr req"
    using s3Request_ok by blast
  define w where "w = wireRequest v req"
  have w: "wi_method w = ''GET''" "linePath w = encodePath (listPath d)" "lineQuery w = listQuery n p token"
    using s3_wire [OF req] by (simp_all add: w_def)
  then have "decodePath (linePath w) = Some (listPath d)" using objectPath_slash(2) [of d] by auto
  then obtain r j page tok where r: "fst (W w x) = Inr r" "http_ok r" "s3_parse E (utf8_decode (rs_body r)) = Inr j"
      "describes j page tok" "continues position (keysUnder (objects x) p) token page tok" "tok \<noteq> None \<longrightarrow> page \<noteq> []"
    using list_answer [OF w(1), of n p token x] lineParams_listQuery [of n p token] assms w(3) by metis
  have "set page \<subseteq> set (keysUnder (objects x) p)" using r(5) unfolding continues_def Let_def
    by (metis in_set_dropD in_set_takeD subsetI)
  then have "[] \<notin> set page" using keysUnder_set(2) by blast
  then obtain obs where obs: "readListing j = Inr (obs, tok)" "map ob_key obs = page" using describes_listing [OF r(4)] by blast
  have path: "(if bucketPath d = [] then ''/'' else bucketPath d) = listPath d" by (simp add: listPath_def)
  have "fst (s3Page E d secret v T n p token x) = Inr (obs, tok)"
    unfolding s3Page_def path using r(1-3) obs(1)
    by (simp add: bindM_run s3Send_run req createPinnedTransport_def s3Require_run w_def)
  with obs(2) r(6) show ?thesis by auto
qed

lemma pages_answered:
  "start_of position token \<le> length (keysUnder (objects x) p) \<Longrightarrow> length (keysUnder (objects x) p) - start_of position token < f \<Longrightarrow>
    \<exists>obs. fst (pagesFrom f (s3Page E d secret v T n p) token x) = Inr obs"
proof (induction f arbitrary: token x)
  case (Suc f)
  define ks where "ks = keysUnder (objects x) p"
  obtain obs tok where page: "fst (s3Page E d secret v T n p token x) = Inr (obs, tok)" "tok \<noteq> None \<longrightarrow> obs \<noteq> []"
    using page_answered [OF Suc.prems(1)] by blast
  define x' where "x' = snd (s3Page E d secret v T n p token x)"
  have same: "objects x' = objects x" by (simp add: x'_def page_read(1))
  have c: "continues position ks token (map ob_key obs) tok" using page_read(2) [OF Suc.prems(1) page(1)] by (simp add: ks_def)
  show ?case
  proof (cases tok)
    case None
    with page(1) show ?thesis by (simp add: bindM_run)
  next
    case (Some t)
    then have "start_of position (Some t) = start_of position token + length obs" "start_of position (Some t) \<le> length ks" "0 < length obs"
      using c page(2) by (auto simp: continues_def start_of_def Let_def)
    then have "\<exists>ys. fst (pagesFrom f (s3Page E d secret v T n p) (Some t) x') = Inr ys"
      using Suc.prems same by (intro Suc.IH) (auto simp: ks_def simp flip: length_greater_0_conv)
    then show ?thesis using page(1) Some by (auto simp: bindM_run x'_def)
  qed
qed simp

lemma listing_returns:
  "length (keysUnder (objects x) p) < s3_pages E \<Longrightarrow>
    \<exists>os. fst (dr_list V p n x) = Inr os \<and> map ob_key os = keysUnder (objects x) p"
proof -
  assume "length (keysUnder (objects x) p) < s3_pages E"
  then obtain obs where "fst (pagesFrom (s3_pages E) (s3Page E d secret v T
       (case n of Some n \<Rightarrow> n | None \<Rightarrow> MAX_KEYS_PER_PAGE) p) None x) = Inr obs"
    using pages_answered [of None x p "s3_pages E"] by (auto simp: start_of_def)
  then have "fst (dr_list V p n x) = Inr (sort_key ob_key obs)" by (simp add: createS3Driver_def bindM_run)
  then show ?thesis using list_keys(2) by blast
qed

end

section \<open>A reference server\<close>

text \<open>
  A bucket as an association list; its parser reads JSON where S3 writes XML, because the parser is a parameter.
\<close>

definition cloud :: destination where
  "cloud = nas\<lparr>ds_type := ''s3'', ds_bucket := Some ''b'', ds_pathStyle := Some True, ds_accessKeyId := Some ''AK''\<rparr>"

definition bucket_keys :: "objects \<Rightarrow> string \<Rightarrow> string list" where
  "bucket_keys m prefix = sort (remdups (filter (\<lambda>k. k \<noteq> [] \<and> js_starts_with k prefix) (map fst m)))"

definition bucket_view :: "objects \<Rightarrow> string \<Rightarrow> string option" where
  "bucket_view m k = (if k = [] then None else map_of m k)"

definition page_body :: "string list \<Rightarrow> string option \<Rightarrow> json" where
  "page_body ks following_token = JObj [(''ListBucketResult'', JObj (
     [(''Contents'', JArr (map (\<lambda>k. JObj [(''Key'', JStr k)]) ks)), (''IsTruncated'', JBool (following_token \<noteq> None))]
     @ (case following_token of Some t \<Rightarrow> [(''NextContinuationToken'', JStr t)] | None \<Rightarrow> [])))]"

definition answer :: "int \<Rightarrow> string \<Rightarrow> exn + http_response" where
  "answer st body = Inr \<lparr>rs_status = st, rs_body = body, rs_headers = (\<lambda>_. None)\<rparr>"

definition listing_answer :: "objects \<Rightarrow> (string \<times> string) list \<Rightarrow> exn + http_response" where
  "listing_answer m ps = (case ps of
     lt # mk # pr # rest \<Rightarrow>
       (let ks = bucket_keys m (snd pr); start = (case rest of [] \<Rightarrow> 0 | ct # cts \<Rightarrow> digits_val 0 (snd ct));
            size = max 1 (digits_val 0 (snd mk)); stop = start + size in
        answer 200 (utf8_encode (stringify (page_body (take size (drop start ks)) (if stop < length ks then Some (show_nat stop) else None)))))
   | _ \<Rightarrow> answer 400 [])"

definition bucket_key :: "wire_request \<Rightarrow> string option" where
  "bucket_key w = (case decodePath (linePath w) of Some p \<Rightarrow>
     if js_starts_with p ''/b/'' \<and> drop 3 p \<noteq> [] then Some (drop 3 p) else None | None \<Rightarrow> None)"

definition ref_s3 :: "objects wire" where
  "ref_s3 w m =
     (if wi_method w = ''GET'' \<and> decodePath (linePath w) = Some ''/b''
      then (case lineParams (lineQuery w) of Some ps \<Rightarrow> listing_answer m ps | None \<Rightarrow> answer 400 [], m)
      else (case bucket_key w of None \<Rightarrow> (answer 400 [], m)
        | Some k \<Rightarrow>
            if wi_method w = ''PUT'' then (answer 200 [], (k, wi_body w) # m)
            else if wi_method w = ''DELETE'' then (answer 204 [], filter (\<lambda>(j, b). j \<noteq> k) m)
            else if wi_method w = ''GET'' then (case map_of m k of Some b \<Rightarrow> answer 200 b | None \<Rightarrow> answer 404 [], m)
            else (answer 405 [], m)))"

definition json_reader :: "string \<Rightarrow> exn + json" where
  "json_reader t = (case json_parse t of Some j \<Rightarrow> Inr j | None \<Rightarrow> Inl (JsError ''XML''))"

definition ref_env :: "nat \<Rightarrow> objects s3_env" where
  "ref_env n = \<lparr>s3_crypto = plain_hash, s3_hmac = (\<lambda>k t. k @ t), s3_parse = json_reader, s3_clock = (\<lambda>_. 0), s3_pages = n\<rparr>"

lemma bucket_keysUnder: "keysUnder (bucket_view m) p = bucket_keys m p"
proof -
  have "{k. bucket_view m k \<noteq> None \<and> js_starts_with k p} = set (filter (\<lambda>k. k \<noteq> [] \<and> js_starts_with k p) (map fst m))"
    by (auto simp: bucket_view_def weak_map_of_SomeI dest: map_of_SomeD intro: rev_image_eqI)
  then show ?thesis unfolding keysUnder_def bucket_keys_def by (simp only: sorted_list_of_set_sort_remdups)
qed

lemma page_body_plain: "plain_json (page_body ks t)"
  by (auto simp: page_body_def split: option.split)

lemma page_body_describes: "t \<noteq> Some [] \<Longrightarrow> describes (page_body ks t) ks t"
  by (auto simp: describes_def page_body_def json_member_def list_all2_conv_all_nth split: option.split)

lemma cloud_paths [simp]: "objectPath cloud k = ''/b/'' @ k" "listPath cloud = ''/b''" "bucketPath cloud = ''/b''"
  by (simp_all add: objectPath_def listPath_def bucketPath_def cloud_def shown_def)

lemma bucket_key_object: "decodePath (linePath w) = Some (objectPath cloud k) \<Longrightarrow> bucket_key w = (if k = [] then None else Some k)"
  by (simp add: bucket_key_def js_starts_with_def)

lemma listing_answer_page:
  assumes "start_of (digits_val 0) token \<le> length (bucket_keys m prefix)"
  shows "\<exists>page tok. listing_answer m (listParams n prefix token) = answer 200 (utf8_encode (stringify (page_body page tok))) \<and>
    describes (page_body page tok) page tok \<and> continues (digits_val 0) (bucket_keys m prefix) token page tok \<and> (tok \<noteq> None \<longrightarrow> page \<noteq> [])"
proof -
  define ks where "ks = bucket_keys m prefix"
  define start where "start = start_of (digits_val 0) token"
  define size where "size = max 1 n"
  define page where "page = take size (drop start ks)"
  define tok where "tok = (if start + size < length ks then Some (show_nat (start + size)) else None)"
  have s: "(case (case token of Some t \<Rightarrow> [(''continuation-token'', t)] | None \<Rightarrow> []) of [] \<Rightarrow> 0 | ct # cts \<Rightarrow> digits_val 0 (snd ct)) = start"
    by (simp add: start_def start_of_def split: option.split)
  have "listing_answer m (listParams n prefix token) = answer 200 (utf8_encode (stringify (page_body page tok)))"
    by (simp add: listing_answer_def listParams_def s Let_def page_def tok_def size_def ks_def)
  moreover have "describes (page_body page tok) page tok" by (rule page_body_describes) (simp add: tok_def)
  moreover have "continues (digits_val 0) ks token page tok"
    using assms by (auto simp: continues_def start_def [symmetric] ks_def [symmetric] page_def tok_def Let_def)
  moreover have "tok \<noteq> None \<longrightarrow> page \<noteq> []" by (auto simp: tok_def page_def size_def)
  ultimately show ?thesis by (auto simp: ks_def)
qed

interpretation ref_s3: s3_answering "ref_env N" cloud secret v ref_s3 bucket_view "digits_val 0" for N secret v
proof
  fix x :: objects
  have "dom (bucket_view x) \<subseteq> dom (map_of x)" by (auto simp: bucket_view_def split: if_splits)
  then show "finite (dom (bucket_view x))" using finite_dom_map_of finite_subset by blast
  show "bucket_view x [] = None" by (simp add: bucket_view_def)
next
  fix w :: wire_request and k and x :: objects and r
  assume m: "wi_method w = ''PUT''" "decodePath (linePath w) = Some (objectPath cloud k)"
  note b = bucket_key_object [OF m(2)]
  show "bucket_view (snd (ref_s3 w x)) = bucket_view x \<or> bucket_view (snd (ref_s3 w x)) = (bucket_view x)(k \<mapsto> wi_body w)"
    by (auto simp: ref_s3_def m b bucket_view_def)
  show "bucket_view (snd (ref_s3 w x)) = (bucket_view x)(k \<mapsto> wi_body w)" if "k \<noteq> []"
    using that by (auto simp: ref_s3_def m b bucket_view_def)
next
  fix w :: wire_request and k and x :: objects and r
  assume m: "wi_method w = ''DELETE''" "decodePath (linePath w) = Some (objectPath cloud k)"
  note b = bucket_key_object [OF m(2)]
  show "bucket_view (snd (ref_s3 w x)) = bucket_view x \<or> bucket_view (snd (ref_s3 w x)) = (bucket_view x)(k := None)"
    by (auto simp: ref_s3_def m b bucket_view_def map_of_delete_one)
  show "bucket_view (snd (ref_s3 w x)) = (bucket_view x)(k := None)" if "k \<noteq> []"
    using that by (auto simp: ref_s3_def m b bucket_view_def map_of_delete_one)
next
  fix w :: wire_request and k and x :: objects and r
  assume m: "wi_method w = ''GET''"
  show "bucket_view (snd (ref_s3 w x)) = bucket_view x" by (auto simp: ref_s3_def m split: option.split)
  assume p: "decodePath (linePath w) = Some (objectPath cloud k)" and k: "k \<noteq> []" and r: "fst (ref_s3 w x) = Inr r" "http_ok r"
  show "bucket_view x k = Some (rs_body r)"
    using r k p by (auto simp: ref_s3_def m bucket_key_object [OF p] bucket_view_def answer_def http_ok_def split: option.splits)
next
  fix w :: wire_request and n prefix token and x :: objects
  assume w: "wi_method w = ''GET''" "decodePath (linePath w) = Some (listPath cloud)"
    "lineParams (lineQuery w) = Some (listParams n prefix token)"
  have run: "fst (ref_s3 w x) = listing_answer x (listParams n prefix token)" using w by (simp add: ref_s3_def)
  have list: "\<exists>r j page following_token. fst (ref_s3 w x) = Inr r \<and> http_ok r \<and>
      s3_parse (ref_env N) (utf8_decode (rs_body r)) = Inr j \<and> describes j page following_token \<and>
      continues (digits_val 0) (keysUnder (bucket_view x) prefix) token page following_token \<and> (following_token \<noteq> None \<longrightarrow> page \<noteq> [])"
    if "start_of (digits_val 0) token \<le> length (keysUnder (bucket_view x) prefix)"
  proof -
    note start = that [unfolded bucket_keysUnder]
    obtain page tok where a: "listing_answer x (listParams n prefix token) = answer 200 (utf8_encode (stringify (page_body page tok)))"
        "describes (page_body page tok) page tok" "continues (digits_val 0) (bucket_keys x prefix) token page tok" "tok \<noteq> None \<longrightarrow> page \<noteq> []"
      using listing_answer_page [OF start, of n] by blast
    show ?thesis
      by (intro exI [of _ "\<lparr>rs_status = 200, rs_body = utf8_encode (stringify (page_body page tok)), rs_headers = (\<lambda>_. None)\<rparr>"]
          exI [of _ "page_body page tok"] exI [of _ page] exI [of _ tok])
        (use a in \<open>simp add: run answer_def http_ok_def ref_env_def json_reader_def json_parse_stringify page_body_plain bucket_keysUnder\<close>)
  qed
  then show "start_of (digits_val 0) token \<le> length (keysUnder (bucket_view x) prefix) \<Longrightarrow>
      \<exists>r j page following_token. fst (ref_s3 w x) = Inr r \<and> http_ok r \<and>
      s3_parse (ref_env N) (utf8_decode (rs_body r)) = Inr j \<and> describes j page following_token \<and>
      continues (digits_val 0) (keysUnder (bucket_view x) prefix) token page following_token \<and> (following_token \<noteq> None \<longrightarrow> page \<noteq> [])"
    by blast
  fix r j
  assume start: "start_of (digits_val 0) token \<le> length (keysUnder (bucket_view x) prefix)"
    and r: "fst (ref_s3 w x) = Inr r" "http_ok r" "s3_parse (ref_env N) (utf8_decode (rs_body r)) = Inr j"
  show "\<exists>page following_token. describes j page following_token \<and>
     continues (digits_val 0) (keysUnder (bucket_view x) prefix) token page following_token"
    using list [OF start] r by fastforce
qed

section \<open>Properties\<close>

definition cloud_target :: vetted where
  "cloud_target = vet \<lparr>u_protocol = ''https:'', u_hostname = ''s3.example'', u_port = [], u_pathname = ''/''\<rparr> [(''93.184.216.34'', 4)]"







end
