(* ===== verification/Webdav_Driver.thy ===== *)
theory Webdav_Driver
  imports S3_Driver
begin

text \<open>
  \<open>bff-server/backup-driver-webdav.ts\<close>: the WebDAV driver over the pinned transport. The XML parser, the URL parser and
  \<open>Date\<close> reading of a header are parameters (\<open>None\<close> and an exception where they throw). A WebDAV key space is a tree: a
  put creates the missing collections first, a listing names the immediate children. The locale \<open>dav_server\<close> states what a
  WebDAV server is documented to do, and the driver over it is shown to be an \<open>object_store\<close> whose keys do not begin
  with a slash; a base path that does is never pruned.
\<close>

record dav_env =
  dav_parse :: "string \<Rightarrow> exn + json"
  dav_parseUrl :: "string \<Rightarrow> url option"
  dav_hrefPath :: "string \<Rightarrow> string option"
  dav_isoDate :: "json \<Rightarrow> exn + string"

definition strip_leading :: "string \<Rightarrow> string" where "strip_leading s = dropWhile (\<lambda>c. c = CHR ''/'') s"
definition strip_trailing :: "string \<Rightarrow> string" where "strip_trailing s = rev (dropWhile (\<lambda>c. c = CHR ''/'') (rev s))"

definition rootPath :: "url \<Rightarrow> string" where "rootPath u = strip_trailing (u_pathname u)"

definition pathFor :: "string \<Rightarrow> string \<Rightarrow> string" where
  "pathFor base key = base @ CHR ''/'' # strip_leading key"

definition davHeaders :: "destination \<Rightarrow> string \<Rightarrow> (string \<times> string) list \<Rightarrow> string option \<Rightarrow> (string \<times> string) list" where
  "davHeaders destination secret extra body =
     (''authorization'', ''Basic '' @ base64_encode (utf8_encode (shown (ds_username destination) @ '':'' @ secret))) # extra
     @ (case body of Some b \<Rightarrow> [(''content-length'', show_nat (length b))] | None \<Rightarrow> [])"

definition davSend :: "destination \<Rightarrow> string \<Rightarrow> 'x transport \<Rightarrow> string \<Rightarrow> string \<Rightarrow> string option \<Rightarrow> (string \<times> string) list \<Rightarrow>
    ('x, http_response) io" where
  "davSend destination secret T meth path body extra =
     T \<lparr>tr_method = meth, tr_path = path, tr_query = [], tr_headers = davHeaders destination secret extra body, tr_body = body\<rparr>"

definition davFailFor :: "string \<Rightarrow> http_response \<Rightarrow> exn" where
  "davFailFor operation res = JsError (''WebDAV '' @ operation @ '' failed: HTTP '' @ show_int (rs_status res))"

section \<open>Collections\<close>

fun makeCollections :: "destination \<Rightarrow> string \<Rightarrow> 'x transport \<Rightarrow> string \<Rightarrow> string list \<Rightarrow> ('x, unit) io" where
  "makeCollections destination secret T walked [] = returnM ()"
| "makeCollections destination secret T walked (segment # segments) =
     (let here = walked @ CHR ''/'' # segment in
      bindM (davSend destination secret T ''MKCOL'' (here @ ''/'') None []) (\<lambda>res.
      if http_ok res \<or> rs_status res = 405 then makeCollections destination secret T here segments
      else throwM (davFailFor ''MKCOL'' res)))"

definition ensureCollections :: "destination \<Rightarrow> string \<Rightarrow> 'x transport \<Rightarrow> string \<Rightarrow> string \<Rightarrow> ('x, unit) io" where
  "ensureCollections destination secret T base key =
     makeCollections destination secret T base (butlast (js_split (CHR ''/'') (strip_leading key)))"

section \<open>Reading a listing\<close>

text \<open>\<open>entry.propstat?.find((p) => p.prop)?.prop\<close>\<close>

fun findProp :: "json list \<Rightarrow> exn + json" where
  "findProp [] = Inr JUndef"
| "findProp (p # ps) = bindE (member p ''prop'') (\<lambda>v. if js_truthy v then Inr v else findProp ps)"

definition propOf :: "json \<Rightarrow> exn + json" where
  "propOf entry = (case json_member entry ''propstat'' of JArr ps \<Rightarrow> findProp ps | JUndef \<Rightarrow> Inr JUndef | JNull \<Rightarrow> Inr JUndef
     | _ \<Rightarrow> Inl typeError)"

definition ends_with_slash :: "string \<Rightarrow> bool" where "ends_with_slash s \<longleftrightarrow> s \<noteq> [] \<and> last s = CHR ''/''"

definition isCollection :: "string \<Rightarrow> json \<Rightarrow> bool" where
  "isCollection href prop \<longleftrightarrow> ends_with_slash href \<or>
     (case json_member prop ''resourcetype'' of JObj es \<Rightarrow> ''collection'' \<in> fst ` set es | _ \<Rightarrow> False)"

definition entryPath :: "dav_env \<Rightarrow> json \<Rightarrow> string option" where
  "entryPath E href = (case dav_hrefPath E (js_to_string href) of Some p \<Rightarrow> decodeURIComponent p | None \<Rightarrow> None)"

definition readEntry :: "dav_env \<Rightarrow> string \<Rightarrow> string \<Rightarrow> json \<Rightarrow> exn + object_info option" where
  "readEntry E base prefixPath entry = bindE (member entry ''href'') (\<lambda>h.
     if \<not> js_truthy h then Inr None
     else (case entryPath E h of None \<Rightarrow> Inr None
       | Some href \<Rightarrow>
          let normalized = strip_trailing href in
          bindE (propOf entry) (\<lambda>prop.
          if isCollection href prop then Inr None
          else if \<not> js_starts_with normalized base then Inr None
          else (let key = strip_leading (drop (length base) normalized); modified = json_member prop ''getlastmodified'';
                    size = json_member prop ''getcontentlength'' in
            if \<not> js_starts_with key prefixPath then Inr None
            else bindE (if js_truthy modified then dav_isoDate E modified else Inr []) (\<lambda>lastModified.
              Inr (Some \<lparr>ob_key = key, ob_sizeBytes = (if size = JUndef \<or> size = JNull then 0 else whole_number size),
                ob_lastModified = lastModified\<rparr>))))))"

fun readEntries :: "dav_env \<Rightarrow> string \<Rightarrow> string \<Rightarrow> json list \<Rightarrow> exn + object_info list" where
  "readEntries E base prefixPath [] = Inr []"
| "readEntries E base prefixPath (e # es) = bindE (readEntry E base prefixPath e) (\<lambda>r. bindE (readEntries E base prefixPath es) (\<lambda>rs.
     Inr (case r of Some ob \<Rightarrow> ob # rs | None \<Rightarrow> rs)))"

definition parseListing :: "dav_env \<Rightarrow> string \<Rightarrow> string \<Rightarrow> string \<Rightarrow> exn + object_info list" where
  "parseListing E base xml prefixPath = bindE (dav_parse E xml) (\<lambda>parsed. bindE (member parsed ''multistatus'') (\<lambda>ms.
     bindE (case json_member ms ''response'' of JArr es \<Rightarrow> readEntries E base prefixPath es | JUndef \<Rightarrow> Inr [] | JNull \<Rightarrow> Inr []
       | JStr s \<Rightarrow> Inr [] | _ \<Rightarrow> Inl typeError) (\<lambda>objects. Inr (sort_key ob_key objects))))"

section \<open>The driver\<close>

definition davPut :: "destination \<Rightarrow> string \<Rightarrow> 'x transport \<Rightarrow> string \<Rightarrow> string \<Rightarrow> string \<Rightarrow> string option \<Rightarrow> ('x, unit) io" where
  "davPut destination secret T base key body contentType = thenM (ensureCollections destination secret T base key)
     (bindM (davSend destination secret T ''PUT'' (pathFor base key) (Some body)
       [(''content-type'', case contentType of Some t \<Rightarrow> t | None \<Rightarrow> ''application/gzip'')]) (\<lambda>res.
      if http_ok res then returnM () else throwM (davFailFor ''PUT'' res)))"

definition davGet :: "destination \<Rightarrow> string \<Rightarrow> 'x transport \<Rightarrow> string \<Rightarrow> string \<Rightarrow> ('x, string) io" where
  "davGet destination secret T base key = bindM (davSend destination secret T ''GET'' (pathFor base key) None []) (\<lambda>res.
     if http_ok res then returnM (rs_body res) else throwM (davFailFor ''GET'' res))"

definition davList :: "dav_env \<Rightarrow> destination \<Rightarrow> string \<Rightarrow> 'x transport \<Rightarrow> string \<Rightarrow> string \<Rightarrow> ('x, object_info list) io" where
  "davList E destination secret T base prefix =
     bindM (davSend destination secret T ''PROPFIND'' (strip_trailing (pathFor base prefix) @ ''/'') None [(''depth'', ''1'')]) (\<lambda>res.
     if rs_status res = 404 then returnM []
     else if rs_status res \<noteq> 207 \<and> \<not> http_ok res then throwM (davFailFor ''PROPFIND'' res)
     else liftE (parseListing E base (utf8_decode (rs_body res)) (strip_leading prefix)))"

definition davDelete :: "destination \<Rightarrow> string \<Rightarrow> 'x transport \<Rightarrow> string \<Rightarrow> string \<Rightarrow> ('x, unit) io" where
  "davDelete destination secret T base key = bindM (davSend destination secret T ''DELETE'' (pathFor base key) None []) (\<lambda>res.
     if http_ok res \<or> rs_status res = 404 then returnM () else throwM (davFailFor ''DELETE'' res))"

definition davWriteProbe :: "destination \<Rightarrow> string \<Rightarrow> 'x transport \<Rightarrow> string \<Rightarrow> ('x, probe_outcome) io" where
  "davWriteProbe destination secret T base =
     bindM (attemptM (thenM (ensureCollections destination secret T base (probeKey destination))
       (davSend destination secret T ''PUT'' (pathFor base (probeKey destination)) (Some []) [(''content-type'', ''application/octet-stream'')]))) (\<lambda>wr.
     case wr of Inl e \<Rightarrow> returnM unreachable
     | Inr res \<Rightarrow>
        if rs_status res = 401 then returnM (ProbeFailed ''credentials-rejected'' ''Those credentials were rejected'')
        else if rs_status res = 403 \<or> rs_status res = 405
        then returnM (ProbeFailed ''no-write-permission'' ''Those credentials can read that path but cannot write to it'')
        else if \<not> http_ok res then returnM (ProbeFailed ''no-write-permission'' (''A test write answered HTTP '' @ show_int (rs_status res)))
        else thenM (attemptM (davSend destination secret T ''DELETE'' (pathFor base (probeKey destination)) None [])) (returnM ProbeOk))"

definition davTestConnection :: "destination \<Rightarrow> string \<Rightarrow> 'x transport \<Rightarrow> string \<Rightarrow> ('x, probe_outcome) io" where
  "davTestConnection destination secret T base =
     bindM (attemptM (davSend destination secret T ''PROPFIND'' (base @ ''/'') None [(''depth'', ''0'')])) (\<lambda>rd. case rd of
       Inl e \<Rightarrow> returnM unreachable
     | Inr res \<Rightarrow>
        if rs_status res = 401 then returnM (ProbeFailed ''credentials-rejected'' ''Those credentials were rejected'')
        else if rs_status res = 403
        then returnM (ProbeFailed ''no-write-permission'' ''Those credentials are valid but not permitted to use that path'')
        else if rs_status res = 404
        then returnM (ProbeFailed ''no-write-permission'' ''That path does not exist, or those credentials cannot see it'')
        else if rs_status res \<noteq> 207 \<and> \<not> http_ok res
        then returnM (ProbeFailed ''unreachable'' (''That destination answered HTTP '' @ show_int (rs_status res)))
        else davWriteProbe destination secret T base)"

definition davDriver :: "dav_env \<Rightarrow> destination \<Rightarrow> string \<Rightarrow> 'x transport \<Rightarrow> string \<Rightarrow> 'x driver" where
  "davDriver E destination secret T base = \<lparr>dr_put = davPut destination secret T base, dr_get = davGet destination secret T base,
     dr_list = (\<lambda>prefix pageSize. davList E destination secret T base prefix), dr_delete = davDelete destination secret T base,
     dr_testConnection = davTestConnection destination secret T base\<rparr>"

definition createWebdavDriver :: "dav_env \<Rightarrow> destination \<Rightarrow> string \<Rightarrow> 'x transport \<Rightarrow> exn + 'x driver" where
  "createWebdavDriver E destination secret T = (case dav_parseUrl E (ds_endpoint destination) of
     None \<Rightarrow> Inl (JsError ''Invalid URL'') | Some u \<Rightarrow> Inr (davDriver E destination secret T (rootPath u)))"

section \<open>The server on the other side\<close>

text \<open>A key that names a place of its own in the tree.\<close>

definition dav_key :: "string \<Rightarrow> bool" where
  "dav_key k \<longleftrightarrow> k \<noteq> [] \<and> hd k \<noteq> CHR ''/'' \<and> last k \<noteq> CHR ''/''"

text \<open>An entry of a multistatus document: a collection by its final slash, or the file of a key.\<close>

definition plain_propstat :: "json \<Rightarrow> bool" where
  "plain_propstat p \<longleftrightarrow> p \<noteq> JNull \<and> p \<noteq> JUndef \<and>
     (case json_member (json_member p ''prop'') ''resourcetype'' of JObj r \<Rightarrow> ''collection'' \<notin> fst ` set r | _ \<Rightarrow> True)"

definition dav_entry :: "dav_env \<Rightarrow> string \<Rightarrow> json \<Rightarrow> string option \<Rightarrow> bool" where
  "dav_entry E base e r \<longleftrightarrow> (case json_member e ''href'' of
     JStr h \<Rightarrow> h \<noteq> [] \<and> (case r of
         None \<Rightarrow> (case entryPath E (JStr h) of Some p \<Rightarrow> ends_with_slash p | None \<Rightarrow> False)
       | Some k \<Rightarrow> dav_key k \<and> entryPath E (JStr h) = Some (base @ CHR ''/'' # k) \<and>
           (case json_member e ''propstat'' of JArr ps \<Rightarrow> list_all plain_propstat ps | _ \<Rightarrow> False))
   | _ \<Rightarrow> False)"

definition dav_response :: "json \<Rightarrow> json list \<Rightarrow> bool" where
  "dav_response j es \<longleftrightarrow> j \<noteq> JNull \<and> j \<noteq> JUndef \<and> (case json_member (json_member j ''multistatus'') ''response'' of
     JArr xs \<Rightarrow> es = xs | c \<Rightarrow> c = JUndef \<and> es = [])"

abbreviation somes :: "'a option list \<Rightarrow> 'a list" where "somes \<equiv> List.map_filter id"

locale dav_server =
  fixes E :: dav_env and d :: destination and secret :: string and v :: vetted and base :: string and W :: "'x wire" and objects :: "'x \<Rightarrow> string \<Rightarrow> string option"
  assumes base_slash: "base = [] \<or> hd base = CHR ''/''" and finite_store: "finite (dom (objects x))"
    and put_effect: "wi_method w = ''PUT'' \<Longrightarrow> decodePath (linePath w) = Some (base @ CHR ''/'' # k) \<Longrightarrow> dav_key k \<Longrightarrow>
      objects (snd (W w x)) = objects x \<or> objects (snd (W w x)) = (objects x)(k \<mapsto> wi_body w)"
    and put_success: "wi_method w = ''PUT'' \<Longrightarrow> decodePath (linePath w) = Some (base @ CHR ''/'' # k) \<Longrightarrow> dav_key k \<Longrightarrow>
      fst (W w x) = Inr r \<Longrightarrow> http_ok r \<Longrightarrow> objects (snd (W w x)) = (objects x)(k \<mapsto> wi_body w)"
    and reading: "wi_method w \<in> {''GET'', ''PROPFIND'', ''MKCOL''} \<Longrightarrow> objects (snd (W w x)) = objects x"
    and get_success: "wi_method w = ''GET'' \<Longrightarrow> decodePath (linePath w) = Some (base @ CHR ''/'' # k) \<Longrightarrow> dav_key k \<Longrightarrow>
      fst (W w x) = Inr r \<Longrightarrow> http_ok r \<Longrightarrow> objects x k = Some (rs_body r)"
    and delete_effect: "wi_method w = ''DELETE'' \<Longrightarrow> decodePath (linePath w) = Some (base @ CHR ''/'' # k) \<Longrightarrow> objects x k \<noteq> None \<Longrightarrow>
      objects (snd (W w x)) = objects x \<or> objects (snd (W w x)) = (objects x)(k := None)"
    and delete_success: "wi_method w = ''DELETE'' \<Longrightarrow> decodePath (linePath w) = Some (base @ CHR ''/'' # k) \<Longrightarrow> objects x k \<noteq> None \<Longrightarrow>
      fst (W w x) = Inr r \<Longrightarrow> http_ok r \<or> rs_status r = 404 \<Longrightarrow> objects (snd (W w x)) = (objects x)(k := None)"
    and propfind_missing: "wi_method w = ''PROPFIND'' \<Longrightarrow> decodePath (linePath w) = Some (base @ CHR ''/'' # q @ ''/'') \<Longrightarrow>
      fst (W w x) = Inr r \<Longrightarrow> rs_status r = 404 \<Longrightarrow> objects x (q @ CHR ''/'' # nm) = None"
    and propfind_entries: "wi_method w = ''PROPFIND'' \<Longrightarrow> map_of (wi_headers w) ''depth'' = Some ''1'' \<Longrightarrow> fst (W w x) = Inr r \<Longrightarrow>
      rs_status r = 207 \<or> http_ok r \<Longrightarrow> dav_parse E (utf8_decode (rs_body r)) = Inr j \<Longrightarrow>
      \<exists>es rs. dav_response j es \<and> list_all2 (dav_entry E base) es rs \<and> distinct (somes rs) \<and> (\<forall>k \<in> set (somes rs). objects x k \<noteq> None) \<and>
        (\<forall>q nm. dav_key q \<longrightarrow> decodePath (linePath w) = Some (base @ CHR ''/'' # q @ ''/'') \<longrightarrow> objects x (q @ CHR ''/'' # nm) \<noteq> None \<longrightarrow>
          nm \<noteq> [] \<longrightarrow> CHR ''/'' \<notin> set nm \<longrightarrow> q @ CHR ''/'' # nm \<in> set (somes rs))"

section \<open>The driver is an object store\<close>

lemma strip_key: "dav_key k \<Longrightarrow> strip_leading k = k" "dav_key k \<Longrightarrow> strip_trailing (b @ CHR ''/'' # k) = b @ CHR ''/'' # k"
proof -
  assume k: "dav_key k"
  then show "strip_leading k = k" by (cases k) (simp_all add: dav_key_def strip_leading_def)
  from k obtain c r where "rev k = c # r" "c \<noteq> CHR ''/''" by (cases "rev k") (auto simp: dav_key_def simp flip: hd_rev)
  then have "dropWhile (\<lambda>c. c = CHR ''/'') (rev (b @ CHR ''/'' # k)) = rev (b @ CHR ''/'' # k)" by simp
  then show "strip_trailing (b @ CHR ''/'' # k) = b @ CHR ''/'' # k" by (simp only: strip_trailing_def rev_rev_ident)
qed

lemma dav_key_prefix: "dav_key q \<Longrightarrow> strip_leading (q @ r) = q @ r"
  by (cases q) (simp_all add: dav_key_def strip_leading_def)

lemma findProp_plain:
  "list_all plain_propstat ps \<Longrightarrow> \<exists>prop. findProp ps = Inr prop \<and>
    (case json_member prop ''resourcetype'' of JObj r \<Rightarrow> ''collection'' \<notin> fst ` set r | _ \<Rightarrow> True)"
proof (induction ps)
  case Nil
  then show ?case by (simp add: json_member_def)
next
  case (Cons p ps)
  then show ?case by (auto simp: plain_propstat_def member_def)
qed

lemma readEntry_file:
  assumes "dav_entry E base e (Some k)" "readEntry E base pfx e = Inr r"
  shows "map_option ob_key r = (if js_starts_with k pfx then Some k else None)"
proof -
  obtain h ps where h: "json_member e ''href'' = JStr h" "h \<noteq> []" "dav_key k" "entryPath E (JStr h) = Some (base @ CHR ''/'' # k)"
      "json_member e ''propstat'' = JArr ps" "list_all plain_propstat ps"
    using assms(1) by (auto simp: dav_entry_def split: json.splits)
  obtain pv where pv: "findProp ps = Inr pv"
      "case json_member pv ''resourcetype'' of JObj r \<Rightarrow> ''collection'' \<notin> fst ` set r | _ \<Rightarrow> True"
    using findProp_plain [OF h(6)] by blast
  have e: "member e ''href'' = Inr (JStr h)" using h(1) by (auto simp: member_def json_member_def)
  have c: "\<not> isCollection (base @ CHR ''/'' # k) pv"
    using pv(2) h(3) by (auto simp: isCollection_def ends_with_slash_def dav_key_def split: json.splits)
  have key: "strip_leading (drop (length base) (base @ CHR ''/'' # k)) = k"
    using h(3) by (cases k) (simp_all add: strip_leading_def dav_key_def)
  show ?thesis
    using assms(2) h(2) key strip_key(2) [OF h(3), of base] c
    by (auto simp: readEntry_def e h(4) propOf_def h(5) pv(1) js_truthy_def bindE_Inr_iff Let_def split: if_splits)
qed

lemma readEntry_collection:
  assumes "dav_entry E base e None" "readEntry E base pfx e = Inr r"
  shows "r = None"
proof -
  obtain h p where h: "json_member e ''href'' = JStr h" "h \<noteq> []" "entryPath E (JStr h) = Some p" "ends_with_slash p"
    using assms(1) by (auto simp: dav_entry_def split: json.splits option.splits)
  have e: "member e ''href'' = Inr (JStr h)" using h(1) by (auto simp: member_def json_member_def)
  show ?thesis using assms(2) h(2,4) by (auto simp: readEntry_def e h(3) js_truthy_def bindE_Inr_iff isCollection_def Let_def split: if_splits)
qed

lemma readEntries_keys:
  "list_all2 (dav_entry E base) es rs \<Longrightarrow> readEntries E base pfx es = Inr obs \<Longrightarrow>
    map ob_key obs = filter (\<lambda>k. js_starts_with k pfx) (somes rs)"
proof (induction es rs arbitrary: obs rule: list_all2_induct)
  case (Cons e es r rs)
  then obtain q obs' where q: "readEntry E base pfx e = Inr q" "readEntries E base pfx es = Inr obs'"
      "obs = (case q of Some ob \<Rightarrow> ob # obs' | None \<Rightarrow> obs')"
    by (auto simp: bindE_Inr_iff)
  show ?case
  proof (cases r)
    case None
    with Cons(1) q(1) readEntry_collection have "q = None" by blast
    then show ?thesis using Cons.IH [OF q(2)] q(3) None by (simp add: map_filter_simps)
  next
    case (Some k)
    with Cons(1) q readEntry_file have "map_option ob_key q = (if js_starts_with k pfx then Some k else None)" by blast
    then show ?thesis using Cons.IH [OF q(2)] q(3) Some by (cases q) (auto simp: map_filter_simps split: if_splits)
  qed
qed (simp add: map_filter_simps)

text \<open>The request on the wire.\<close>

definition davWire :: "destination \<Rightarrow> string \<Rightarrow> vetted \<Rightarrow> string \<Rightarrow> string \<Rightarrow> string option \<Rightarrow> (string \<times> string) list \<Rightarrow> wire_request" where
  "davWire d secret v meth path body extra = wireRequest v
     \<lparr>tr_method = meth, tr_path = path, tr_query = [], tr_headers = davHeaders d secret extra body, tr_body = body\<rparr>"

lemma davSend_run: "davSend d secret (createPinnedTransport v W) meth path body extra x = W (davWire d secret v meth path body extra) x"
  by (simp add: davSend_def createPinnedTransport_def davWire_def)

lemma davWire_fields [simp]:
  "wi_method (davWire d secret v meth path body extra) = meth" "linePath (davWire d secret v meth path body extra) = encodePath path"
  "wi_body (davWire d secret v meth path body extra) = (case body of Some b \<Rightarrow> b | None \<Rightarrow> [])"
  "wi_headers (davWire d secret v meth path body extra) = davHeaders d secret extra body"
  by (simp_all add: davWire_def)

lemma strip_trailing_slash: "strip_trailing (s @ ''/'') = strip_trailing s"
  by (simp add: strip_trailing_def)

context dav_server
begin

abbreviation "T \<equiv> createPinnedTransport v W"
abbreviation "V \<equiv> davDriver E d secret T base"

lemma base_path: "decodePath (encodePath (base @ CHR ''/'' # s)) = Some (base @ CHR ''/'' # s)"
  using base_slash by (cases base) auto

lemma key_path: "dav_key k \<Longrightarrow> decodePath (linePath (davWire d secret v meth (pathFor base k) body extra)) = Some (base @ CHR ''/'' # k)"
  by (simp add: pathFor_def strip_key base_path)

lemma collections_read: "objects (snd (makeCollections d secret T walked segments x)) = objects x"
  by (induction segments arbitrary: walked x) (simp_all add: bindM_run Let_def davSend_run reading split: sum.split)

lemma put_state:
  assumes "dav_key k"
  shows "fst (davPut d secret T base k b ct x) = Inr () \<Longrightarrow> objects (snd (davPut d secret T base k b ct x)) = (objects x)(k \<mapsto> b)"
    "objects (snd (davPut d secret T base k b ct x)) = objects x \<or> objects (snd (davPut d secret T base k b ct x)) = (objects x)(k \<mapsto> b)"
proof -
  define m where "m = ensureCollections d secret T base k x"
  have m: "objects (snd m) = objects x" by (simp add: m_def ensureCollections_def collections_read)
  define w where "w = davWire d secret v ''PUT'' (pathFor base k) (Some b)
      [(''content-type'', case ct of Some t \<Rightarrow> t | None \<Rightarrow> ''application/gzip'')]"
  have w: "wi_method w = ''PUT''" "decodePath (linePath w) = Some (base @ CHR ''/'' # k)" "wi_body w = b"
    using key_path [OF assms] by (simp_all add: w_def)
  note eff = put_effect [OF w(1,2) assms, of "snd m"] put_success [OF w(1,2) assms, of "snd m"]
  have run: "davPut d secret T base k b ct x = (case fst m of Inl e \<Rightarrow> (Inl e, snd m) | Inr _ \<Rightarrow>
    (case fst (W w (snd m)) of Inl e \<Rightarrow> (Inl e, snd (W w (snd m))) | Inr res \<Rightarrow>
      (if http_ok res then returnM () else throwM (davFailFor ''PUT'' res)) (snd (W w (snd m)))))"
    by (simp add: davPut_def bindM_run davSend_run w_def m_def [symmetric] split: sum.split)
  show "fst (davPut d secret T base k b ct x) = Inr () \<Longrightarrow> objects (snd (davPut d secret T base k b ct x)) = (objects x)(k \<mapsto> b)"
    "objects (snd (davPut d secret T base k b ct x)) = objects x \<or> objects (snd (davPut d secret T base k b ct x)) = (objects x)(k \<mapsto> b)"
    using eff m w(3) unfolding run by (auto split: sum.splits if_splits)
qed

lemma get_state:
  "objects (snd (davGet d secret T base k x)) = objects x"
  "dav_key k \<Longrightarrow> fst (davGet d secret T base k x) = Inr b \<Longrightarrow> objects x k = Some b"
proof -
  define w where "w = davWire d secret v ''GET'' (pathFor base k) None []"
  have m: "wi_method w = ''GET''" by (simp add: w_def)
  have run: "davGet d secret T base k x = (case fst (W w x) of Inl e \<Rightarrow> (Inl e, snd (W w x)) | Inr res \<Rightarrow>
     (if http_ok res then returnM (rs_body res) else throwM (davFailFor ''GET'' res)) (snd (W w x)))"
    by (simp add: davGet_def bindM_run davSend_run w_def split: sum.split)
  show "objects (snd (davGet d secret T base k x)) = objects x" using reading [of w x] m unfolding run by (simp split: sum.split)
  show "objects x k = Some b" if "dav_key k" "fst (davGet d secret T base k x) = Inr b"
    using get_success [OF m _ that(1), of x] that(2) key_path [OF that(1)] unfolding run
    by (auto simp: w_def split: sum.splits if_splits)
qed

lemma delete_state:
  assumes "dav_key k" "objects x k \<noteq> None"
  shows "fst (davDelete d secret T base k x) = Inr () \<Longrightarrow> objects (snd (davDelete d secret T base k x)) = (objects x)(k := None)"
    "objects (snd (davDelete d secret T base k x)) = objects x \<or> objects (snd (davDelete d secret T base k x)) = (objects x)(k := None)"
proof -
  define w where "w = davWire d secret v ''DELETE'' (pathFor base k) None []"
  have w: "wi_method w = ''DELETE''" "decodePath (linePath w) = Some (base @ CHR ''/'' # k)"
    using key_path [OF assms(1)] by (simp_all add: w_def)
  note eff = delete_effect [OF w assms(2)] delete_success [OF w assms(2)]
  have run: "davDelete d secret T base k x = (case fst (W w x) of Inl e \<Rightarrow> (Inl e, snd (W w x)) | Inr res \<Rightarrow>
     (if http_ok res \<or> rs_status res = 404 then returnM () else throwM (davFailFor ''DELETE'' res)) (snd (W w x)))"
    by (simp add: davDelete_def bindM_run davSend_run w_def split: sum.split)
  show "fst (davDelete d secret T base k x) = Inr () \<Longrightarrow> objects (snd (davDelete d secret T base k x)) = (objects x)(k := None)"
    "objects (snd (davDelete d secret T base k x)) = objects x \<or> objects (snd (davDelete d secret T base k x)) = (objects x)(k := None)"
    using eff unfolding run by (auto split: sum.splits if_splits)
qed

lemma list_state:
  "objects (snd (davList E d secret T base p x)) = objects x"
  "fst (davList E d secret T base p x) = Inr os \<Longrightarrow> k \<in> set (map ob_key os) \<Longrightarrow> k \<in> dom (objects x) \<and> dav_key k"
  "fst (davList E d secret T base p x) = Inr os \<Longrightarrow> distinct (map ob_key os)"
  "fst (davList E d secret T base p x) = Inr os \<Longrightarrow> p = q @ ''/'' \<Longrightarrow> dav_key q \<Longrightarrow> objects x (q @ CHR ''/'' # nm) \<noteq> None \<Longrightarrow>
    CHR ''/'' \<notin> set nm \<Longrightarrow> nm \<noteq> [] \<Longrightarrow> q @ CHR ''/'' # nm \<in> set (map ob_key os)"
proof -
  define path where "path = strip_trailing (pathFor base p) @ ''/''"
  define w where "w = davWire d secret v ''PROPFIND'' path None [(''depth'', ''1'')]"
  have w: "wi_method w = ''PROPFIND''" "linePath w = encodePath path" "wi_headers w = davHeaders d secret [(''depth'', ''1'')] None"
    by (simp_all add: w_def)
  have depth: "map_of (wi_headers w) ''depth'' = Some ''1''" by (simp add: w(3) davHeaders_def)
  have run: "davList E d secret T base p x = (case fst (W w x) of Inl e \<Rightarrow> (Inl e, snd (W w x)) | Inr res \<Rightarrow>
     (if rs_status res = 404 then returnM [] else if rs_status res \<noteq> 207 \<and> \<not> http_ok res then throwM (davFailFor ''PROPFIND'' res)
      else liftE (parseListing E base (utf8_decode (rs_body res)) (strip_leading p))) (snd (W w x)))"
    by (simp add: davList_def bindM_run davSend_run path_def [symmetric] w_def split: sum.split)
  show "objects (snd (davList E d secret T base p x)) = objects x"
    using reading [of w x] w(1) by (simp add: run split: sum.split)
  have known: "(rs_status r = 404 \<and> os = []) \<or>
      (\<exists>rs. distinct (somes rs) \<and> (\<forall>k \<in> set (somes rs). objects x k \<noteq> None \<and> dav_key k) \<and>
        (\<forall>q nm. dav_key q \<longrightarrow> decodePath (linePath w) = Some (base @ CHR ''/'' # q @ ''/'') \<longrightarrow> objects x (q @ CHR ''/'' # nm) \<noteq> None \<longrightarrow>
          nm \<noteq> [] \<longrightarrow> CHR ''/'' \<notin> set nm \<longrightarrow> q @ CHR ''/'' # nm \<in> set (somes rs)) \<and>
        set (map ob_key os) = set (filter (\<lambda>k. js_starts_with k (strip_leading p)) (somes rs)) \<and> distinct (map ob_key os))"
    if l: "fst (davList E d secret T base p x) = Inr os" and wr: "fst (W w x) = Inr r" for os r
  proof (cases "rs_status r = 404")
    case True
    with l wr show ?thesis by (simp add: run)
  next
    case False
    then have st: "rs_status r = 207 \<or> http_ok r" and pl: "parseListing E base (utf8_decode (rs_body r)) (strip_leading p) = Inr os"
      using l wr False by (auto simp: run split: if_splits)
    then obtain j ms obs where j: "dav_parse E (utf8_decode (rs_body r)) = Inr j" "member j ''multistatus'' = Inr ms"
        "(case json_member ms ''response'' of JArr es \<Rightarrow> readEntries E base (strip_leading p) es | JUndef \<Rightarrow> Inr [] | JNull \<Rightarrow> Inr []
       | JStr s \<Rightarrow> Inr [] | _ \<Rightarrow> Inl typeError) = Inr obs" "os = sort_key ob_key obs"
      by (auto simp: parseListing_def bindE_Inr_iff)
    obtain es rs where er: "dav_response j es" "list_all2 (dav_entry E base) es rs" "distinct (somes rs)"
        "\<forall>k \<in> set (somes rs). objects x k \<noteq> None"
        "\<forall>q nm. dav_key q \<longrightarrow> decodePath (linePath w) = Some (base @ CHR ''/'' # q @ ''/'') \<longrightarrow> objects x (q @ CHR ''/'' # nm) \<noteq> None \<longrightarrow>
          nm \<noteq> [] \<longrightarrow> CHR ''/'' \<notin> set nm \<longrightarrow> q @ CHR ''/'' # nm \<in> set (somes rs)"
      using propfind_entries [OF w(1) depth wr st j(1)] by blast
    have "readEntries E base (strip_leading p) es = Inr obs"
      using er(1) j(2,3) by (auto simp: dav_response_def member_def split: json.splits if_splits)
    then have ks: "map ob_key obs = filter (\<lambda>k. js_starts_with k (strip_leading p)) (somes rs)" by (rule readEntries_keys [OF er(2)])
    have "set (map ob_key os) = set (filter (\<lambda>k. js_starts_with k (strip_leading p)) (somes rs))"
      unfolding j(4) ks [symmetric] by simp
    moreover have "distinct (map ob_key obs)" unfolding ks using er(3) by simp
    then have "distinct (map ob_key os)" unfolding j(4) by (simp add: distinct_map)
    moreover have "dav_key k" if "k \<in> set (somes rs)" for k
    proof -
      have "Some k \<in> set rs" using that by (induction rs) (auto simp: map_filter_simps split: option.splits)
      then obtain i where "i < length rs" "rs ! i = Some k" by (auto simp: in_set_conv_nth)
      then have "dav_entry E base (es ! i) (Some k)" using er(2) by (metis list_all2_conv_all_nth)
      then show ?thesis by (auto simp: dav_entry_def split: json.splits)
    qed
    ultimately show ?thesis using er(3-5) by blast
  qed
  show "k \<in> dom (objects x) \<and> dav_key k" if l: "fst (davList E d secret T base p x) = Inr os" and k: "k \<in> set (map ob_key os)"
  proof -
    obtain r where r: "fst (W w x) = Inr r" using l by (auto simp: run split: sum.splits)
    from known [OF l r] consider "os = []" | rs where "\<forall>k \<in> set (somes rs). objects x k \<noteq> None \<and> dav_key k"
        "set (map ob_key os) = set (filter (\<lambda>k. js_starts_with k (strip_leading p)) (somes rs))"
      by blast
    then show ?thesis
    proof cases
      case 2
      then have "k \<in> set (somes rs)" using k by auto
      with 2(1) show ?thesis by blast
    qed (use k in simp)
  qed
  show "distinct (map ob_key os)" if l: "fst (davList E d secret T base p x) = Inr os"
  proof -
    obtain r where r: "fst (W w x) = Inr r" using l by (auto simp: run split: sum.splits)
    show ?thesis using known [OF l r] by auto
  qed
  show "q @ CHR ''/'' # nm \<in> set (map ob_key os)"
    if l: "fst (davList E d secret T base p x) = Inr os" and q: "p = q @ ''/''" "dav_key q" "objects x (q @ CHR ''/'' # nm) \<noteq> None"
      "CHR ''/'' \<notin> set nm" "nm \<noteq> []"
  proof -
    obtain r where r: "fst (W w x) = Inr r" using l by (auto simp: run split: sum.splits)
    have "path = base @ CHR ''/'' # q @ ''/''"
      using strip_key(2) [OF q(2), of base] strip_trailing_slash [of "base @ CHR ''/'' # q"]
      by (simp add: path_def pathFor_def q(1) dav_key_prefix [OF q(2)])
    then have at: "decodePath (linePath w) = Some (base @ CHR ''/'' # q @ ''/'')" using base_path by (simp add: w(2))
    have "rs_status r \<noteq> 404" using propfind_missing [OF w(1) at r, of nm] q(3) by auto
    then obtain rs where rs: "q @ CHR ''/'' # nm \<in> set (somes rs)"
        "set (map ob_key os) = set (filter (\<lambda>k. js_starts_with k (strip_leading p)) (somes rs))"
      using known [OF l r] at q by blast
    moreover have "js_starts_with (q @ CHR ''/'' # nm) (strip_leading p)"
      by (simp add: q(1) dav_key_prefix [OF q(2)] js_starts_with_iff)
    ultimately show ?thesis by auto
  qed
qed

end

lemma davDriver_sel [simp]:
  "dr_put (davDriver E d secret T b) = davPut d secret T b" "dr_get (davDriver E d secret T b) = davGet d secret T b"
  "dr_list (davDriver E d secret T b) p n = davList E d secret T b p" "dr_delete (davDriver E d secret T b) = davDelete d secret T b"
  by (simp_all add: davDriver_def)

sublocale dav_server \<subseteq> store: object_store V objects dav_key
proof (unfold_locales, unfold davDriver_sel)
  fix x k b ct p os
  show "finite (dom (objects x))" by (rule finite_store)
  show "dav_key k \<Longrightarrow> fst (davPut d secret T base k b ct x) = Inr () \<Longrightarrow>
    objects (snd (davPut d secret T base k b ct x)) = (objects x)(k \<mapsto> b)" by (rule put_state(1))
  show "dav_key k \<Longrightarrow> k' \<noteq> k \<Longrightarrow> objects (snd (davPut d secret T base k b ct x)) k' = objects x k'" for k'
    using put_state(2) [of k b ct x] by auto
  show "dav_key k \<Longrightarrow> fst (davGet d secret T base k x) = Inr b \<Longrightarrow> objects x k = Some b" by (rule get_state(2))
  show "objects (snd (davGet d secret T base k x)) = objects x" by (rule get_state(1))
  show "objects (snd (davList E d secret T base p x)) = objects x" by (rule list_state(1))
  show "fst (davList E d secret T base p x) = Inr os \<Longrightarrow> distinct (map ob_key os)" by (rule list_state(3))
  show "fst (davList E d secret T base p x) = Inr os \<Longrightarrow> k \<in> set (map ob_key os) \<Longrightarrow> k \<in> dom (objects x) \<and> dav_key k"
    by (rule list_state(2))
  show "dav_key k \<Longrightarrow> objects x k \<noteq> None \<Longrightarrow> fst (davDelete d secret T base k x) = Inr () \<Longrightarrow>
    objects (snd (davDelete d secret T base k x)) = (objects x)(k := None)" by (rule delete_state(1))
  show "dav_key k \<Longrightarrow> objects x k \<noteq> None \<Longrightarrow> k' \<noteq> k \<Longrightarrow> objects (snd (davDelete d secret T base k x)) k' = objects x k'" for k'
    using delete_state(2) [of k x] by auto
  show "dav_key k \<Longrightarrow> objects x k \<noteq> None \<Longrightarrow> objects (snd (davDelete d secret T base k x)) k \<noteq> None \<Longrightarrow>
    objects (snd (davDelete d secret T base k x)) k = objects x k"
    using delete_state(2) [of k x] by auto
next
  fix q x os nm
  show "fst (davList E d secret T base (q @ ''/'') x) = Inr os \<Longrightarrow> dav_key q \<Longrightarrow> objects x (q @ CHR ''/'' # nm) \<noteq> None \<Longrightarrow>
    CHR ''/'' \<notin> set nm \<Longrightarrow> nm \<noteq> [] \<Longrightarrow> q @ CHR ''/'' # nm \<in> set (map ob_key os)"
    by (rule list_state(4)) auto
qed

context dav_server
begin

lemmas is_object_store = store.object_store_axioms

end

section \<open>Where the driver goes wrong\<close>

text \<open>No key of a listing begins with a slash, whatever the server answers.\<close>

definition relative_key :: "string \<Rightarrow> bool" where "relative_key k \<longleftrightarrow> k = [] \<or> hd k \<noteq> CHR ''/''"

lemma strip_leading_relative [simp]: "relative_key (strip_leading s)"
  by (induction s) (auto simp: strip_leading_def relative_key_def)

lemma readEntry_head: "readEntry E base pfx e = Inr (Some ob) \<Longrightarrow> relative_key (ob_key ob)"
  by (auto simp: readEntry_def bindE_Inr_iff Let_def split: if_splits option.splits)

lemma readEntries_head: "readEntries E base pfx es = Inr obs \<Longrightarrow> ob \<in> set obs \<Longrightarrow> relative_key (ob_key ob)"
proof (induction es arbitrary: obs)
  case (Cons e es)
  then obtain r obs' where r: "readEntry E base pfx e = Inr r" "readEntries E base pfx es = Inr obs'"
      "obs = (case r of Some ob \<Rightarrow> ob # obs' | None \<Rightarrow> obs')"
    by (auto simp: bindE_Inr_iff)
  then show ?case using Cons.IH [OF r(2)] Cons.prems(2) readEntry_head [of E base pfx e] by (cases r) auto
qed simp

lemma parseListing_head:
  assumes "parseListing E base xml pfx = Inr os" "ob \<in> set os"
  shows "relative_key (ob_key ob)"
proof -
  obtain ms obs where "os = sort_key ob_key obs" "(case json_member ms ''response'' of JArr es \<Rightarrow> readEntries E base pfx es | JUndef \<Rightarrow> Inr []
      | JNull \<Rightarrow> Inr [] | JStr s \<Rightarrow> Inr [] | _ \<Rightarrow> Inl typeError) = Inr obs"
    using assms(1) by (auto simp: parseListing_def bindE_Inr_iff)
  then show ?thesis using assms(2) readEntries_head [of E base pfx _ obs ob] by (auto split: json.splits)
qed

lemma davList_head:
  assumes "fst (davList E d secret T base p x) = Inr os" "ob \<in> set os"
  shows "relative_key (ob_key ob)"
proof -
  have "\<exists>res :: http_response. os = [] \<or> parseListing E base (utf8_decode (rs_body res)) (strip_leading p) = Inr os"
    using assms(1) by (auto simp: davList_def bindM_run split: sum.splits if_splits)
  then show ?thesis using assms(2) parseListing_head by auto
qed

text \<open>
  The pathname of an endpoint arrives percent-encoded and is encoded again on the way out: the server is asked for a
  folder whose name is the escaped text itself.
\<close>

lemma endpoint_path_sent_literally:
  assumes "js_starts_with (rootPath u) ''/''"
  shows "decodePath (linePath (davWire d secret v meth (pathFor (rootPath u) key) body extra)) = Some (rootPath u @ CHR ''/'' # strip_leading key)"
proof -
  obtain r where "rootPath u = CHR ''/'' # r" using assms by (auto simp: js_starts_with_iff)
  then show ?thesis by (simp add: pathFor_def)
qed

lemma slashed_keys_foreign:
  assumes "js_starts_with (ds_basePath dst) ''/''" "fst (davList E d secret T base p x) = Inr os"
  shows "ownKeys dst j os = []"
proof -
  obtain r where b: "ds_basePath dst = CHR ''/'' # r" using assms(1) by (auto simp: js_starts_with_iff)
  have "\<not> keyBelongsToJob dst j (ob_key ob)" if "ob \<in> set os" for ob
    using davList_head [OF assms(2) that] by (auto simp: keyBelongsToJob_def jobPrefix_def basePathOf_def b js_starts_with_iff relative_key_def)
  then show ?thesis by (auto simp: ownKeys_def filter_empty_conv simp flip: set_empty)
qed

section \<open>A reference server\<close>

text \<open>Files as an association list below \<open>/dav\<close>; the multistatus document is written in JSON for the reference parser.\<close>

definition file_view :: "objects \<Rightarrow> string \<Rightarrow> string option" where
  "file_view m k = (if dav_key k then map_of m k else None)"

definition dav_children :: "objects \<Rightarrow> string \<Rightarrow> string list" where
  "dav_children m q = sort (remdups (filter (\<lambda>k. dav_key k \<and> js_starts_with k (q @ ''/'') \<and>
     drop (Suc (length q)) k \<noteq> [] \<and> CHR ''/'' \<notin> set (drop (Suc (length q)) k)) (map fst m)))"

definition href_entry :: "string \<Rightarrow> json" where
  "href_entry path = JObj [(''href'', JStr (encodeURIComponent path)), (''propstat'', JArr [JObj [(''prop'', JObj [(''resourcetype'', JStr [])])]])]"

definition multistatus :: "string \<Rightarrow> string list \<Rightarrow> json" where
  "multistatus q ks = JObj [(''multistatus'', JObj [(''response'',
     JArr (href_entry (''/dav/'' @ q @ ''/'') # map (\<lambda>k. href_entry (''/dav/'' @ k)) ks))])]"

definition below_dav :: "wire_request \<Rightarrow> string option" where
  "below_dav w = (case decodePath (linePath w) of Some p \<Rightarrow> if js_starts_with p ''/dav/'' then Some (drop 5 p) else None | None \<Rightarrow> None)"

definition ref_dav :: "objects wire" where
  "ref_dav w m = (case below_dav w of None \<Rightarrow> (answer 400 [], m)
     | Some k \<Rightarrow>
         if wi_method w = ''PROPFIND''
         then (if ends_with_slash k then answer 207 (utf8_encode (stringify (multistatus (butlast k) (dav_children m (butlast k))))) else answer 400 [], m)
         else if wi_method w = ''MKCOL'' then (answer 201 [], m)
         else if \<not> dav_key k then (answer 400 [], m)
         else if wi_method w = ''PUT'' then (answer 201 [], (k, wi_body w) # m)
         else if wi_method w = ''DELETE'' then (if k \<in> fst ` set m then answer 204 [] else answer 404 [], filter (\<lambda>(j, b). j \<noteq> k) m)
         else (case map_of m k of Some b \<Rightarrow> answer 200 b | None \<Rightarrow> answer 404 [], m))"

definition ref_dav_env :: dav_env where
  "ref_dav_env = \<lparr>dav_parse = json_reader, dav_parseUrl = (\<lambda>_. Some \<lparr>u_protocol = ''https:'', u_hostname = ''nas.example'', u_port = [],
     u_pathname = ''/dav/''\<rparr>), dav_hrefPath = Some, dav_isoDate = (\<lambda>_. Inr [])\<rparr>"

lemma below_dav_base: "decodePath (linePath w) = Some (''/dav'' @ CHR ''/'' # k) \<Longrightarrow> below_dav w = Some k"
  by (simp add: below_dav_def js_starts_with_def)

lemma multistatus_plain: "plain_json (multistatus q ks)"
  by (auto simp: multistatus_def href_entry_def)

lemma href_entry_path: "entryPath ref_dav_env (json_member (href_entry p) ''href'') = Some p"
  by (simp add: href_entry_def json_member_def entryPath_def ref_dav_env_def)

lemma href_entry_kinds:
  "dav_entry ref_dav_env ''/dav'' (href_entry (''/dav/'' @ q @ ''/'')) None"
  "dav_key k \<Longrightarrow> dav_entry ref_dav_env ''/dav'' (href_entry (''/dav/'' @ k)) (Some k)"
proof -
  have ne: "encodeURIComponent (c # s) \<noteq> []" for c s
    by (auto simp: encodeURIComponent_def pct_def Let_def)
  show "dav_entry ref_dav_env ''/dav'' (href_entry (''/dav/'' @ q @ ''/'')) None"
    using href_entry_path [of "''/dav/'' @ q @ ''/''"] ne by (simp add: dav_entry_def href_entry_def json_member_def ends_with_slash_def)
  show "dav_key k \<Longrightarrow> dav_entry ref_dav_env ''/dav'' (href_entry (''/dav/'' @ k)) (Some k)"
    using href_entry_path [of "''/dav/'' @ k"] ne by (simp add: dav_entry_def href_entry_def json_member_def plain_propstat_def)
qed

lemma dav_children_set: "set (dav_children m q) = {k. file_view m k \<noteq> None \<and> (\<exists>nm. k = q @ CHR ''/'' # nm \<and> nm \<noteq> [] \<and> CHR ''/'' \<notin> set nm)}"
proof -
  have "k \<in> fst ` set m \<longleftrightarrow> map_of m k \<noteq> None" for k by (simp add: map_of_eq_None_iff)
  then show ?thesis by (auto simp: dav_children_def file_view_def js_starts_with_iff)
qed

interpretation ref_dav: dav_server ref_dav_env d secret v "''/dav''" ref_dav file_view for d secret v
proof
  show "''/dav'' = [] \<or> hd ''/dav'' = CHR ''/''" by simp
  fix x :: objects
  have "dom (file_view x) \<subseteq> dom (map_of x)" by (auto simp: file_view_def split: if_splits)
  then show "finite (dom (file_view x))" using finite_dom_map_of finite_subset by blast
next
  fix w :: wire_request and k and x :: objects and r
  assume m: "wi_method w = ''PUT''" and p: "decodePath (linePath w) = Some (''/dav'' @ CHR ''/'' # k)" and k: "dav_key k"
  show "file_view (snd (ref_dav w x)) = file_view x \<or> file_view (snd (ref_dav w x)) = (file_view x)(k \<mapsto> wi_body w)"
    "file_view (snd (ref_dav w x)) = (file_view x)(k \<mapsto> wi_body w)"
    using k by (auto simp: ref_dav_def below_dav_base [OF p] m file_view_def)
next
  fix w :: wire_request and x :: objects
  assume "wi_method w \<in> {''GET'', ''PROPFIND'', ''MKCOL''}"
  then show "file_view (snd (ref_dav w x)) = file_view x" by (auto simp: ref_dav_def split: option.split)
next
  fix w :: wire_request and k and x :: objects and r
  assume m: "wi_method w = ''GET''" and p: "decodePath (linePath w) = Some (''/dav'' @ CHR ''/'' # k)" and k: "dav_key k"
    and r: "fst (ref_dav w x) = Inr r" "http_ok r"
  show "file_view x k = Some (rs_body r)"
    using r k by (auto simp: ref_dav_def below_dav_base [OF p] m file_view_def answer_def http_ok_def split: option.splits)
next
  fix w :: wire_request and k and x :: objects and r
  assume m: "wi_method w = ''DELETE''" and p: "decodePath (linePath w) = Some (''/dav'' @ CHR ''/'' # k)" and k: "file_view x k \<noteq> None"
  then have "dav_key k" by (auto simp: file_view_def split: if_splits)
  then show "file_view (snd (ref_dav w x)) = file_view x \<or> file_view (snd (ref_dav w x)) = (file_view x)(k := None)"
    "file_view (snd (ref_dav w x)) = (file_view x)(k := None)"
    by (auto simp: ref_dav_def below_dav_base [OF p] m file_view_def map_of_delete_one)
next
  fix w :: wire_request and q nm and x :: objects and r
  assume m: "wi_method w = ''PROPFIND''" and p: "decodePath (linePath w) = Some (''/dav'' @ CHR ''/'' # q @ ''/'')"
    and r: "fst (ref_dav w x) = Inr r" "rs_status r = 404"
  then show "file_view x (q @ CHR ''/'' # nm) = None"
    by (auto simp: ref_dav_def below_dav_base [OF p] ends_with_slash_def answer_def)
next
  fix w :: wire_request and x :: objects and r j
  assume m: "wi_method w = ''PROPFIND''" and r: "fst (ref_dav w x) = Inr r" "rs_status r = 207 \<or> http_ok r"
    "dav_parse ref_dav_env (utf8_decode (rs_body r)) = Inr j"
  obtain k where k: "below_dav w = Some k" "ends_with_slash k"
    and rb: "rs_body r = utf8_encode (stringify (multistatus (butlast k) (dav_children x (butlast k))))"
    using m r(1,2) by (auto simp: ref_dav_def answer_def http_ok_def split: option.splits if_splits)
  define q where "q = butlast k"
  define ks where "ks = dav_children x q"
  have j: "j = multistatus q ks" using r(3)
    by (simp add: rb ref_dav_env_def json_reader_def json_parse_stringify multistatus_plain q_def ks_def)
  let ?es = "href_entry (''/dav/'' @ q @ ''/'') # map (\<lambda>k. href_entry (''/dav/'' @ k)) ks"
  let ?rs = "None # map Some ks"
  have somes: "somes ?rs = ks" by (induction ks) (simp_all add: map_filter_simps)
  have key: "dav_key k" if "k \<in> set ks" for k
    using that dav_children_set [of x q] by (auto simp: ks_def file_view_def split: if_splits)
  have here: "q' = q" if "decodePath (linePath w) = Some (''/dav'' @ CHR ''/'' # q' @ ''/'')" for q'
    using below_dav_base [OF that] k(1) by (simp add: q_def)
  have "dav_response j ?es" by (simp add: j dav_response_def multistatus_def json_member_def)
  moreover have "list_all2 (dav_entry ref_dav_env ''/dav'') ?es ?rs"
    using href_entry_kinds(1) [of q] href_entry_kinds(2) key by (auto simp: list_all2_conv_all_nth nth_Cons split: nat.split)
  moreover have "distinct ks" by (simp add: ks_def dav_children_def)
  moreover have "\<forall>k \<in> set ks. file_view x k \<noteq> None" unfolding ks_def dav_children_set by blast
  moreover have "\<forall>q' nm. dav_key q' \<longrightarrow> decodePath (linePath w) = Some (''/dav'' @ CHR ''/'' # q' @ ''/'') \<longrightarrow>
      file_view x (q' @ CHR ''/'' # nm) \<noteq> None \<longrightarrow> nm \<noteq> [] \<longrightarrow> CHR ''/'' \<notin> set nm \<longrightarrow> q' @ CHR ''/'' # nm \<in> set ks"
    unfolding ks_def dav_children_set using here by blast
  ultimately show "\<exists>es rs. dav_response j es \<and> list_all2 (dav_entry ref_dav_env ''/dav'') es rs \<and> distinct (somes rs) \<and>
      (\<forall>k \<in> set (somes rs). file_view x k \<noteq> None) \<and>
      (\<forall>q nm. dav_key q \<longrightarrow> decodePath (linePath w) = Some (''/dav'' @ CHR ''/'' # q @ ''/'') \<longrightarrow> file_view x (q @ CHR ''/'' # nm) \<noteq> None \<longrightarrow>
        nm \<noteq> [] \<longrightarrow> CHR ''/'' \<notin> set nm \<longrightarrow> q @ CHR ''/'' # nm \<in> set (somes rs))"
    by (intro exI [of _ ?es] exI [of _ ?rs]) (simp only: somes simp_thms)
qed

section \<open>Properties\<close>

text \<open>C35: over any server that treats request lines the way WebDAV is documented to, the WebDAV driver
  is an object store for the keys that do not begin or end with a slash: the same contract the S3 driver meets, met over a
  tree of collections and a multistatus document.\<close>

theorem webdav_driver_refines:
  assumes "dav_server E base W objects"
  shows "object_store (davDriver E d secret (createPinnedTransport v W) base) objects dav_key"
  by (rule dav_server.is_object_store [OF assms])

theorem webdav_driver_refines_witness:
  "object_store (davDriver ref_dav_env nas ''s'' (createPinnedTransport cloud_target ref_dav) ''/dav'') file_view dav_key"
  by (rule webdav_driver_refines [OF ref_dav.dav_server_axioms])



end
