(* ===== verification/Destination_Driver.thy ===== *)
theory Destination_Driver
  imports Webdav_Driver
begin

text \<open>
  The factory of \<open>bff-server/backup-destination-driver.ts\<close>: from a stored destination and its opened credential to a
  driver, by way of the resolving guard. What the guard, the drivers and the wire take from outside is the record
  \<open>outside\<close>. A destination of neither kind falls through the switch and the first use of the missing driver throws.
\<close>

record 'x outside =
  os_parseUrl :: "string \<Rightarrow> url option"
  os_lookup :: "'x lookup"
  os_wire :: "'x wire"
  os_s3 :: "'x s3_env"
  os_dav :: dav_env

definition createBackupDriver :: "env \<Rightarrow> 'x outside \<Rightarrow> destination \<Rightarrow> string \<Rightarrow> ('x, 'x driver) io" where
  "createBackupDriver E B destination secret =
     bindM (assertDestinationUrlAllowed E (os_parseUrl B) (os_lookup B) (ds_endpoint destination)) (\<lambda>v.
     let T = createPinnedTransport v (os_wire B) in
     if ds_type destination = ''s3'' then returnM (createS3Driver (os_s3 B) destination secret v T)
     else if ds_type destination = ''webdav'' then liftE (createWebdavDriver (os_dav B) destination secret T)
     else throwM typeError)"

section \<open>No request leaves for an address that was not checked\<close>

text \<open>A request whose resolver can only answer with addresses the policy admits for its host.\<close>

definition vetted_request :: "env \<Rightarrow> wire_request \<Rightarrow> bool" where
  "vetted_request E w \<longleftrightarrow> (\<forall>everything hostname. \<forall>(a, f) \<in> set (wi_lookup w everything hostname).
     wi_host w \<in> set (allowedDestinationHosts E) \<or> \<not> isBlockedAddress a)"

lemma pinned_request_vetted:
  assumes "assertDestinationUrlAllowed E parseUrl lookup value x = (Inr v, x')"
  shows "vetted_request E (wireRequest v req)"
  using destination_guard.pinned_admitted [OF assms] by (auto simp: vetted_request_def destination_admits_def)

lemma transport_agrees:
  assumes "assertDestinationUrlAllowed E parseUrl lookup value x = (Inr v, x')" "\<And>w. vetted_request E w \<Longrightarrow> W w = W' w"
  shows "createPinnedTransport v W = createPinnedTransport v W'"
  using assms(2) [OF pinned_request_vetted [OF assms(1)]] by (simp add: createPinnedTransport_def fun_eq_iff)

section \<open>What a call leaves alone\<close>

text \<open>\<open>keeps v m\<close>: an operation leaves the part of the state that \<open>v\<close> reads as it was, whatever its outcome.\<close>

named_theorems keeps_intros \<open>rules for what an operation leaves alone\<close>

definition keeps :: "('s \<Rightarrow> 'v) \<Rightarrow> ('s, 'a) io \<Rightarrow> bool" where
  "keeps v m \<longleftrightarrow> (\<forall>s. v (snd (m s)) = v s)"

lemma keepsD: "keeps v m \<Longrightarrow> m s = (r, s') \<Longrightarrow> v s' = v s"
  by (metis keeps_def snd_conv)

lemma keeps_basic [keeps_intros]: "keeps v (returnM x)" "keeps v (throwM e)" "keeps v (liftE r)" "keeps v (getM f)"
  by (simp_all add: keeps_def)

lemma keeps_bindM [keeps_intros]: "keeps v m \<Longrightarrow> (\<And>x. keeps v (f x)) \<Longrightarrow> keeps v (bindM m f)"
  by (simp add: keeps_def bindM_def split: sum.split)

lemma keeps_catchM [keeps_intros]: "keeps v m \<Longrightarrow> (\<And>e. keeps v (h e)) \<Longrightarrow> keeps v (catchM m h)"
  by (simp add: keeps_def catchM_def split: sum.split)

lemma keeps_attemptM [keeps_intros]: "keeps v m \<Longrightarrow> keeps v (attemptM m)"
  by (simp add: keeps_def attemptM_def)

lemma keeps_if [keeps_intros]: "(b \<Longrightarrow> keeps v m) \<Longrightarrow> (\<not> b \<Longrightarrow> keeps v k) \<Longrightarrow> keeps v (if b then m else k)"
  by simp

lemma keeps_prod [keeps_intros]: "(\<And>a b. keeps v (f a b)) \<Longrightarrow> keeps v (case p of (a, b) \<Rightarrow> f a b)"
  by (cases p) simp

lemma keeps_option [keeps_intros]: "keeps v m \<Longrightarrow> (\<And>x. keeps v (f x)) \<Longrightarrow> keeps v (case p of None \<Rightarrow> m | Some x \<Rightarrow> f x)"
  by (cases p) simp_all

lemma keeps_sum [keeps_intros]: "(\<And>e. keeps v (g e)) \<Longrightarrow> (\<And>x. keeps v (f x)) \<Longrightarrow> keeps v (case p of Inl e \<Rightarrow> g e | Inr x \<Rightarrow> f x)"
  by (cases p) simp_all

lemma keeps_Let [keeps_intros]: "keeps v (f x) \<Longrightarrow> keeps v (Let x f)"
  by simp

lemma keeps_transport: "(\<And>w. keeps v (W w)) \<Longrightarrow> keeps v (createPinnedTransport t W req)"
  by (simp add: createPinnedTransport_def)

lemma keeps_s3Send: "(\<And>req. keeps v (T req)) \<Longrightarrow> keeps v (s3Send E d secret t T meth path query body ct)"
  unfolding s3Send_def by (intro keeps_intros)

lemma keeps_s3Require: "keeps v (s3Require E op res)"
  by (simp add: keeps_def s3Require_run)

lemma keeps_pagesFrom: "(\<And>token. keeps v (page token)) \<Longrightarrow> keeps v (pagesFrom n page token)"
  by (induction n arbitrary: token) (auto intro!: keeps_intros split: option.split)

lemma keeps_s3Page: "(\<And>req. keeps v (T req)) \<Longrightarrow> keeps v (s3Page E d secret t T n prefix token)"
  unfolding s3Page_def by (intro keeps_intros keeps_s3Send keeps_s3Require) auto

lemma keeps_davSend: "(\<And>req. keeps v (T req)) \<Longrightarrow> keeps v (davSend d secret T meth path body extra)"
  by (simp add: davSend_def)

lemma keeps_makeCollections: "(\<And>req. keeps v (T req)) \<Longrightarrow> keeps v (makeCollections d secret T walked segments)"
  by (induction segments arbitrary: walked) (auto simp: Let_def intro!: keeps_intros keeps_davSend)

text \<open>A driver touches nothing but what the wire touches.\<close>

definition driver_keeps :: "('x \<Rightarrow> 'v) \<Rightarrow> 'x driver \<Rightarrow> bool" where
  "driver_keeps v V \<longleftrightarrow> (\<forall>k b ct p n. keeps v (dr_put V k b ct) \<and> keeps v (dr_get V k) \<and> keeps v (dr_list V p n) \<and> keeps v (dr_delete V k))"

lemma s3_driver_keeps: "(\<And>req. keeps v (T req)) \<Longrightarrow> driver_keeps v (createS3Driver E d secret t T)"
  by (auto simp: driver_keeps_def createS3Driver_def intro!: keeps_intros keeps_s3Send keeps_s3Require keeps_pagesFrom keeps_s3Page)

lemma dav_driver_keeps: "(\<And>req. keeps v (T req)) \<Longrightarrow> driver_keeps v (davDriver E d secret T base)"
  by (auto simp: driver_keeps_def davDriver_def davPut_def davGet_def davList_def davDelete_def ensureCollections_def Let_def
      intro!: keeps_intros keeps_davSend keeps_makeCollections)

lemma guard_keeps:
  assumes "\<And>h. keeps v (lookup h)"
  shows "keeps v (assertDestinationUrlAllowed E parseUrl lookup value)"
  unfolding assertDestinationUrlAllowed_def resolveOrThrow_def Let_def by (intro keeps_intros assms)

lemma made_driver_keeps:
  assumes "createBackupDriver E B d secret x = (r, x')" "\<And>h. keeps v (os_lookup B h)" "\<And>w. keeps v (os_wire B w)"
  shows "v x' = v x \<and> (\<forall>V. r = Inr V \<longrightarrow> driver_keeps v V)"
proof -
  have "keeps v (createBackupDriver E B d secret)"
    unfolding createBackupDriver_def Let_def by (intro keeps_intros guard_keeps assms(2))
  then have "v x' = v x" using keepsD assms(1) by metis
  moreover have "driver_keeps v V" if "r = Inr V" for V
    using assms(1) that
    by (auto simp: createBackupDriver_def createWebdavDriver_def bindM_Inr_iff Let_def split: if_splits option.splits
        intro!: s3_driver_keeps dav_driver_keeps keeps_transport assms(3))
  ultimately show ?thesis by blast
qed

section \<open>Properties\<close>

text \<open>C14: two outside worlds that differ only in what they would answer to requests that may
  reach an address the policy blocks are the same to every driver the factory makes: no operation of a driver, of either
  kind, can send such a request.\<close>

theorem drivers_reach_only_vetted:
  assumes "\<And>w. vetted_request E w \<Longrightarrow> os_wire B w = W' w"
  shows "createBackupDriver E B destination secret x = createBackupDriver E (B\<lparr>os_wire := W'\<rparr>) destination secret x"
proof -
  obtain r x' where r: "assertDestinationUrlAllowed E (os_parseUrl B) (os_lookup B) (ds_endpoint destination) x = (r, x')" by fastforce
  show ?thesis
  proof (cases r)
    case (Inl e)
    with r show ?thesis by (simp add: createBackupDriver_def)
  next
    case (Inr v)
    have "createPinnedTransport v (os_wire B) = createPinnedTransport v W'"
      by (rule transport_agrees [OF r [unfolded Inr]]) (rule assms)
    with r Inr show ?thesis by (simp add: createBackupDriver_def Let_def)
  qed
qed

definition nas_outside :: "nat outside" where
  "nas_outside = \<lparr>os_parseUrl = (\<lambda>_. Some nas_url), os_lookup = nas_lookup, os_wire = (\<lambda>w n. (answer 200 [], Suc n)),
     os_s3 = \<lparr>s3_crypto = plain_hash, s3_hmac = (\<lambda>k t. k @ t), s3_parse = json_reader, s3_clock = (\<lambda>_. 0), s3_pages = 1\<rparr>,
     os_dav = ref_dav_env\<rparr>"

theorem drivers_reach_only_vetted_witness:
  "createBackupDriver guard_env nas_outside nas ''s'' 0 = createBackupDriver guard_env
     (nas_outside\<lparr>os_wire := (\<lambda>w. if vetted_request guard_env w then os_wire nas_outside w else throwM (JsError ''blocked''))\<rparr>) nas ''s'' 0"
  by (rule drivers_reach_only_vetted) simp

end
