(* ===== verification/Agent_Config_Store.thy ===== *)
theory Agent_Config_Store
  imports Mongo Secret_Crypto Js_Date
begin

text \<open>
  \<open>bff-server/agent-config-store.ts\<close> and \<open>types/agent-config.ts\<close>: one document per user with the settings of the
  assistant, its sealed keys and the sealed standing permission of the backups. Documents of \<open>user_agent_config\<close>
  may lack any field but the id; \<open>None\<close> stands for an absent field and for \<open>null\<close>.
\<close>

record user_config =
  uc_id :: string
  uc_enabled :: "bool option"
  uc_provider :: "string option"
  uc_ollamaBaseUrl :: "string option"
  uc_anthropicKeyEnc :: "string option"
  uc_tmdbKeyEnc :: "string option"
  uc_costLimitUsd :: "rat option"
  uc_updatedAt :: "string option"
  uc_offlineRefreshEnc :: "string option"
  uc_offlineGrantedAt :: "string option"

definition emptyConfig :: "string \<Rightarrow> user_config" where
  "emptyConfig uid = \<lparr>uc_id = uid, uc_enabled = None, uc_provider = None, uc_ollamaBaseUrl = None, uc_anthropicKeyEnc = None,
     uc_tmdbKeyEnc = None, uc_costLimitUsd = None, uc_updatedAt = None, uc_offlineRefreshEnc = None, uc_offlineGrantedAt = None\<rparr>"

definition orNew :: "string \<Rightarrow> user_config option \<Rightarrow> user_config" where
  "orNew uid d = (case d of Some c \<Rightarrow> c | None \<Rightarrow> emptyConfig uid)"

definition getByUserId :: "('m, user_config) coll \<Rightarrow> string \<Rightarrow> ('m, user_config option) io" where
  "getByUserId C uid = cl_findOne C uid (\<lambda>_. True)"

text \<open>The patch of an upsert is the assignment it makes on the document.\<close>

definition upsertConfig ::
    "('m, user_config) coll \<Rightarrow> int \<Rightarrow> string \<Rightarrow> (user_config \<Rightarrow> user_config) \<Rightarrow> ('m, user_config) io" where
  "upsertConfig C now uid patch = bindM (cl_upsert C uid (\<lambda>d. (patch (orNew uid d))\<lparr>uc_updatedAt := Some (to_iso now)\<rparr>)) (\<lambda>doc.
     case doc of None \<Rightarrow> throwM (JsError ''agent-config upsert did not persist'') | Some d \<Rightarrow> returnM d)"

definition clearConfig :: "('m, user_config) coll \<Rightarrow> int \<Rightarrow> string \<Rightarrow> ('m, unit) io" where
  "clearConfig C now uid = thenM
     (cl_update C uid (\<lambda>_. True) (\<lambda>d. d\<lparr>uc_enabled := Some False, uc_updatedAt := Some (to_iso now),
        uc_anthropicKeyEnc := None, uc_tmdbKeyEnc := None\<rparr>))
     (returnM ())"

definition removeConfig :: "('m, user_config) coll \<Rightarrow> string \<Rightarrow> ('m, unit) io" where
  "removeConfig C uid = thenM (cl_delete C uid (\<lambda>_. True)) (returnM ())"

end
