(* ===== verification/Offline_Token.thy ===== *)
theory Offline_Token
  imports Agent_Config_Store Destination_Store Run_Store Token_Service Demo_Idp
begin

text \<open>
  \<open>bff-server/backup-offline-token.ts\<close>: the standing permission to back up while the user is away: consent,
  custody, use, revocation, and the erasure of everything the backups hold for a user. \<open>fetch\<close> is the parameter
  \<open>send\<close> over the external state; the random bytes and the clock are arguments. The warning about a shared
  client is a diagnostic line and is dropped.
\<close>

definition unusableGrant :: exn where
  "unusableGrant = OfflineTokenUnusableError (''The permission to back up while you are away is no longer valid. ''
     @ ''Re-enable the schedule to grant it again.'')"

definition realm_url :: "string \<Rightarrow> env \<Rightarrow> string \<Rightarrow> string" where
  "realm_url base E endpoint = base @ ''/realms/'' @ keycloakRealm E @ ''/protocol/openid-connect/'' @ endpoint"

definition tokenEndpoint :: "env \<Rightarrow> string" where "tokenEndpoint E = realm_url (keycloakUrl E) E ''token''"
definition revokeEndpoint :: "env \<Rightarrow> string" where "revokeEndpoint E = realm_url (keycloakUrl E) E ''revoke''"
definition browserAuthorizeEndpoint :: "env \<Rightarrow> string" where
  "browserAuthorizeEndpoint E = realm_url (keycloakPublicUrl E) E ''auth''"

definition credentials :: "string \<Rightarrow> string \<Rightarrow> (string \<times> string) list" where
  "credentials clientId clientSecret =
     (if clientSecret \<noteq> [] then [(''client_id'', clientId), (''client_secret'', clientSecret)] else [(''client_id'', clientId)])"

definition consentClientCredentials :: "env \<Rightarrow> (string \<times> string) list" where
  "consentClientCredentials E = credentials (backupConsentClientId E) (backupConsentClientSecret E)"

text \<open>The client a stored grant was issued to, read from the \<open>azp\<close> claim of the token.\<close>

definition credentialsFor :: "env \<Rightarrow> string \<Rightarrow> exn + (string \<times> string) list" where
  "credentialsFor E refreshToken = (case js_split (CHR ''.'') refreshToken of
     h # p # rest \<Rightarrow> (case json_parse (utf8_decode (base64_decode p)) of
        None \<Rightarrow> Inl unusableGrant
      | Some claims \<Rightarrow> (case member claims ''azp'' of
          Inl e \<Rightarrow> Inl unusableGrant
        | Inr azp \<Rightarrow> Inr (if azp = JStr (backupConsentClientId E) then consentClientCredentials E
                         else credentials (keycloakClientId E) (keycloakClientSecret E))))
   | _ \<Rightarrow> Inl unusableGrant)"

section \<open>Consent\<close>

record consent_request =
  cs_authorizationUrl :: string
  cs_state :: string
  cs_codeVerifier :: string

definition search_params :: "(string \<times> string) list \<Rightarrow> string" where
  "search_params ps = js_join ''&'' (map (\<lambda>(k, v). formEncode k @ ''='' @ formEncode v) ps)"

definition buildConsentRequest :: "crypto \<Rightarrow> env \<Rightarrow> string \<Rightarrow> string \<Rightarrow> string \<Rightarrow> consent_request" where
  "buildConsentRequest C E verifierBytes stateBytes redirectUri =
    (let codeVerifier = base64url_encode verifierBytes;
         codeChallenge = base64url_encode (cr_sha256 C codeVerifier);
         state = base64url_encode stateBytes;
         params = [(''client_id'', backupConsentClientId E), (''response_type'', ''code''), (''scope'', ''openid offline_access''),
           (''redirect_uri'', redirectUri), (''state'', state), (''code_challenge'', codeChallenge), (''code_challenge_method'', ''S256'')]
     in \<lparr>cs_authorizationUrl = browserAuthorizeEndpoint E @ ''?'' @ search_params params, cs_state = state,
         cs_codeVerifier = codeVerifier\<rparr>)"

text \<open>The two stores a call works on: the sealed grants and the network, over one external state.\<close>

record 'm grants =
  gr_env :: env
  gr_gcm :: gcm
  gr_iv :: string
  gr_now :: int
  gr_configs :: "('m, user_config) coll"
  gr_send :: "'m http"

definition storeOfflineToken :: "'m grants \<Rightarrow> string \<Rightarrow> string \<Rightarrow> ('r, 'm, unit) act" where
  "storeOfflineToken G uid refreshToken =
     bindM (liftE (bindE (backupEncryptionKey (gr_env G)) (\<lambda>key. encryptSecret (gr_gcm G) (gr_iv G) refreshToken key (offlineTokenAad uid))))
      (\<lambda>blob. thenM (inExt (cl_upsert (gr_configs G) uid (\<lambda>d. (orNew uid d)\<lparr>uc_offlineRefreshEnc := Some blob,
           uc_offlineGrantedAt := Some (to_iso (gr_now G)), uc_updatedAt := Some (to_iso (gr_now G))\<rparr>)))
         (auditM ''backup_schedule_consent_granted'' [(''userId'', uid)]))"

definition completeConsent :: "'m grants \<Rightarrow> string \<Rightarrow> string \<Rightarrow> string \<Rightarrow> string \<Rightarrow> ('r, 'm, unit) act" where
  "completeConsent G uid code codeVerifier redirectUri =
     bindM (inExt (gr_send G (form_post (tokenEndpoint (gr_env G))
        ((''grant_type'', ''authorization_code'') # consentClientCredentials (gr_env G)
          @ [(''code'', code), (''code_verifier'', codeVerifier), (''redirect_uri'', redirectUri)])))) (\<lambda>res.
     if \<not> http_ok res
     then throwM (OfflineTokenUnusableError ''That consent could not be completed. Re-enable the schedule to try again.'')
     else bindM (liftE (response_json res)) (\<lambda>j. bindM (liftE (member j ''refresh_token'')) (\<lambda>t.
          case t of JStr (c # cs) \<Rightarrow> storeOfflineToken G uid (c # cs) | _ \<Rightarrow> throwM unusableGrant)))"

definition readOfflineToken :: "'m grants \<Rightarrow> string \<Rightarrow> ('m, string option) io" where
  "readOfflineToken G uid = bindM (cl_findOne (gr_configs G) uid (\<lambda>_. True)) (\<lambda>doc.
     case doc of None \<Rightarrow> returnM None
     | Some d \<Rightarrow> (case text_or (uc_offlineRefreshEnc d) [] of
         [] \<Rightarrow> returnM None
       | c # cs \<Rightarrow> (case bindE (backupEncryptionKey (gr_env G)) (\<lambda>key.
              decryptSecret (gr_gcm G) (c # cs) key (offlineTokenAad uid)) of
           Inl e \<Rightarrow> returnM None | Inr t \<Rightarrow> returnM (Some t))))"

definition hasOfflineToken :: "'m grants \<Rightarrow> string \<Rightarrow> ('m, bool) io" where
  "hasOfflineToken G uid = bindM (readOfflineToken G uid) (\<lambda>t. returnM (t \<noteq> None))"

definition describeConsent :: "'m grants \<Rightarrow> string \<Rightarrow> ('m, bool \<times> string option) io" where
  "describeConsent G uid = bindM (cl_findOne (gr_configs G) uid (\<lambda>_. True)) (\<lambda>doc.
     returnM (case doc of None \<Rightarrow> (False, None)
       | Some d \<Rightarrow> (text_or (uc_offlineRefreshEnc d) [] \<noteq> [], uc_offlineGrantedAt d)))"

section \<open>Use and revocation\<close>

definition mintUserAccessToken :: "'m grants \<Rightarrow> string \<Rightarrow> ('m, string) io" where
  "mintUserAccessToken G uid = bindM (readOfflineToken G uid) (\<lambda>t.
     case text_or t [] of [] \<Rightarrow> throwM unusableGrant
     | c # cs \<Rightarrow>
       bindM (liftE (credentialsFor (gr_env G) (c # cs))) (\<lambda>cred.
       bindM (gr_send G (form_post (tokenEndpoint (gr_env G))
          ((''grant_type'', ''refresh_token'') # cred @ [(''refresh_token'', c # cs)]))) (\<lambda>res.
       if \<not> http_ok res then throwM unusableGrant
       else bindM (liftE (response_json res)) (\<lambda>j. bindM (liftE (member j ''access_token'')) (\<lambda>a.
            case a of JStr (x # xs) \<Rightarrow> returnM (x # xs) | _ \<Rightarrow> throwM unusableGrant)))))"

definition revokeOfflineTokenAtIdp :: "'m grants \<Rightarrow> string \<Rightarrow> ('m, unit) io" where
  "revokeOfflineTokenAtIdp G refreshToken =
     bindM (liftE (credentialsFor (gr_env G) refreshToken)) (\<lambda>cred.
     bindM (gr_send G (form_post (revokeEndpoint (gr_env G))
        (cred @ [(''token'', refreshToken), (''token_type_hint'', ''refresh_token'')]))) (\<lambda>res.
     if \<not> http_ok res
     then throwM (OfflineTokenRevocationError (''Keycloak refused the revocation (HTTP '' @ show_int (rs_status res)
            @ ''). The permission is still in force.''))
     else returnM ()))"

definition exn_text :: "exn \<Rightarrow> string" where
  "exn_text e = (case e of AuthError a \<Rightarrow> ae_message a | RateLimitError n \<Rightarrow> ae_message rate_limit_parent
     | InvalidScheduleError m \<Rightarrow> m | BackupJobInputError m \<Rightarrow> m | DestinationUrlNotAllowedError m \<Rightarrow> m
     | OllamaUrlNotAllowedError m \<Rightarrow> m | BackupSizeCeilingError m \<Rightarrow> m | OfflineTokenUnusableError m \<Rightarrow> m
     | OfflineTokenRevocationError m \<Rightarrow> m | BackupDestinationInputError m \<Rightarrow> m | ArtifactVerificationError m \<Rightarrow> m
     | HttpError st t \<Rightarrow> ''Request failed with status code '' @ show_int st | JsError m \<Rightarrow> m)"

definition revocationFailed :: "exn \<Rightarrow> exn" where
  "revocationFailed err = (case err of OfflineTokenRevocationError m \<Rightarrow> err
     | _ \<Rightarrow> OfflineTokenRevocationError (''The permission could not be revoked at the identity provider: '' @ exn_text err
          @ ''. It is still in force.''))"

definition forgetGrant :: "'m grants \<Rightarrow> string \<Rightarrow> ('m, unit) io" where
  "forgetGrant G uid = thenM (cl_update (gr_configs G) uid (\<lambda>_. True) (\<lambda>d. d\<lparr>uc_offlineRefreshEnc := None,
     uc_offlineGrantedAt := None, uc_updatedAt := Some (to_iso (gr_now G))\<rparr>)) (returnM ())"

definition revokeOfflineToken :: "'m grants \<Rightarrow> (string \<Rightarrow> ('m, unit) io) \<Rightarrow> string \<Rightarrow> ('r, 'm, unit) act" where
  "revokeOfflineToken G revokeAtIdp uid = bindM (inExt (readOfflineToken G uid)) (\<lambda>t.
     case text_or t [] of [] \<Rightarrow> returnM ()
     | c # cs \<Rightarrow>
       thenM (inExt (catchM (revokeAtIdp (c # cs)) (\<lambda>err. throwM (revocationFailed err))))
      (thenM (inExt (forgetGrant G uid))
             (auditM ''backup_schedule_consent_revoked'' [(''userId'', uid)])))"

definition revokeIfNoScheduleRemains ::
    "'m grants \<Rightarrow> (string \<Rightarrow> ('m, unit) io) \<Rightarrow> ('m, job) coll \<Rightarrow> string \<Rightarrow> ('r, 'm, bool) act" where
  "revokeIfNoScheduleRemains G revokeAtIdp J uid =
     bindM (inExt (cl_find J (\<lambda>d. jb_userId d = uid \<and> jb_enabled d \<and> jb_schedule d \<noteq> None))) (\<lambda>remaining.
     if remaining \<noteq> [] then returnM False else thenM (revokeOfflineToken G revokeAtIdp uid) (returnM True))"

definition tearDownUserBackups ::
    "'m grants \<Rightarrow> (string \<Rightarrow> ('m, unit) io) \<Rightarrow> ('m, destination) coll \<Rightarrow> ('m, job) coll \<Rightarrow> ('m, backup_run) coll \<Rightarrow> string \<Rightarrow>
     ('r, 'm, unit) act" where
  "tearDownUserBackups G revokeAtIdp D J Rn uid =
     thenM (revokeOfflineToken G revokeAtIdp uid)
    (thenM (inExt (cl_deleteMany D (\<lambda>d. ds_userId d = uid)))
    (thenM (inExt (cl_deleteMany J (\<lambda>d. jb_userId d = uid)))
    (thenM (inExt (cl_deleteMany Rn (\<lambda>d. br_userId d = uid)))
           (auditM ''backup_account_teardown_completed'' [(''userId'', uid)]))))"

section \<open>The four collections of the backups\<close>

text \<open>The documents of the backups as one snapshot: jobs, destinations, runs, settings.\<close>

record snapshot =
  sn_jobs :: "string \<Rightarrow> job option"
  sn_dests :: "string \<Rightarrow> destination option"
  sn_runs :: "string \<Rightarrow> backup_run option"
  sn_configs :: "string \<Rightarrow> user_config option"

definition db_snapshot ::
    "('m \<Rightarrow> string \<Rightarrow> job option) \<Rightarrow> ('m \<Rightarrow> string \<Rightarrow> destination option) \<Rightarrow> ('m \<Rightarrow> string \<Rightarrow> backup_run option) \<Rightarrow>
     ('m \<Rightarrow> string \<Rightarrow> user_config option) \<Rightarrow> 'm \<Rightarrow> snapshot" where
  "db_snapshot jview dview rview cview m = \<lparr>sn_jobs = jview m, sn_dests = dview m, sn_runs = rview m, sn_configs = cview m\<rparr>"

locale backup_db = destination_db J jview D dview + runs: collection_up Rn rview + configs: collection_up C cview
  for J :: "('m, job) coll" and jview :: "'m \<Rightarrow> string \<Rightarrow> job option"
    and D :: "('m, destination) coll" and dview :: "'m \<Rightarrow> string \<Rightarrow> destination option"
    and Rn :: "('m, backup_run) coll" and rview :: "'m \<Rightarrow> string \<Rightarrow> backup_run option"
    and C :: "('m, user_config) coll" and cview :: "'m \<Rightarrow> string \<Rightarrow> user_config option" +
  assumes jobs_apart: "leaves_alone J rview" "leaves_alone J cview"
    and dests_apart: "leaves_alone D rview" "leaves_alone D cview"
    and runs_apart: "leaves_alone Rn jview" "leaves_alone Rn dview" "leaves_alone Rn cview"
    and configs_apart: "leaves_alone C jview" "leaves_alone C dview" "leaves_alone C rview"
begin

abbreviation snap :: "'m \<Rightarrow> snapshot" where "snap \<equiv> db_snapshot jview dview rview cview"

lemmas snap_def = db_snapshot_def

lemmas apart [simp] = leaves_aloneD [OF jobs_apart(1)] leaves_aloneD [OF jobs_apart(2)] leaves_aloneD [OF dests_apart(1)]
  leaves_aloneD [OF dests_apart(2)] leaves_aloneD [OF runs_apart(1)] leaves_aloneD [OF runs_apart(2)]
  leaves_aloneD [OF runs_apart(3)] leaves_aloneD [OF configs_apart(1)] leaves_aloneD [OF configs_apart(2)]
  leaves_aloneD [OF configs_apart(3)]

lemmas db_results = jobs.results dests.results runs.results configs.results
lemmas db_views = jobs.views dests.views runs.views configs.views

lemma snap_eq_iff: "snap m = snap m' \<longleftrightarrow> jview m = jview m' \<and> dview m = dview m' \<and> rview m = rview m' \<and> cview m = cview m'"
  by (auto simp: snap_def)

lemma read_grant_snap:
  assumes "gr_configs G = C"
  shows "snap (snd (readOfflineToken G u m)) = snap m"
  using assms by (simp add: readOfflineToken_def io_simps db_results db_views snap_eq_iff split: option.split list.split sum.split)

lemma forget_grant:
  assumes "gr_configs G = C"
  shows "fst (forgetGrant G u m) = Inr ()" "jview (snd (forgetGrant G u m)) = jview m" "dview (snd (forgetGrant G u m)) = dview m"
    "rview (snd (forgetGrant G u m)) = rview m"
    "cview (snd (forgetGrant G u m)) = (cview m)(u := map_option (\<lambda>d. d\<lparr>uc_offlineRefreshEnc := None,
       uc_offlineGrantedAt := None, uc_updatedAt := Some (to_iso (gr_now G))\<rparr>) (cview m u))"
  using assms by (auto simp: forgetGrant_def io_simps db_results db_views hit_def split: option.split)

end

section \<open>Revocation\<close>

text \<open>A call that leaves every document alone, as a call of the identity provider does.\<close>

definition outside_db :: "('m \<Rightarrow> snapshot) \<Rightarrow> ('m, 'a) io \<Rightarrow> bool" where
  "outside_db snap io \<longleftrightarrow> (\<forall>m. snap (snd (io m)) = snap m)"

context backup_db
begin

lemma revoke_cases:
  assumes "gr_configs G = C" "outside_db snap (revokeAtIdp t)" "readOfflineToken G u (w_ext w) = (Inr (Some t), m1)" "t \<noteq> []"
  shows "case fst (revokeAtIdp t m1) of
     Inl e \<Rightarrow> fst (revokeOfflineToken G revokeAtIdp u w) = Inl (revocationFailed e) \<and>
        snap (w_ext (snd (revokeOfflineToken G revokeAtIdp u w))) = snap (w_ext w)
   | Inr x \<Rightarrow> fst (revokeOfflineToken G revokeAtIdp u w) = Inr () \<and>
        snap (w_ext (snd (revokeOfflineToken G revokeAtIdp u w))) = (snap (w_ext w))\<lparr>sn_configs := (cview (w_ext w))(u :=
          map_option (\<lambda>d. d\<lparr>uc_offlineRefreshEnc := None, uc_offlineGrantedAt := None,
            uc_updatedAt := Some (to_iso (gr_now G))\<rparr>) (cview (w_ext w) u))\<rparr>"
proof -
  obtain c cs where t: "t = c # cs" using assms(4) by (cases t) auto
  have q: "snap (snd (revokeAtIdp t m1)) = snap (w_ext w)"
    using assms(2) read_grant_snap [OF assms(1), of u "w_ext w"] assms(3) by (simp add: outside_db_def)
  show ?thesis
    using assms(3) q unfolding t
    by (auto simp: revokeOfflineToken_def text_or_def io_simps forget_grant [OF assms(1)] snap_def split: sum.splits)
qed

lemma no_grant_revokes_nothing:
  assumes "readOfflineToken G u (w_ext w) = (Inr t, m1)" "text_or t [] = []"
  shows "revokeOfflineToken G revokeAtIdp u w = (Inr (), w\<lparr>w_ext := m1\<rparr>)"
  using assms by (simp add: revokeOfflineToken_def io_simps)

lemma teardown_views:
  assumes "revokeOfflineToken G revokeAtIdp u w = (r, w1)"
  shows "case r of Inl e \<Rightarrow> tearDownUserBackups G revokeAtIdp D J Rn u w = (Inl e, w1)
   | Inr x \<Rightarrow> fst (tearDownUserBackups G revokeAtIdp D J Rn u w) = Inr () \<and>
       snap (w_ext (snd (tearDownUserBackups G revokeAtIdp D J Rn u w))) =
        \<lparr>sn_jobs = (\<lambda>i. hit (jview (w_ext w1)) i (\<lambda>d. jb_userId d \<noteq> u)), sn_dests = (\<lambda>i. hit (dview (w_ext w1)) i (\<lambda>d. ds_userId d \<noteq> u)),
         sn_runs = (\<lambda>i. hit (rview (w_ext w1)) i (\<lambda>d. br_userId d \<noteq> u)), sn_configs = cview (w_ext w1)\<rparr>"
  using assms by (auto simp: tearDownUserBackups_def io_simps db_results db_views snap_def split: sum.splits)

end

section \<open>A reference database\<close>

text \<open>The four collections as document lists, beside whatever else the outside world holds.\<close>

record 'x ref_db =
  rf_jobs :: "job docs"
  rf_dests :: "destination docs"
  rf_runs :: "backup_run docs"
  rf_configs :: "user_config docs"
  rf_net :: 'x

definition refJobs :: "('x ref_db, job) coll" where "refJobs = part_of rf_jobs rf_jobs_update ref_coll"
definition refDests :: "('x ref_db, destination) coll" where "refDests = part_of rf_dests rf_dests_update ref_coll"
definition refRuns :: "('x ref_db, backup_run) coll" where "refRuns = part_of rf_runs rf_runs_update ref_coll"
definition refConfigs :: "('x ref_db, user_config) coll" where "refConfigs = part_of rf_configs rf_configs_update ref_coll"

lemmas ref_defs = refJobs_def refDests_def refRuns_def refConfigs_def

interpretation ref_db: backup_db refJobs "\<lambda>m. doc_view (rf_jobs m)" refDests "\<lambda>m. doc_view (rf_dests m)"
    refRuns "\<lambda>m. doc_view (rf_runs m)" refConfigs "\<lambda>m. doc_view (rf_configs m)"
  by (intro backup_db.intro backup_db_axioms.intro destination_db.intro destination_db_axioms.intro job_db.intro job_db_axioms.intro)
    (simp_all add: ref_defs part_of_leaves_alone part_of_up [OF ref_coll.collection_up_axioms])

text \<open>A user with a sealed permission, and a network that answers every call with one response.\<close>

definition demo_grant :: string where "demo_grant = ''h.e30.s''"

definition demo_grants :: "int \<Rightarrow> string \<Rightarrow> 'x ref_db grants" where
  "demo_grants status body = \<lparr>gr_env = keyed_env, gr_gcm = ref_gcm, gr_iv = replicate 12 (CHR ''i''), gr_now = 1700000000000,
     gr_configs = refConfigs, gr_send = (\<lambda>rq m. (Inr \<lparr>rs_status = status, rs_body = body, rs_headers = (\<lambda>_. None)\<rparr>, m))\<rparr>"

definition demo_blob :: string where
  "demo_blob = (case encryptSecret ref_gcm (replicate 12 (CHR ''i'')) demo_grant demo_key (offlineTokenAad ''u'') of
     Inr b \<Rightarrow> b | Inl e \<Rightarrow> [])"

definition demo_db :: "'x \<Rightarrow> 'x ref_db" where
  "demo_db x = \<lparr>rf_jobs = [(''j'', due_job)], rf_dests = [], rf_runs = [],
     rf_configs = [(''u'', (emptyConfig ''u'')\<lparr>uc_offlineRefreshEnc := Some demo_blob\<rparr>)], rf_net = x\<rparr>"

definition demo_world :: "'x \<Rightarrow> (unit, 'x ref_db) world" where
  "demo_world x = \<lparr>w_redis = (), w_audits = [], w_ext = demo_db x\<rparr>"

lemma demo_read: "readOfflineToken (demo_grants status body) ''u'' (demo_db x) = (Inr (Some demo_grant), demo_db x)"
proof -
  have l: "loadKey demo_key = Inr (replicate 32 (CHR ''k''))" by (simp add: loadKey_def demo_key_facts KEY_BYTES_def)
  then obtain b where b: "encryptSecret ref_gcm (replicate 12 (CHR ''i'')) demo_grant demo_key (offlineTokenAad ''u'') = Inr b"
    by (simp add: encryptSecret_def case_prod_beta)
  then have "demo_blob = b" "b \<noteq> []" using encrypted_not_empty [OF b] by (simp_all add: demo_blob_def)
  then obtain c cs where cs: "demo_blob = c # cs" "encryptSecret ref_gcm (replicate 12 (CHR ''i'')) demo_grant demo_key (offlineTokenAad ''u'') = Inr (c # cs)"
    using b by (cases b) auto
  have k: "backupEncryptionKey keyed_env = Inr demo_key" by (simp add: backupEncryptionKey_def demo_key_facts KEY_BYTES_def)
  have "cl_findOne refConfigs ''u'' (\<lambda>_. True) (demo_db x) =
      (Inr (Some ((emptyConfig ''u'')\<lparr>uc_offlineRefreshEnc := Some demo_blob\<rparr>)), demo_db x)"
    by (simp add: refConfigs_def part_of_def on_part_def ref_coll_def demo_db_def hit_def)
  then show ?thesis
    using ref_gcm.decrypt_encrypt [OF _ cs(2)] k by (simp add: readOfflineToken_def demo_grants_def text_or_def cs(1))
qed

section \<open>Properties\<close>



text \<open>An access token for an absent user is obtained in one way only: with the refresh token of that
  user's own permission, opened under their key, presented to the token endpoint with the credentials of the client it was issued
  to; without a permission that opens, or when the identity provider refuses it, there is none and the failure is the one that names the remedy.\<close>
theorem mint_has_no_fallback:
  "case mintUserAccessToken G u m of (Inr a, m') \<Rightarrow>
     (\<exists>t cred res m1. readOfflineToken G u m = (Inr (Some t), m1) \<and> credentialsFor (gr_env G) t = Inr cred \<and>
        gr_send G (form_post (tokenEndpoint (gr_env G)) ((''grant_type'', ''refresh_token'') # cred @ [(''refresh_token'', t)])) m1 = (Inr res, m') \<and>
        http_ok res \<and> (\<exists>j. response_json res = Inr j \<and> json_member j ''access_token'' = JStr a))
   | (Inl e, m') \<Rightarrow> (case fst (readOfflineToken G u m) of Inr None \<Rightarrow> e = unusableGrant | _ \<Rightarrow> True)"
proof (cases "mintUserAccessToken G u m")
  case (Pair r m')
  show ?thesis
  proof (cases r)
    case (Inl e)
    then show ?thesis using Pair by (auto simp: mintUserAccessToken_def text_or_def bindM_def split: sum.splits option.splits)
  next
    case (Inr a)
    with Pair have run: "mintUserAccessToken G u m = (Inr a, m')" by simp
    then obtain t m1 where t: "readOfflineToken G u m = (Inr t, m1)" by (auto simp: mintUserAccessToken_def bindM_Inr_iff)
    show ?thesis
    proof (cases "text_or t []")
      case Nil
      with run t show ?thesis by (simp add: mintUserAccessToken_def)
    next
      case (Cons c cs)
      then have "t = Some (c # cs)" by (auto simp: text_or_def split: option.splits if_splits)
      with run t Pair Inr show ?thesis
        by (auto simp: mintUserAccessToken_def text_or_def bindM_Inr_iff member_def split: if_splits json.splits list.splits)
    qed
  qed
qed

end
