(* ===== verification/Runner.thy ===== *)
theory Runner
  imports Destination_Driver Snapshot_Reader Offline_Token Redis_Lock
begin

text \<open>
  \<open>bff-server/backup-runner.ts\<close>: one backup run from end to end, on demand and unattended. What a run uses is the
  record \<open>runner\<close>: the settings, the primitives, the collections, the client of the movie service made for a token, the
  outside world of the destination drivers and the grants; the three readings of the clock and the id of the run are members.
  The log line of a failure is diagnostic and is dropped. The run slot and the rate limit are in \<open>Redis_Lock\<close>.
\<close>

record 'm runner =
  rn_env :: env
  rn_crypto :: crypto
  rn_zlib :: zlib
  rn_gcm :: gcm
  rn_freshId :: string
  rn_started :: int
  rn_created :: int
  rn_finished :: int
  rn_jobs :: "('m, job) coll"
  rn_dests :: "('m, destination) coll"
  rn_runs :: "('m, backup_run) coll"
  rn_client :: "string \<Rightarrow> 'm mc_client"
  rn_outside :: "'m outside"
  rn_grants :: "'m grants"

record run_request =
  rr_userId :: string
  rr_jwt :: string
  rr_job :: job
  rr_trigger :: string

definition artifactKeyFor :: "string \<Rightarrow> string \<Rightarrow> string \<Rightarrow> string" where
  "artifactKeyFor basePath jobId created =
     (if basePath = [] then ''mcm-backups'' else basePath) @ ''/'' @ jobId @ ''/'' @ created @ ''.json.gz''"

section \<open>The ceilings and the reason of a failure\<close>

definition tooManyMovies :: "int \<Rightarrow> int \<Rightarrow> exn" where
  "tooManyMovies n k = BackupSizeCeilingError (''This backup covers '' @ show_int n @ '' movies, which is over the limit of ''
     @ show_int k @ ''. Back up fewer collections, or ask an administrator to raise BACKUP_MAX_MOVIES.'')"

definition tooManyBytes :: "int \<Rightarrow> int \<Rightarrow> exn" where
  "tooManyBytes n k = BackupSizeCeilingError (''This backup is '' @ show_int n @ '' bytes before compression, which is over the limit of ''
     @ show_int k @ '' bytes. Back up fewer collections, or ask an administrator to raise BACKUP_MAX_UNCOMPRESSED_BYTES.'')"

definition assertWithinCeilings :: "env \<Rightarrow> int \<Rightarrow> int \<Rightarrow> exn + unit" where
  "assertWithinCeilings E movieCount uncompressedBytes =
     (if backupMaxMovies E > 0 \<and> movieCount > backupMaxMovies E then Inl (tooManyMovies movieCount (backupMaxMovies E))
      else if backupMaxUncompressedBytes E > 0 \<and> uncompressedBytes > backupMaxUncompressedBytes E
      then Inl (tooManyBytes uncompressedBytes (backupMaxUncompressedBytes E))
      else Inr ())"

definition is_upper :: "char \<Rightarrow> bool" where
  "is_upper c \<longleftrightarrow> (let n = of_char c :: nat in 65 \<le> n \<and> n \<le> 90)"

text \<open>\<open>^(S3|WebDAV) [A-Z]+ failed: HTTP [0-9]+\<close>\<close>

definition failed_status :: "string \<Rightarrow> bool" where
  "failed_status s \<longleftrightarrow> takeWhile is_upper s \<noteq> [] \<and> (let r = dropWhile is_upper s in
     js_starts_with r '' failed: HTTP '' \<and> length r > 14 \<and> is_digit (r ! 14))"

definition driverMessage :: "string \<Rightarrow> bool" where
  "driverMessage m \<longleftrightarrow> (js_starts_with m ''S3 '' \<and> failed_status (drop 3 m)) \<or> (js_starts_with m ''WebDAV '' \<and> failed_status (drop 7 m))"

definition safeReason :: "exn \<Rightarrow> string" where
  "safeReason err = (case err of
     DestinationUrlNotAllowedError reason \<Rightarrow> reason
   | BackupSizeCeilingError message \<Rightarrow> message
   | _ \<Rightarrow> (let message = exn_text err in
       if driverMessage message \<or> js_starts_with message ''That backup'' then message
       else ''The backup could not be completed. Check the destination and try again.''))"

section \<open>A run\<close>

text \<open>What a run that wrote its artifact reports of it.\<close>

record written =
  wr_key :: string
  wr_bytes :: int
  wr_counts :: "collection_count list"
  wr_movieCount :: int
  wr_prunedCount :: int
  wr_pruneFailure :: "string option"

definition countOf :: "acoll \<Rightarrow> collection_count" where
  "countOf c = \<lparr>cc_collectionId = ac_id c, cc_name = ac_name c, cc_movieCount = int (length (ac_movies c))\<rparr>"

definition missingDestination :: exn where "missingDestination = JsError ''That backup destination no longer exists''"
definition missingCredential :: exn where "missingCredential = JsError ''No credential is stored for that destination''"

definition prepareArtifact :: "'m runner \<Rightarrow> run_request \<Rightarrow> acoll list \<Rightarrow> exn + string" where
  "prepareArtifact R request collections =
    (let artifact = buildArtifact (rn_crypto R) (jb_id (rr_job request)) collections (to_iso (rn_created R));
         uncompressed = int (length (utf8_encode (stringify artifact))) in
     bindE (assertWithinCeilings (rn_env R) (total_movies collections) uncompressed) (\<lambda>_.
     Inr (compressArtifact (rn_zlib R) artifact)))"

definition storeArtifact :: "'m runner \<Rightarrow> run_request \<Rightarrow> destination \<Rightarrow> 'm driver \<Rightarrow> acoll list \<Rightarrow> string \<Rightarrow> ('m, written) io" where
  "storeArtifact R request destination V collections body =
    (let job = rr_job request; key = artifactKeyFor (ds_basePath destination) (jb_id job) (to_iso (rn_created R)) in
     thenM (dr_put V key body (Some ''application/gzip''))
    (bindM (pruneAfterRun V destination (jb_id job) (jb_keepLast job) ''success'') (\<lambda>prune.
     returnM \<lparr>wr_key = key, wr_bytes = int (length body), wr_counts = map countOf collections,
        wr_movieCount = total_movies collections, wr_prunedCount = po_prunedCount prune,
        wr_pruneFailure = (if text_or (po_failureReason prune) [] = [] then None else po_failureReason prune)\<rparr>)))"

definition backupSteps :: "'m runner \<Rightarrow> run_request \<Rightarrow> ('m, written) io" where
  "backupSteps R request = (let userId = rr_userId request; job = rr_job request in
     bindM (cl_findOne (rn_dests R) (jb_destinationId job) (\<lambda>d. ds_userId d = userId)) (\<lambda>doc. case doc of
       None \<Rightarrow> throwM missingDestination
     | Some destination \<Rightarrow>
       bindM (getDestinationSecret (rn_gcm R) (rn_env R) (rn_dests R) userId (jb_destinationId job)) (\<lambda>secret. case secret of
         None \<Rightarrow> throwM missingCredential
       | Some s \<Rightarrow>
         bindM (createBackupDriver (rn_env R) (rn_outside R) destination s) (\<lambda>V.
         bindM (readSnapshot (rn_client R) (rr_jwt request) (jb_collectionIds job)) (\<lambda>collections.
         bindM (liftE (prepareArtifact R request collections)) (\<lambda>body.
         storeArtifact R request destination V collections body))))))"

definition success_patch :: "written \<Rightarrow> run_patch" where
  "success_patch x = \<lparr>fp_status = ''success'', fp_artifactKey = Some (wr_key x), fp_artifactBytes = Some (wr_bytes x),
     fp_collectionCounts = Some (wr_counts x), fp_failureReason = None, fp_prunedCount = Some (wr_prunedCount x),
     fp_pruneFailureReason = wr_pruneFailure x\<rparr>"

definition runFields :: "run_request \<Rightarrow> string \<Rightarrow> (string \<times> string) list" where
  "runFields request runId = [(''userId'', rr_userId request), (''jobId'', jb_id (rr_job request)), (''runId'', runId),
     (''trigger'', rr_trigger request)]"

definition succeedRun :: "'m runner \<Rightarrow> run_request \<Rightarrow> backup_run \<Rightarrow> written \<Rightarrow> ('r, 'm, backup_run) act" where
  "succeedRun R request run x =
     bindM (inExt (finishRun (rn_runs R) (rn_finished R) (br_id run) (success_patch x))) (\<lambda>finished.
     thenM (auditM ''backup_run_succeeded'' (runFields request (br_id run) @
        [(''collectionCount'', show_nat (length (wr_counts x))), (''movieCount'', show_int (wr_movieCount x)),
         (''artifactBytes'', show_int (wr_bytes x)), (''prunedCount'', show_int (wr_prunedCount x))]))
      (returnM (case finished of Some d \<Rightarrow> d
         | None \<Rightarrow> run\<lparr>br_status := ''success'', br_artifactKey := Some (wr_key x), br_collectionCounts := wr_counts x\<rparr>)))"

definition recordFailure :: "'m runner \<Rightarrow> backup_run \<Rightarrow> string \<Rightarrow> ('m, backup_run) io" where
  "recordFailure R run failureReason =
     bindM (finishRun (rn_runs R) (rn_finished R) (br_id run) (failed_patch failureReason)) (\<lambda>finished.
     returnM (case finished of Some d \<Rightarrow> d | None \<Rightarrow> run\<lparr>br_status := ''failed'', br_failureReason := Some failureReason\<rparr>))"

definition failRun :: "'m runner \<Rightarrow> run_request \<Rightarrow> backup_run \<Rightarrow> exn \<Rightarrow> ('r, 'm, backup_run) act" where
  "failRun R request run err = (let failureReason = safeReason err in
     bindM (inExt (recordFailure R run failureReason)) (\<lambda>d.
     thenM (auditM ''backup_run_failed'' (runFields request (br_id run) @ [(''failureReason'', failureReason)])) (returnM d)))"

definition runBackup :: "'m runner \<Rightarrow> run_request \<Rightarrow> ('r, 'm, backup_run) act" where
  "runBackup R request =
     bindM (startRun (rn_runs R) (rn_freshId R) (rn_started R) (rr_userId request) (jb_id (rr_job request)) (rr_trigger request)) (\<lambda>run.
     catchM (bindM (inExt (backupSteps R request)) (succeedRun R request run)) (failRun R request run))"

definition missingJob :: exn where "missingJob = JsError ''That backup job no longer exists''"

definition runScheduledBackup :: "'m runner \<Rightarrow> string \<Rightarrow> string \<Rightarrow> ('r, 'm, backup_run) act" where
  "runScheduledBackup R uid jobId =
     bindM (inExt (cl_findOne (rn_jobs R) jobId (\<lambda>d. jb_userId d = uid))) (\<lambda>doc. case doc of
       None \<Rightarrow> throwM missingJob
     | Some job \<Rightarrow>
       bindM (inExt (attemptM (mintUserAccessToken (rn_grants R) uid))) (\<lambda>minted. case minted of
         Inr jwt \<Rightarrow> runBackup R \<lparr>rr_userId = uid, rr_jwt = jwt, rr_job = job, rr_trigger = ''scheduled''\<rparr>
       | Inl (OfflineTokenUnusableError message) \<Rightarrow>
           bindM (startRun (rn_runs R) (rn_freshId R) (rn_started R) uid jobId ''scheduled'') (\<lambda>run.
           inExt (recordFailure R run message))
       | Inl err \<Rightarrow> throwM err))"

section \<open>What a run leaves alone\<close>

lemma keeps_listCollections: "(\<And>p ps. keeps v (mc_get M p ps)) \<Longrightarrow> keeps v (listCollections M)"
  unfolding listCollections_def by (intro keeps_intros) (auto intro!: keeps_intros split: json.split)

lemma keeps_readPage: "(\<And>p ps. keeps v (mc_get M p ps)) \<Longrightarrow> keeps v (readPage M i c)"
  unfolding readPage_def Let_def by (intro keeps_intros)

lemma keeps_readFrom: "(\<And>p ps. keeps v (mc_get M p ps)) \<Longrightarrow> keeps v (readFrom n M i seen c)"
  by (induction n arbitrary: seen c; subst readFrom.simps) (auto intro!: keeps_intros keeps_readPage)

lemma keeps_readSelected: "(\<And>p ps. keeps v (mc_get M p ps)) \<Longrightarrow> keeps v (readSelected M cs)"
  by (induction cs) (auto simp: readAllMovies_def intro!: keeps_intros keeps_readFrom)

lemma keeps_readSnapshot: "(\<And>p ps. keeps v (mc_get (mk jwt) p ps)) \<Longrightarrow> keeps v (readSnapshot mk jwt ids)"
  unfolding readSnapshot_def Let_def by (intro keeps_intros keeps_listCollections keeps_readSelected)

lemma keeps_deleteEach: "(\<And>k. keeps v (dr_delete V k)) \<Longrightarrow> keeps v (deleteEach V ks)"
  by (induction ks) (auto intro!: keeps_intros)

lemma keeps_storeArtifact: "driver_keeps v V \<Longrightarrow> keeps v (storeArtifact R request d V cs body)"
  unfolding storeArtifact_def pruneAfterRun_def pruneOldVersions_def driver_keeps_def Let_def
  by (intro keeps_intros keeps_deleteEach) auto

section \<open>What a run does to the destination\<close>

text \<open>A version that retention gave up: gone, the job's own, and as many newer ones as the job keeps are there.\<close>

definition given_up :: "('m \<Rightarrow> string \<Rightarrow> string option) \<Rightarrow> destination \<Rightarrow> job \<Rightarrow> 'm \<Rightarrow> string \<Rightarrow> bool" where
  "given_up objects dst j m k \<longleftrightarrow> objects m k = None \<and> ownArtifact dst (jb_id j) k \<and>
     jb_keepLast j \<le> of_nat (card {k'. k < k' \<and> ownArtifact dst (jb_id j) k' \<and> objects m k' \<noteq> None})"

definition newKey :: "'m runner \<Rightarrow> run_request \<Rightarrow> destination \<Rightarrow> string" where
  "newKey R request dst = artifactKeyFor (ds_basePath dst) (jb_id (rr_job request)) (to_iso (rn_created R))"

context object_store
begin

lemma prune_given_up:
  assumes "pruneAfterRun V dst (jb_id j) (jb_keepLast j) ''success'' x = (r, x')" "objects x' k \<noteq> objects x k"
  shows "given_up objects dst j x' k \<and> (\<exists>ob. r = Inr ob)"
proof -
  have run: "pruneOldVersions V dst (jb_id j) (jb_keepLast j) x = (r, x')" using assms(1) by (simp add: pruneAfterRun_def)
  let ?S = "{k'. k < k' \<and> ownArtifact dst (jb_id j) k' \<and> objects x' k' \<noteq> None \<and> objects x' k' = objects x k'}"
  let ?T = "{k'. k < k' \<and> ownArtifact dst (jb_id j) k' \<and> objects x' k' \<noteq> None}"
  have "finite ?T" by (rule finite_subset [OF _ finite_objects [of x']]) auto
  then have "card ?S \<le> card ?T" by (rule card_mono) auto
  then have "(of_nat (card ?S) :: rat) \<le> of_nat (card ?T)" by (simp only: of_nat_le_iff)
  with prune_keeps [OF run assms(2)] have "given_up objects dst j x' k" unfolding given_up_def by (meson order.trans)
  moreover have "\<exists>ob. r = Inr ob" using prune_cases [OF run] assms(2) by metis
  ultimately show ?thesis by blast
qed

lemma prune_returns:
  assumes "fst (dr_list V (jobPrefix dst i) None x) = Inr os"
  shows "\<exists>ob. fst (pruneAfterRun V dst i keep ''success'' x) = Inr ob"
proof -
  have "\<exists>p f. fst (deleteEach V ks y) = Inr (p, f)" for ks y using deleteEach_result [of ks y] by blast
  then show ?thesis
    using assms by (auto simp: pruneAfterRun_def pruneOldVersions_def bindM_run Let_def split: sum.split) (metis Inl_Inr_False)
qed

lemma store_run:
  assumes "storeArtifact R request dst V cs body x = (r, x')" "okKey (newKey R request dst)"
  shows "case r of Inl e \<Rightarrow> \<forall>k. k \<noteq> newKey R request dst \<longrightarrow> objects x' k = objects x k
    | Inr wr \<Rightarrow> wr_key wr = newKey R request dst \<and> wr_counts wr = map countOf cs \<and>
       (\<forall>k. objects x' k \<noteq> ((objects x)(newKey R request dst \<mapsto> body)) k \<longrightarrow> given_up objects dst (rr_job request) x' k)"
proof -
  define key where "key = newKey R request dst"
  define ct where "ct = Some ''application/gzip''"
  define x1 where "x1 = snd (dr_put V key body ct x)"
  note key_def' = key_def [unfolded newKey_def]
  have other: "objects x1 k = objects x k" if "k \<noteq> key" for k
    using put_local [OF assms(2) [folded key_def] that] by (simp add: x1_def)
  show ?thesis
  proof (cases "fst (dr_put V key body ct x)")
    case (Inl e)
    then have "r = Inl e" "x' = x1"
      using assms(1) unfolding storeArtifact_def Let_def key_def' [symmetric] ct_def [symmetric] by (auto simp: bindM_run x1_def)
    then show ?thesis using other by (simp add: key_def)
  next
    case (Inr u)
    have put: "objects x1 = (objects x)(key \<mapsto> body)" using put_done [OF assms(2) [folded key_def]] Inr by (simp add: x1_def)
    obtain p x2 where p: "pruneAfterRun V dst (jb_id (rr_job request)) (jb_keepLast (rr_job request)) ''success'' x1 = (p, x2)"
      by fastforce
    have end_state: "x' = x2" "case p of Inl e \<Rightarrow> r = Inl e | Inr ob \<Rightarrow> (\<exists>wr. r = Inr wr \<and> wr_key wr = key \<and> wr_counts wr = map countOf cs)"
      using assms(1) Inr p unfolding storeArtifact_def Let_def key_def' [symmetric] ct_def [symmetric]
      by (auto simp: bindM_run x1_def split: sum.splits)
    show ?thesis
    proof (cases p)
      case l: (Inl e)
      then have "objects x2 k = objects x1 k" for k using prune_given_up [OF p, of k] by auto
      then show ?thesis using end_state l other by (simp add: key_def)
    next
      case r: (Inr ob)
      then show ?thesis using end_state prune_given_up [OF p] unfolding put by (auto simp: key_def)
    qed
  qed
qed

end

section \<open>The world of a run\<close>

text \<open>
  What a run relies on: its collections are those of the backups, the identity provider, the movie service, the resolver and the
  network leave them alone, the calls before the write leave the destination alone, and the driver made for it is an object store.
\<close>

locale backup_world = backup_db J jview D dview Rn rview C cview
  for J :: "('m, job) coll" and jview :: "'m \<Rightarrow> string \<Rightarrow> job option"
    and D :: "('m, destination) coll" and dview :: "'m \<Rightarrow> string \<Rightarrow> destination option"
    and Rn :: "('m, backup_run) coll" and rview :: "'m \<Rightarrow> string \<Rightarrow> backup_run option"
    and C :: "('m, user_config) coll" and cview :: "'m \<Rightarrow> string \<Rightarrow> user_config option" +
  fixes R :: "'m runner" and dst :: destination and objects :: "'m \<Rightarrow> string \<Rightarrow> string option" and okKey :: "string \<Rightarrow> bool"
  assumes own_colls: "rn_jobs R = J" "rn_dests R = D" "rn_runs R = Rn" "gr_configs (rn_grants R) = C"
    and db_apart: "leaves_alone J objects" "leaves_alone D objects" "leaves_alone Rn objects" "leaves_alone C objects"
    and idp_apart: "keeps (db_snapshot jview dview rview cview) (gr_send (rn_grants R) rq)" "keeps objects (gr_send (rn_grants R) rq)"
    and service_apart: "keeps (db_snapshot jview dview rview cview) (mc_get (rn_client R jwt) p ps)" "keeps objects (mc_get (rn_client R jwt) p ps)"
    and lookup_apart: "keeps (db_snapshot jview dview rview cview) (os_lookup (rn_outside R) h)" "keeps objects (os_lookup (rn_outside R) h)"
    and wire_apart: "keeps (db_snapshot jview dview rview cview) (os_wire (rn_outside R) w)"
    and driver_store: "createBackupDriver (rn_env R) (rn_outside R) dst s m = (Inr V, m') \<Longrightarrow> object_store V objects okKey"
begin

lemmas colls_apart [simp] = leaves_aloneD [OF db_apart(1)] leaves_aloneD [OF db_apart(2)] leaves_aloneD [OF db_apart(3)]
  leaves_aloneD [OF db_apart(4)]

lemma driver_made:
  assumes "createBackupDriver (rn_env R) (rn_outside R) dst s m = (r, m')"
  shows "snap m' = snap m" "objects m' = objects m" "r = Inr V \<Longrightarrow> driver_keeps snap V"
proof -
  show "snap m' = snap m" "r = Inr V \<Longrightarrow> driver_keeps snap V"
    using made_driver_keeps [OF assms lookup_apart(1) wire_apart] by blast+
  have "keeps objects (createBackupDriver (rn_env R) (rn_outside R) dst s)"
    unfolding createBackupDriver_def Let_def by (intro keeps_intros guard_keeps lookup_apart(2))
  then show "objects m' = objects m" using keepsD assms by metis
qed

lemma keeps_collections:
  "keeps snap (cl_findOne D i p)" "keeps objects (cl_findOne D i p)"
  "keeps snap (getDestinationSecret G E D u i)" "keeps objects (getDestinationSecret G E D u i)"
  by (simp_all add: keeps_def snap_eq_iff secret_leaves db_views)

lemma keeps_snapshot: "keeps snap (readSnapshot (rn_client R) jwt ids)" "keeps objects (readSnapshot (rn_client R) jwt ids)"
  by (rule keeps_readSnapshot, rule service_apart)+

text \<open>A value the steps passed on their way leaves the parts they keep as they were.\<close>

lemma keeps_both: "keeps snap m \<Longrightarrow> keeps objects m \<Longrightarrow> m x = (r, x') \<Longrightarrow> snap x' = snap x \<and> objects x' = objects x"
  using keepsD [of snap m x r x'] keepsD [of objects m x r x'] by simp

lemma steps_run:
  assumes "backupSteps R request x = (r, x')" "dview x (jb_destinationId (rr_job request)) = Some dst" "ds_userId dst = rr_userId request"
    and "okKey (newKey R request dst)"
  shows "snap x' = snap x \<and> (case r of Inl e \<Rightarrow> \<forall>k. k \<noteq> newKey R request dst \<longrightarrow> objects x' k = objects x k
    | Inr wr \<Rightarrow> \<exists>cs body y y'. readSnapshot (rn_client R) (rr_jwt request) (jb_collectionIds (rr_job request)) y = (Inr cs, y') \<and>
       prepareArtifact R request cs = Inr body \<and> wr_key wr = newKey R request dst \<and> wr_counts wr = map countOf cs \<and>
       (objects x' (newKey R request dst) = Some body \<or> given_up objects dst (rr_job request) x' (newKey R request dst)) \<and>
       (\<forall>k. k \<noteq> newKey R request dst \<longrightarrow> objects x' k = objects x k \<or> given_up objects dst (rr_job request) x' k))"
proof -
  let ?u = "rr_userId request" and ?i = "jb_destinationId (rr_job request)"
  let ?find = "cl_findOne D ?i (\<lambda>d. ds_userId d = ?u)" and ?secret = "getDestinationSecret (rn_gcm R) (rn_env R) D ?u ?i"
  let ?read = "readSnapshot (rn_client R) (rr_jwt request) (jb_collectionIds (rr_job request))"
  note run = assms(1) [unfolded backupSteps_def Let_def own_colls(2)]
  obtain x1 where f: "?find x = (Inr (Some dst), x1)"
    using dests.findOne_result [of ?i "\<lambda>d. ds_userId d = ?u" x] assms(2,3) by (cases "?find x") (simp add: hit_def)
  obtain q x2 where s: "?secret x1 = (q, x2)" by fastforce
  have at2: "snap x2 = snap x \<and> objects x2 = objects x"
    using keeps_both [OF keeps_collections(1,2) f] keeps_both [OF keeps_collections(3,4) s] by simp
  have still: "?thesis" if "r = Inl e" "snap x' = snap x \<and> objects x' = objects x" for e using that by simp
  show ?thesis
  proof (cases "\<exists>t. q = Inr (Some t)")
    case False
    then obtain e where "r = Inl e" "x' = x2" using run f s by (cases q) (auto split: option.splits)
    then show ?thesis using still at2 by blast
  next
    case True
    then obtain t where t: "q = Inr (Some t)" by blast
    obtain c x3 where c: "createBackupDriver (rn_env R) (rn_outside R) dst t x2 = (c, x3)" by fastforce
    have at3: "snap x3 = snap x \<and> objects x3 = objects x" using driver_made(1,2) [OF c] at2 by simp
    show ?thesis
    proof (cases c)
      case (Inl e)
      then have "r = Inl e" "x' = x3" using run f s t c by simp_all
      then show ?thesis using still at3 by blast
    next
      case V: (Inr V)
      obtain g x4 where g: "?read x3 = (g, x4)" by fastforce
      have at4: "snap x4 = snap x \<and> objects x4 = objects x" using keeps_both [OF keeps_snapshot g] at3 by simp
      show ?thesis
      proof (cases "\<exists>cs body. g = Inr cs \<and> prepareArtifact R request cs = Inr body")
        case False
        then have "\<exists>e. r = Inl e" "x' = x4" using run f s t c V g
          by (cases g; auto simp: bindM_run split: sum.splits)+
        then show ?thesis using still at4 by blast
      next
        case True
        then obtain cs body where b: "g = Inr cs" "prepareArtifact R request cs = Inr body" by blast
        then have st: "storeArtifact R request dst V cs body x4 = (r, x')" using run f s t c V g by (simp add: bindM_run)
        have snap: "snap x' = snap x"
          using keepsD [OF keeps_storeArtifact [OF driver_made(3) [OF c V]] st] at4 by simp
        note stored = object_store.store_run [OF driver_store [OF c [unfolded V]] st assms(4)]
        show ?thesis
        proof (cases r)
          case (Inl e)
          then show ?thesis using snap stored at4 by simp
        next
          case (Inr wr)
          have "?read x3 = (Inr cs, x4)" using g b(1) by simp
          then show ?thesis unfolding Inr sum.case
            by (intro conjI exI [of _ cs] exI [of _ body] exI [of _ x3] exI [of _ x4])
              (use snap stored at4 b Inr in \<open>auto split: if_splits\<close>)
        qed
      qed
    qed
  qed
qed

end

definition newRunOf :: "'m runner \<Rightarrow> run_request \<Rightarrow> backup_run" where
  "newRunOf R request = newRun (rn_freshId R) (rn_started R) (rr_userId request) (jb_id (rr_job request)) (rr_trigger request)"

context backup_world
begin

lemma run_started:
  assumes "rview (w_ext w) (rn_freshId R) = None"
  obtains w1 where "startRun Rn (rn_freshId R) (rn_started R) u j t w = (Inr (newRun (rn_freshId R) (rn_started R) u j t), w1)"
    "rview (w_ext w1) = (rview (w_ext w))(rn_freshId R \<mapsto> newRun (rn_freshId R) (rn_started R) u j t)"
    "jview (w_ext w1) = jview (w_ext w)" "dview (w_ext w1) = dview (w_ext w)" "cview (w_ext w1) = cview (w_ext w)"
    "objects (w_ext w1) = objects (w_ext w)"
  using that [of "snd (startRun Rn (rn_freshId R) (rn_started R) u j t w)"] assms
  by (simp add: startRun_def Let_def io_simps db_results db_views prod_eq_iff)

lemma run_finished:
  assumes "rview m i = Some d"
  shows "fst (finishRun Rn now i p m) = Inr (Some (patchRun p now d))"
    "rview (snd (finishRun Rn now i p m)) = (rview m)(i \<mapsto> patchRun p now d)"
    "jview (snd (finishRun Rn now i p m)) = jview m" "dview (snd (finishRun Rn now i p m)) = dview m"
    "cview (snd (finishRun Rn now i p m)) = cview m" "objects (snd (finishRun Rn now i p m)) = objects m"
  using assms by (simp_all add: finishRun_def db_results db_views hit_def)

lemma run_id [simp]: "br_id (newRun i n u j t) = i"
  by (simp add: newRun_def)

lemma keeps_with_driver:
  assumes "\<And>V. driver_keeps snap V \<Longrightarrow> keeps snap (f V)"
  shows "keeps snap (bindM (createBackupDriver (rn_env R) (rn_outside R) d s) f)"
  unfolding keeps_def
proof
  fix m
  obtain r m' where c: "createBackupDriver (rn_env R) (rn_outside R) d s m = (r, m')" by fastforce
  note made = made_driver_keeps [OF c lookup_apart(1) wire_apart]
  show "snap (snd (bindM (createBackupDriver (rn_env R) (rn_outside R) d s) f m)) = snap m"
    using made c assms by (cases r) (auto simp: keeps_def)
qed

lemma steps_keep_documents: "keeps snap (backupSteps R request)"
  unfolding backupSteps_def Let_def own_colls
  by (intro keeps_intros keeps_collections keeps_snapshot keeps_with_driver keeps_storeArtifact)

text \<open>A run that could be recorded as started always ends with its record written, one way or the other.\<close>

lemma run_recorded:
  assumes "rview (w_ext w) (rn_freshId R) = None"
  obtains x r x' d w' where "dview x = dview (w_ext w)" "objects x = objects (w_ext w)" "backupSteps R request x = (r, x')"
    "runBackup R request w = (Inr d, w')" "objects (w_ext w') = objects x'"
    "d = patchRun (case r of Inl e \<Rightarrow> failed_patch (safeReason e) | Inr wr \<Rightarrow> success_patch wr) (rn_finished R) (newRunOf R request)"
    "snap (w_ext w') = (snap (w_ext w))\<lparr>sn_runs := (rview (w_ext w))(rn_freshId R \<mapsto> d)\<rparr>"
    "x = w_ext (snd (startRun Rn (rn_freshId R) (rn_started R) (rr_userId request) (jb_id (rr_job request)) (rr_trigger request) w))"
proof -
  let ?run = "newRunOf R request"
  obtain w1 where s: "startRun Rn (rn_freshId R) (rn_started R) (rr_userId request) (jb_id (rr_job request)) (rr_trigger request) w = (Inr ?run, w1)"
    "rview (w_ext w1) = (rview (w_ext w))(rn_freshId R \<mapsto> ?run)"
    "jview (w_ext w1) = jview (w_ext w)" "dview (w_ext w1) = dview (w_ext w)" "cview (w_ext w1) = cview (w_ext w)"
    "objects (w_ext w1) = objects (w_ext w)"
    unfolding newRunOf_def by (rule run_started [OF assms])
  obtain r x' where b: "backupSteps R request (w_ext w1) = (r, x')" by fastforce
  define d where "d = patchRun (case r of Inl e \<Rightarrow> failed_patch (safeReason e) | Inr wr \<Rightarrow> success_patch wr) (rn_finished R) ?run"
  have id: "br_id ?run = rn_freshId R" by (simp add: newRunOf_def)
  have "rview x' = rview (w_ext w1) \<and> jview x' = jview (w_ext w) \<and> dview x' = dview (w_ext w) \<and> cview x' = cview (w_ext w)"
    using keepsD [OF steps_keep_documents b] s(3-5) by (simp add: snap_eq_iff)
  then have v: "rview x' (rn_freshId R) = Some ?run" "rview x' = rview (w_ext w1)" "jview x' = jview (w_ext w)"
    "dview x' = dview (w_ext w)" "cview x' = cview (w_ext w)" using s(2) by simp_all
  note f = run_finished [OF v(1)]
  have "\<exists>w'. runBackup R request w = (Inr d, w') \<and> objects (w_ext w') = objects x' \<and>
      snap (w_ext w') = (snap (w_ext w))\<lparr>sn_runs := (rview (w_ext w))(rn_freshId R \<mapsto> d)\<rparr>"
    using s(1,2) b f v(2-)
    by (cases r) (simp_all add: runBackup_def own_colls d_def io_simps succeedRun_def failRun_def recordFailure_def Let_def id snap_def)
  then obtain w' where w': "runBackup R request w = (Inr d, w')" "objects (w_ext w') = objects x'"
      "snap (w_ext w') = (snap (w_ext w))\<lparr>sn_runs := (rview (w_ext w))(rn_freshId R \<mapsto> d)\<rparr>" by blast
  show ?thesis by (rule that [OF s(4,6) b w'(1,2) d_def w'(3)]) (simp add: s(1))
qed

end

context backup_world
begin

text \<open>The failure of the listing ends the steps after the write.\<close>

lemma unlistable_steps:
  assumes "dview x (jb_destinationId (rr_job request)) = Some dst" "ds_userId dst = rr_userId request" "okKey (newKey R request dst)"
    and opened: "\<And>m. dview m (jb_destinationId (rr_job request)) = Some dst \<Longrightarrow>
      \<exists>s. fst (getDestinationSecret (rn_gcm R) (rn_env R) D (rr_userId request) (jb_destinationId (rr_job request)) m) = Inr (Some s)"
    and writable: "\<And>s m. \<exists>V m'. createBackupDriver (rn_env R) (rn_outside R) dst s m = (Inr V, m') \<and>
      (\<forall>k b ct y. k \<noteq> [] \<longrightarrow> fst (dr_put V k b ct y) = Inr ()) \<and> (\<forall>p n y. \<exists>e. fst (dr_list V p n y) = Inl e)"
    and readable: "\<And>m. \<exists>cs body m'. readSnapshot (rn_client R) (rr_jwt request) (jb_collectionIds (rr_job request)) m = (Inr cs, m') \<and>
      prepareArtifact R request cs = Inr body"
  shows "\<exists>e x' body. backupSteps R request x = (Inl e, x') \<and> objects x' (newKey R request dst) = Some body"
proof -
  let ?u = "rr_userId request" and ?i = "jb_destinationId (rr_job request)"
  let ?find = "cl_findOne D ?i (\<lambda>d. ds_userId d = ?u)" and ?secret = "getDestinationSecret (rn_gcm R) (rn_env R) D ?u ?i"
  define key where "key = newKey R request dst"
  have key: "key \<noteq> []" by (simp add: key_def newKey_def artifactKeyFor_def)
  obtain x1 where f: "?find x = (Inr (Some dst), x1)"
    using dests.findOne_result [of ?i "\<lambda>d. ds_userId d = ?u" x] assms(1,2) by (cases "?find x") (simp add: hit_def)
  have "dview x1 ?i = Some dst" using dests.findOne_view [of ?i "\<lambda>d. ds_userId d = ?u" x] f assms(1) by simp
  then obtain s where "fst (?secret x1) = Inr (Some s)" using opened by blast
  then obtain x2 where s: "?secret x1 = (Inr (Some s), x2)" by (metis prod.collapse)
  obtain V x3 where V: "createBackupDriver (rn_env R) (rn_outside R) dst s x2 = (Inr V, x3)"
    "\<And>k b ct y. k \<noteq> [] \<Longrightarrow> fst (dr_put V k b ct y) = Inr ()" "\<And>p n y. \<exists>e. fst (dr_list V p n y) = Inl e"
    using writable [of s x2] by blast
  obtain cs body x4 where g: "readSnapshot (rn_client R) (rr_jwt request) (jb_collectionIds (rr_job request)) x3 = (Inr cs, x4)"
    "prepareArtifact R request cs = Inr body" using readable [of x3] by blast
  note store = driver_store [OF V(1)]
  define x5 where "x5 = snd (dr_put V key body (Some ''application/gzip'') x4)"
  have put: "dr_put V key body (Some ''application/gzip'') x4 = (Inr (), x5)" using V(2) [OF key] by (simp add: x5_def prod_eq_iff)
  then have at5: "objects x5 key = Some body"
    using object_store.put_done [OF store, of key body "Some ''application/gzip''" x4] assms(3) by (simp add: key_def)
  obtain e where e: "fst (dr_list V (jobPrefix dst (jb_id (rr_job request))) None x5) = Inl e" using V(3) by blast
  let ?x6 = "snd (dr_list V (jobPrefix dst (jb_id (rr_job request))) None x5)"
  have "storeArtifact R request dst V cs body x4 = (Inl e, ?x6)"
    using put e unfolding storeArtifact_def
    by (simp add: Let_def key_def newKey_def pruneAfterRun_def pruneOldVersions_def bindM_run)
  then have "backupSteps R request x = (Inl e, ?x6)" using f s V(1) g by (simp add: backupSteps_def Let_def own_colls)
  then show ?thesis using at5 object_store.list_reads [OF store] by (auto simp: key_def)
qed

end

section \<open>A reference world\<close>

text \<open>An S3 server that is one part of a larger state, and refuses to list when \<open>deaf\<close> is set.\<close>

definition part_wire :: "bool \<Rightarrow> ('s \<Rightarrow> objects) \<Rightarrow> ((objects \<Rightarrow> objects) \<Rightarrow> 's \<Rightarrow> 's) \<Rightarrow> 's wire" where
  "part_wire deaf get upd w = on_part get upd (\<lambda>m. if deaf \<and> wi_method w = ''GET'' then (answer 500 [], m) else ref_s3 w m)"

lemma part_server:
  assumes "s3_server E d ref_s3 bucket_view pos" "s3_parse E' = s3_parse E" "objectPath d' = objectPath d" "listPath d' = listPath d"
    and "\<And>f s. get (upd f s) = f (get s)"
  shows "s3_server E' d' (part_wire deaf get upd) (\<lambda>s. bucket_view (get s)) pos"
  using assms(1) unfolding s3_server_def part_wire_def on_part_def assms(2-4)
  by (simp add: assms(5)) (auto simp: answer_def http_ok_def)

definition part_s3 :: "'s s3_env" where
  "part_s3 = \<lparr>s3_crypto = plain_hash, s3_hmac = (\<lambda>k t. k @ t), s3_parse = json_reader, s3_clock = (\<lambda>_. 0), s3_pages = 9\<rparr>"

definition open_lookup :: "'s lookup" where "open_lookup h = returnM [(''93.184.216.34'', 4)]"

definition demo_outside :: "bool \<Rightarrow> objects ref_db outside" where
  "demo_outside deaf = \<lparr>os_parseUrl = (\<lambda>_. Some nas_url), os_lookup = open_lookup,
     os_wire = part_wire deaf rf_net rf_net_update, os_s3 = part_s3, os_dav = ref_dav_env\<rparr>"

definition run_env :: env where
  "run_env = keyed_env\<lparr>backupAllowedDestinationHosts := [], backupMaxMovies := 0, backupMaxUncompressedBytes := 0\<rparr>"

text \<open>A movie service that knows one collection without movies.\<close>

definition one_collection :: "'s mc_client" where
  "one_collection = \<lparr>mc_get = (\<lambda>p ps. returnM (if p = ''/api/v1/collections'' then JArr [JObj [(''collectionId'', JStr ''c''), (''name'', JStr ''Films'')]]
     else JObj [(''items'', JArr [])])), mc_post = (\<lambda>p j. throwM typeError), mc_delete = (\<lambda>p. throwM typeError)\<rparr>"

definition demo_runner :: "bool \<Rightarrow> objects ref_db runner" where
  "demo_runner deaf = \<lparr>rn_env = run_env, rn_crypto = plain_hash, rn_zlib = plain_zlib, rn_gcm = ref_gcm, rn_freshId = ''r'', rn_started = 0,
     rn_created = 0, rn_finished = 1, rn_jobs = refJobs, rn_dests = refDests, rn_runs = refRuns, rn_client = (\<lambda>_. one_collection),
     rn_outside = demo_outside deaf, rn_grants = demo_grants 200 []\<rparr>"

definition sealed_cloud :: destination where
  "sealed_cloud = cloud\<lparr>ds_secretEnc := Some (case sealDestinationSecret ref_gcm run_env (replicate 12 (CHR ''i'')) ''u'' ''d'' ''s3cr3t'' of
     Inr b \<Rightarrow> b | Inl e \<Rightarrow> [])\<rparr>"

definition run_db :: "objects ref_db" where
  "run_db = \<lparr>rf_jobs = [(''j'', due_job)], rf_dests = [(''d'', sealed_cloud)], rf_runs = [], rf_configs = [], rf_net = [(''other'', ''kept'')]\<rparr>"

definition demo_request :: run_request where
  "demo_request = \<lparr>rr_userId = ''u'', rr_jwt = ''t'', rr_job = due_job, rr_trigger = ''manual''\<rparr>"

lemma sealed_cloud_paths: "objectPath sealed_cloud = objectPath cloud" "listPath sealed_cloud = listPath cloud"
  by (simp_all add: fun_eq_iff objectPath_def listPath_def bucketPath_def sealed_cloud_def)

lemma open_driver:
  "createBackupDriver run_env (demo_outside deaf) sealed_cloud s m =
    (Inr (createS3Driver part_s3 sealed_cloud s (vet nas_url [(''93.184.216.34'', 4)])
       (createPinnedTransport (vet nas_url [(''93.184.216.34'', 4)]) (part_wire deaf rf_net rf_net_update))), m)"
proof -
  have h: "allowedDestinationHosts run_env = []"
    by (simp add: allowedDestinationHosts_def run_env_def csv_hosts_def) code_simp
  have "assertDestinationUrlAllowed run_env (\<lambda>_. Some nas_url) open_lookup u m = (Inr (vet nas_url [(''93.184.216.34'', 4)]), m)" for u
    by (simp add: assertDestinationUrlAllowed_def nas_facts h resolveOrThrow_def open_lookup_def bindM_def catchM_def)
  then show ?thesis by (simp add: createBackupDriver_def demo_outside_def Let_def sealed_cloud_def cloud_def)
qed

lemma demo_store: "s3_server part_s3 sealed_cloud (part_wire deaf rf_net rf_net_update) (\<lambda>m. bucket_view (rf_net m)) (digits_val 0)"
  by (rule part_server [OF ref_s3.s3_server_axioms [of 9]]) (simp_all add: part_s3_def ref_env_def sealed_cloud_paths)

interpretation demo_run: backup_world refJobs "\<lambda>m. doc_view (rf_jobs m)" refDests "\<lambda>m. doc_view (rf_dests m)"
    refRuns "\<lambda>m. doc_view (rf_runs m)" refConfigs "\<lambda>m. doc_view (rf_configs m)"
    "demo_runner deaf" sealed_cloud "\<lambda>m. bucket_view (rf_net m)" "\<lambda>k. k \<noteq> []" for deaf
proof (intro backup_world.intro backup_world_axioms.intro ref_db.backup_db_axioms)
  fix s m V m'
  assume "createBackupDriver (rn_env (demo_runner deaf)) (rn_outside (demo_runner deaf)) sealed_cloud s m = (Inr V, m')"
  then show "object_store V (\<lambda>m. bucket_view (rf_net m)) (\<lambda>k. k \<noteq> [])"
    using s3_server.is_object_store [OF demo_store] by (simp add: demo_runner_def open_driver) blast
qed (auto simp: demo_runner_def demo_grants_def ref_defs part_of_leaves_alone demo_outside_def keeps_def open_lookup_def one_collection_def
    part_wire_def on_part_def ref_db.snap_def)

abbreviation demo_vetted :: vetted where "demo_vetted \<equiv> vet nas_url [(''93.184.216.34'', 4)]"

abbreviation demo_driver :: "bool \<Rightarrow> string \<Rightarrow> objects ref_db driver" where
  "demo_driver deaf s \<equiv> createS3Driver part_s3 sealed_cloud s demo_vetted (createPinnedTransport demo_vetted (part_wire deaf rf_net rf_net_update))"

lemma demo_put: "k \<noteq> [] \<Longrightarrow> \<exists>c. dr_put (demo_driver deaf s) k b ct x = (Inr (), x\<lparr>rf_net := (k, c) # rf_net x\<rparr>)"
proof -
  assume k: "k \<noteq> []"
  let ?ct = "Some (case ct of Some t \<Rightarrow> t | None \<Rightarrow> ''application/gzip'')"
  obtain req where req: "s3Request (part_s3 :: objects ref_db s3_env) sealed_cloud s demo_vetted 0 ''PUT'' (objectPath cloud k) [] (Some b) ?ct = Inr req"
    using s3Request_ok [of "[]" "[]"] by (simp add: canonicalQuery_def) blast
  define w where "w = wireRequest demo_vetted req"
  have m: "wi_method w = ''PUT''" and "linePath w = encodePath (objectPath cloud k)" using s3_wire [OF req] by (simp_all add: w_def)
  then have "decodePath (linePath w) = Some (objectPath cloud k)" using objectPath_slash(1) [of cloud k] by auto
  then have b: "bucket_key w = Some k" using bucket_key_object k by simp
  have "ref_s3 w y = (answer 200 [], (k, wi_body w) # y)" for y using m b by (simp add: ref_s3_def)
  then have "part_wire deaf rf_net rf_net_update w x = (answer 200 [], x\<lparr>rf_net := (k, wi_body w) # rf_net x\<rparr>)"
    using m by (simp add: part_wire_def on_part_def)
  moreover have c: "s3_clock part_s3 x = 0" by (simp add: part_s3_def)
  ultimately show ?thesis
    using req by (simp add: createS3Driver_def bindM_run s3Send_run c sealed_cloud_paths createPinnedTransport_def w_def
        s3Require_run answer_def http_ok_def exI [of _ "wi_body w"])
qed

lemma deaf_list: "\<exists>e. fst (dr_list (demo_driver True s) p n x) = Inl e"
proof -
  have "\<exists>e. fst (s3Page part_s3 sealed_cloud s demo_vetted (createPinnedTransport demo_vetted (part_wire True rf_net rf_net_update)) i p t x) = Inl e" for i t
  proof -
    define path where "path = (if bucketPath sealed_cloud = [] then ''/'' else bucketPath sealed_cloud)"
    have slash: "\<exists>q. path = CHR ''/'' # q" by (simp add: path_def bucketPath_def)
    show ?thesis unfolding s3Page_def path_def [symmetric]
      by (rule s3Send_cases [OF slash, of part_s3 sealed_cloud s demo_vetted "part_wire True rf_net rf_net_update" "''GET''"
            "listQuery i p t" None None x])
        (auto simp: bindM_run part_wire_def on_part_def answer_def s3Require_run http_ok_def split: sum.split)
  qed
  note failing_page = this
  define page :: "string option \<Rightarrow> (objects ref_db, object_info list \<times> string option) io" where "page = s3Page part_s3 sealed_cloud s demo_vetted (createPinnedTransport demo_vetted (part_wire True rf_net rf_net_update))
      (case n of Some i \<Rightarrow> i | None \<Rightarrow> MAX_KEYS_PER_PAGE) p"
  have "\<exists>e. fst (page None x) = Inl e" unfolding page_def by (rule failing_page)
  then have "\<exists>e. fst (pagesFrom 9 page None x) = Inl e" using pagesFrom.simps(2) [of 8 page None] by (auto simp: bindM_run)
  then show ?thesis by (auto simp: createS3Driver_def bindM_run part_s3_def page_def)
qed

lemma part_answering:
  assumes "s3_answering E d ref_s3 bucket_view pos" "s3_parse E' = s3_parse E" "objectPath d' = objectPath d" "listPath d' = listPath d"
    and "\<And>f s. get (upd f s) = f (get s)"
  shows "s3_answering E' d' (part_wire False get upd) (\<lambda>s. bucket_view (get s)) pos"
proof (rule s3_answering.intro)
  show "s3_server E' d' (part_wire False get upd) (\<lambda>s. bucket_view (get s)) pos"
    by (rule part_server [where get = get and upd = upd, OF s3_answering.axioms(1) [OF assms(1)] assms(2-4)]) (rule assms(5))
  show "s3_answering_axioms E' d' (part_wire False get upd) (\<lambda>s. bucket_view (get s)) pos"
    using s3_answering.axioms(2) [OF assms(1)] unfolding s3_answering_axioms_def part_wire_def on_part_def assms(2-4) by simp
qed

lemma demo_list:
  assumes "length (rf_net x) < 9"
  shows "\<exists>os. fst (dr_list (demo_driver False s) p n x) = Inr os"
proof -
  have a: "s3_answering part_s3 sealed_cloud (part_wire False rf_net rf_net_update) (\<lambda>m. bucket_view (rf_net m)) (digits_val 0)"
    by (rule part_answering [OF ref_s3.s3_answering_axioms [of 9]]) (simp_all add: part_s3_def ref_env_def sealed_cloud_paths)
  have "length (bucket_keys (rf_net x) p) \<le> length (rf_net x)"
    unfolding bucket_keys_def by (simp add: order.trans [OF length_remdups_leq] order.trans [OF length_filter_le])
  with assms have "length (keysUnder (bucket_view (rf_net x)) p) < s3_pages part_s3" by (simp add: bucket_keysUnder part_s3_def)
  then show ?thesis using s3_answering.listing_returns [OF a] by blast
qed

lemma demo_secret: "fst (getDestinationSecret ref_gcm run_env refDests ''u'' ''d'' m) = Inr (Some ''s3cr3t'')" if "doc_view (rf_dests m) ''d'' = Some sealed_cloud"
proof -
  have k: "backupEncryptionKey run_env = Inr demo_key" "loadKey demo_key = Inr (replicate 32 (CHR ''k''))"
    by (simp_all add: backupEncryptionKey_def run_env_def demo_key_facts KEY_BYTES_def loadKey_def)
  then obtain b where b: "encryptSecret ref_gcm (replicate 12 (CHR ''i'')) ''s3cr3t'' demo_key (backupSecretAad ''u'' ''d'') = Inr b"
    by (simp add: encryptSecret_def case_prod_beta)
  then obtain c cs where cs: "b = c # cs" using encrypted_not_empty [OF b] by (cases b) auto
  have enc: "ds_secretEnc sealed_cloud = Some (c # cs)" "ds_userId sealed_cloud = ''u''"
    using b by (simp_all add: sealed_cloud_def sealDestinationSecret_def k cs cloud_def nas_def newDestination_def Let_def)
  show ?thesis
    using that ref_gcm.decrypt_encrypt [OF _ b]
    by (simp add: ref_db.secret_of hit_def text_or_def enc k cs)
qed

lemma demo_snapshot:
  "readSnapshot (rn_client (demo_runner deaf)) jwt [] m =
    (Inr [\<lparr>ac_id = ''c'', ac_name = ''Films'', ac_description = None, ac_movies = []\<rparr>], m)"
  by (simp add: readSnapshot_def demo_runner_def one_collection_def listCollections_def readAllMovies_def idOf_def member_def
      json_member_def readPage_def movies_path_def spread_items_def js_truthy_def snapshotOf_def optional_text_def json_string_def
      catchM_def MAX_PAGES_def readFrom.simps Let_def)

lemma demo_fields:
  "rn_env (demo_runner deaf) = run_env" "rn_gcm (demo_runner deaf) = ref_gcm" "rn_dests (demo_runner deaf) = refDests"
  "rn_outside (demo_runner deaf) = demo_outside deaf" "rr_userId demo_request = ''u''" "rr_jwt demo_request = ''t''"
  "rr_job demo_request = due_job" "jb_destinationId due_job = ''d''" "jb_collectionIds due_job = []" "jb_id due_job = ''j''"
  "rn_freshId (demo_runner deaf) = ''r''" "rn_started (demo_runner deaf) = 0" "rr_trigger demo_request = ''manual''" "rn_crypto (demo_runner deaf) = plain_hash" "rn_zlib (demo_runner deaf) = plain_zlib"
  by (simp_all add: demo_runner_def demo_request_def due_job_def)

lemma demo_steps:
  assumes "doc_view (rf_dests x) ''d'' = Some sealed_cloud" "length (rf_net x) < 8"
  obtains wr x' where "backupSteps (demo_runner False) demo_request x = (Inr wr, x')"
proof -
  let ?R = "demo_runner False" and ?V = "demo_driver False ''s3cr3t''"
  let ?cs = "[\<lparr>ac_id = ''c'', ac_name = ''Films'', ac_description = None, ac_movies = []\<rparr>]"
  have u: "ds_userId sealed_cloud = ''u''" by (simp add: sealed_cloud_def cloud_def nas_def newDestination_def Let_def)
  have find: "cl_findOne refDests ''d'' (\<lambda>d. ds_userId d = ''u'') x = (Inr (Some sealed_cloud), x)"
    using assms(1) u by (simp add: refDests_def part_of_def on_part_def ref_coll_def hit_def doc_view_def)
  have secret: "getDestinationSecret ref_gcm run_env refDests ''u'' ''d'' x = (Inr (Some ''s3cr3t''), x)"
    using demo_secret [OF assms(1)] find by (simp add: prod_eq_iff ref_db.secret_leaves)
  obtain body where body: "prepareArtifact ?R demo_request ?cs = Inr body"
    by (simp add: prepareArtifact_def demo_runner_def run_env_def assertWithinCeilings_def bindE_def)
  define key where "key = newKey ?R demo_request sealed_cloud"
  have key: "key \<noteq> []" by (simp add: key_def newKey_def artifactKeyFor_def)
  obtain c where put: "dr_put ?V key body (Some ''application/gzip'') x = (Inr (), x\<lparr>rf_net := (key, c) # rf_net x\<rparr>)"
    using demo_put [OF key] by blast
  let ?y = "x\<lparr>rf_net := (key, c) # rf_net x\<rparr>"
  have "length (rf_net ?y) < 9" using assms(2) by simp
  from demo_list [OF this] obtain os where "fst (dr_list ?V (jobPrefix sealed_cloud ''j'') None ?y) = Inr os" by blast
  then obtain ob where prune: "fst (pruneAfterRun ?V sealed_cloud ''j'' 5 ''success'' ?y) = Inr ob"
    using object_store.prune_returns [OF s3_server.is_object_store [OF demo_store]] by blast
  have "\<exists>wr. fst (storeArtifact ?R demo_request sealed_cloud ?V ?cs body x) = Inr wr"
    using put prune unfolding storeArtifact_def
    by (simp add: Let_def key_def newKey_def demo_request_def due_job_def bindM_run)
  then obtain wr x' where "storeArtifact ?R demo_request sealed_cloud ?V ?cs body x = (Inr wr, x')" by (metis prod.collapse)
  moreover have "backupSteps ?R demo_request x = storeArtifact ?R demo_request sealed_cloud ?V ?cs body x"
    using find secret body demo_snapshot [of False "''t''" x]
    by (simp add: backupSteps_def demo_fields open_driver Let_def)
  ultimately show ?thesis using that by simp
qed

definition demo_started :: "(unit, objects ref_db) world" where
  "demo_started = \<lparr>w_redis = (), w_audits = [], w_ext = run_db\<rparr>"

lemma demo_db_facts:
  "doc_view (rf_runs run_db) ''r'' = None" "doc_view (rf_dests run_db) ''d'' = Some sealed_cloud" "ds_userId sealed_cloud = ''u''"
  "newKey (demo_runner deaf) demo_request sealed_cloud \<noteq> []" "''other'' \<noteq> newKey (demo_runner deaf) demo_request sealed_cloud"
proof -
  have "CHR ''/'' \<in> set (newKey (demo_runner deaf) demo_request sealed_cloud)" "CHR ''/'' \<notin> set ''other''"
    by (simp_all add: newKey_def artifactKeyFor_def)
  then show "''other'' \<noteq> newKey (demo_runner deaf) demo_request sealed_cloud" by metis
qed (simp_all add: run_db_def doc_view_def sealed_cloud_def cloud_def nas_def newDestination_def Let_def newKey_def artifactKeyFor_def)

section \<open>Properties\<close>






text \<open>C37: a destination whose credential may write objects but not list them makes every run that gets as
  far as the write a failed run without an artifact key, although the artifact has been written: the failure of the listing is not caught
  with the failures of the deletions.\<close>

theorem unlistable_destination_fails_run:
  assumes "backup_world J jview D dview Rn rview C cview R dst objects okKey" "rview (w_ext w) (rn_freshId R) = None"
    and "dview (w_ext w) (jb_destinationId (rr_job request)) = Some dst" "ds_userId dst = rr_userId request" "okKey (newKey R request dst)"
    and opened: "\<And>m. dview m (jb_destinationId (rr_job request)) = Some dst \<Longrightarrow>
      \<exists>s. fst (getDestinationSecret (rn_gcm R) (rn_env R) D (rr_userId request) (jb_destinationId (rr_job request)) m) = Inr (Some s)"
    and writable: "\<And>s m. \<exists>V m'. createBackupDriver (rn_env R) (rn_outside R) dst s m = (Inr V, m') \<and>
      (\<forall>k b ct y. k \<noteq> [] \<longrightarrow> fst (dr_put V k b ct y) = Inr ()) \<and> (\<forall>p n y. \<exists>e. fst (dr_list V p n y) = Inl e)"
    and readable: "\<And>m. \<exists>cs body m'. readSnapshot (rn_client R) (rr_jwt request) (jb_collectionIds (rr_job request)) m = (Inr cs, m') \<and>
      prepareArtifact R request cs = Inr body"
  shows "\<exists>d w' body. runBackup R request w = (Inr d, w') \<and> br_status d = ''failed'' \<and> br_artifactKey d = None \<and>
    objects (w_ext w') (newKey R request dst) = Some body"
proof -
  obtain x r x' d w' where run: "dview x = dview (w_ext w)" "backupSteps R request x = (r, x')"
    "runBackup R request w = (Inr d, w')" "objects (w_ext w') = objects x'"
    "d = patchRun (case r of Inl e \<Rightarrow> failed_patch (safeReason e) | Inr wr \<Rightarrow> success_patch wr) (rn_finished R) (newRunOf R request)"
    by (rule backup_world.run_recorded [OF assms(1,2)])
  obtain e body where "r = Inl e" "objects x' (newKey R request dst) = Some body"
    using backup_world.unlistable_steps [OF assms(1), of x request, unfolded run(1), OF assms(3-5) opened writable readable] run(2) by auto
  then show ?thesis using run(3-5)
    by (intro exI [of _ d] exI [of _ w'] exI [of _ body])
      (simp add: patchRun_def failed_patch_def newRunOf_def newRun_def keep_if_absent_def)
qed

theorem unlistable_destination_fails_run_witness:
  "\<exists>d w' body. runBackup (demo_runner True) demo_request demo_started = (Inr d, w') \<and> br_status d = ''failed'' \<and> br_artifactKey d = None \<and>
    bucket_view (rf_net (w_ext w')) (newKey (demo_runner True) demo_request sealed_cloud) = Some body"
proof (rule unlistable_destination_fails_run [OF demo_run.backup_world_axioms [of True]])
  fix s and m :: "objects ref_db"
  show "\<exists>V m'. createBackupDriver (rn_env (demo_runner True)) (rn_outside (demo_runner True)) sealed_cloud s m = (Inr V, m') \<and>
      (\<forall>k b ct y. k \<noteq> [] \<longrightarrow> fst (dr_put V k b ct y) = Inr ()) \<and> (\<forall>p n y. \<exists>e. fst (dr_list V p n y) = Inl e)"
  proof (intro exI [of _ "demo_driver True s"] exI [of _ m] conjI allI impI)
    show "createBackupDriver (rn_env (demo_runner True)) (rn_outside (demo_runner True)) sealed_cloud s m = (Inr (demo_driver True s), m)"
      by (simp add: demo_fields open_driver)
    fix k b :: string and ct and y :: "objects ref_db" assume "k \<noteq> []"
    from demo_put [OF this, of s True b ct y] show "fst (dr_put (demo_driver True s) k b ct y) = Inr ()" by auto
  qed (rule deaf_list)
next
  fix m :: "objects ref_db"
  show "\<exists>cs body m'. readSnapshot (rn_client (demo_runner True)) (rr_jwt demo_request) (jb_collectionIds (rr_job demo_request)) m = (Inr cs, m') \<and>
      prepareArtifact (demo_runner True) demo_request cs = Inr body"
    by (simp add: demo_fields demo_snapshot prepareArtifact_def run_env_def assertWithinCeilings_def bindE_def)
qed (simp_all add: demo_fields demo_started_def demo_db_facts demo_secret)

section \<open>Runs nobody asked for\<close>

context backup_world
begin

lemma mint_keeps: "keeps snap (mintUserAccessToken (rn_grants R) u)" "keeps objects (mintUserAccessToken (rn_grants R) u)"
proof -
  have "keeps objects (cl_findOne C u p)" "keeps snap (readOfflineToken (rn_grants R) u)" for p
    using read_grant_snap own_colls(4) by (simp_all add: keeps_def)
  then show "keeps snap (mintUserAccessToken (rn_grants R) u)" "keeps objects (mintUserAccessToken (rn_grants R) u)"
    unfolding mintUserAccessToken_def readOfflineToken_def own_colls
    by (auto intro!: keeps_intros idp_apart split: list.split json.split option.split sum.split)
qed

lemma scheduled_run:
  assumes "hit (jview (w_ext w)) jobId (\<lambda>d. jb_userId d = uid) = Some job"
  obtains r m2 where "fst (mintUserAccessToken (rn_grants R) uid (snd (cl_findOne J jobId (\<lambda>d. jb_userId d = uid) (w_ext w)))) = r"
    "snap m2 = snap (w_ext w)" "objects m2 = objects (w_ext w)"
    "runScheduledBackup R uid jobId w = (case r of
       Inr jwt \<Rightarrow> runBackup R \<lparr>rr_userId = uid, rr_jwt = jwt, rr_job = job, rr_trigger = ''scheduled''\<rparr>
     | Inl (OfflineTokenUnusableError message) \<Rightarrow> bindM (startRun Rn (rn_freshId R) (rn_started R) uid jobId ''scheduled'') (\<lambda>run.
         inExt (recordFailure R run message))
     | Inl err \<Rightarrow> throwM err) (w\<lparr>w_ext := m2\<rparr>)"
proof -
  let ?find = "cl_findOne J jobId (\<lambda>d. jb_userId d = uid)"
  define m1 where "m1 = snd (?find (w_ext w))"
  obtain r m2 where m: "mintUserAccessToken (rn_grants R) uid m1 = (r, m2)" by fastforce
  have f: "?find (w_ext w) = (Inr (Some job), m1)" using assms by (simp add: m1_def prod_eq_iff db_results)
  have "snap m1 = snap (w_ext w)" "objects m1 = objects (w_ext w)" by (simp_all add: m1_def snap_eq_iff db_views)
  moreover have "snap m2 = snap m1" "objects m2 = objects m1" using keepsD [OF mint_keeps(1) m] keepsD [OF mint_keeps(2) m] by simp_all
  moreover have "runScheduledBackup R uid jobId w = (case r of
       Inr jwt \<Rightarrow> runBackup R \<lparr>rr_userId = uid, rr_jwt = jwt, rr_job = job, rr_trigger = ''scheduled''\<rparr>
     | Inl (OfflineTokenUnusableError message) \<Rightarrow> bindM (startRun Rn (rn_freshId R) (rn_started R) uid jobId ''scheduled'') (\<lambda>run.
         inExt (recordFailure R run message))
     | Inl err \<Rightarrow> throwM err) (w\<lparr>w_ext := m2\<rparr>)"
    using f m by (simp add: runScheduledBackup_def own_colls bindM_run inExt_run attemptM_run)
  ultimately show ?thesis using that [of r m2] m by (simp add: m1_def)
qed

lemma failure_recorded:
  assumes "rview (w_ext w) (rn_freshId R) = None"
  shows "\<exists>d w'. bindM (startRun Rn (rn_freshId R) (rn_started R) uid jobId t) (\<lambda>run. inExt (recordFailure R run message)) w = (Inr d, w') \<and>
    br_status d = ''failed'' \<and> br_failureReason d = Some message \<and> br_artifactKey d = None \<and>
    rview (w_ext w') = (rview (w_ext w))(rn_freshId R \<mapsto> d) \<and> objects (w_ext w') = objects (w_ext w)"
proof -
  let ?run = "newRun (rn_freshId R) (rn_started R) uid jobId t"
  obtain w1 where s: "startRun Rn (rn_freshId R) (rn_started R) uid jobId t w = (Inr ?run, w1)"
    "rview (w_ext w1) = (rview (w_ext w))(rn_freshId R \<mapsto> ?run)" "objects (w_ext w1) = objects (w_ext w)"
    by (rule run_started [OF assms])
  then have "rview (w_ext w1) (rn_freshId R) = Some ?run" by simp
  note f = run_finished [OF this]
  show ?thesis using s
    by (simp add: io_simps recordFailure_def own_colls f)
      (simp add: patchRun_def failed_patch_def newRun_def keep_if_absent_def)
qed

end

text \<open>C13: an unattended run is a run as the absent user or none at all: with a token minted from that user's own
  permission it is the same backup a user would start; when the permission cannot be used, a failed run with the reason is recorded and
  nothing is read or written at the destination; any other failure of the mint, such as an identity provider that cannot be reached, is
  thrown, and no run is recorded.\<close>

theorem unattended_run_identity:
  assumes "backup_world J jview D dview Rn rview C cview R dst objects okKey" "rview (w_ext w) (rn_freshId R) = None"
    and "hit (jview (w_ext w)) jobId (\<lambda>d. jb_userId d = uid) = Some job"
  shows "case fst (mintUserAccessToken (rn_grants R) uid (snd (cl_findOne J jobId (\<lambda>d. jb_userId d = uid) (w_ext w)))) of
     Inr jwt \<Rightarrow> \<exists>m2. objects m2 = objects (w_ext w) \<and> runScheduledBackup R uid jobId w =
        runBackup R \<lparr>rr_userId = uid, rr_jwt = jwt, rr_job = job, rr_trigger = ''scheduled''\<rparr> (w\<lparr>w_ext := m2\<rparr>)
   | Inl err \<Rightarrow> (case runScheduledBackup R uid jobId w of
        (Inr d, w') \<Rightarrow> err = OfflineTokenUnusableError (the (br_failureReason d)) \<and> br_status d = ''failed'' \<and> br_artifactKey d = None \<and>
          rview (w_ext w') = (rview (w_ext w))(rn_freshId R \<mapsto> d) \<and> objects (w_ext w') = objects (w_ext w)
      | (Inl e, w') \<Rightarrow> e = err \<and> (\<forall>m. err \<noteq> OfflineTokenUnusableError m) \<and> rview (w_ext w') = rview (w_ext w) \<and>
          objects (w_ext w') = objects (w_ext w))"
proof -
  obtain r m2 where run: "fst (mintUserAccessToken (rn_grants R) uid (snd (cl_findOne J jobId (\<lambda>d. jb_userId d = uid) (w_ext w)))) = r"
    "db_snapshot jview dview rview cview m2 = db_snapshot jview dview rview cview (w_ext w)" "objects m2 = objects (w_ext w)"
    "runScheduledBackup R uid jobId w = (case r of
       Inr jwt \<Rightarrow> runBackup R \<lparr>rr_userId = uid, rr_jwt = jwt, rr_job = job, rr_trigger = ''scheduled''\<rparr>
     | Inl (OfflineTokenUnusableError message) \<Rightarrow> bindM (startRun Rn (rn_freshId R) (rn_started R) uid jobId ''scheduled'') (\<lambda>run.
         inExt (recordFailure R run message))
     | Inl err \<Rightarrow> throwM err) (w\<lparr>w_ext := m2\<rparr>)"
    by (rule backup_world.scheduled_run [OF assms(1,3)])
  have same: "rview m2 = rview (w_ext w)" using run(2) by (simp add: db_snapshot_def)
  show ?thesis
  proof (cases r)
    case (Inr jwt)
    then show ?thesis using run(1,3,4) by auto
  next
    case (Inl err)
    show ?thesis
    proof (cases "\<exists>m. err = OfflineTokenUnusableError m")
      case True
      then obtain m where m: "err = OfflineTokenUnusableError m" by blast
      then show ?thesis using run(1,3,4) Inl same
          backup_world.failure_recorded [OF assms(1), of "w\<lparr>w_ext := m2\<rparr>" uid jobId "''scheduled''" m] assms(2) by auto
    next
      case False
      then show ?thesis using run(1,3,4) Inl same by (cases err) simp_all
    qed
  qed
qed

theorem unattended_run_identity_witness:
  "\<exists>d w'. runScheduledBackup (demo_runner False) ''u'' ''j'' demo_started = (Inr d, w') \<and> br_status d = ''failed'' \<and>
    Inl (OfflineTokenUnusableError (the (br_failureReason d))) = (Inl unusableGrant :: exn + string)"
proof -
  have none: "fst (mintUserAccessToken (rn_grants (demo_runner False)) ''u'' m) = Inl unusableGrant" if "rf_configs m = []" for m
    using that by (simp add: mintUserAccessToken_def readOfflineToken_def demo_runner_def demo_grants_def refConfigs_def part_of_def
        on_part_def ref_coll_def hit_def bindM_run text_or_def)
  have job: "hit (doc_view (rf_jobs (w_ext demo_started))) ''j'' (\<lambda>d. jb_userId d = ''u'') = Some due_job"
    "doc_view (rf_runs (w_ext demo_started)) (rn_freshId (demo_runner False)) = None"
    "rf_configs (snd (cl_findOne refJobs ''j'' (\<lambda>d. jb_userId d = ''u'') (w_ext demo_started))) = []"
    by (simp_all add: hit_def demo_started_def run_db_def doc_view_def due_job_def demo_fields refJobs_def part_of_def on_part_def)
  show ?thesis
    using unattended_run_identity [OF demo_run.backup_world_axioms [of False] job(2,1)] none [OF job(3)]
    by (auto simp: unusableGrant_def split: prod.splits sum.splits)
qed

end
