(* ===== verification/Step_Up.thy ===== *)
theory Step_Up
  imports Error_Handler Offline_Token Js_Value
begin

text \<open>
  \<open>bff-server/account-step-up.ts\<close>: the proof of presence that has to precede the deletion of an account. The random
  bytes and the clock are arguments, the exchange of the code is a parameter over the external state. A parked
  request is unchecked JSON; a comparison with a number that is not there is false.
\<close>

definition STEP_UP_MAX_AGE_SECONDS :: int where "STEP_UP_MAX_AGE_SECONDS = 300"

record step_up_request =
  su_authorizationUrl :: string
  su_state :: string
  su_codeVerifier :: string
  su_redirectUri :: string

definition authorizeEndpoint :: "env \<Rightarrow> string" where
  "authorizeEndpoint E = keycloakPublicUrl E @ ''/realms/'' @ keycloakRealm E @ ''/protocol/openid-connect/auth''"

definition buildStepUpRequest :: "crypto \<Rightarrow> env \<Rightarrow> string \<Rightarrow> string \<Rightarrow> string \<Rightarrow> step_up_request" where
  "buildStepUpRequest C E verifierBytes stateBytes redirectUri =
    (let codeVerifier = base64url_encode verifierBytes;
         codeChallenge = base64url_encode (cr_sha256 C codeVerifier);
         state = base64url_encode stateBytes;
         params = [(''client_id'', keycloakClientId E), (''response_type'', ''code''), (''scope'', ''openid''),
           (''redirect_uri'', redirectUri), (''state'', state), (''code_challenge'', codeChallenge),
           (''code_challenge_method'', ''S256''), (''prompt'', ''login''), (''max_age'', ''0'')]
     in \<lparr>su_authorizationUrl = authorizeEndpoint E @ ''?'' @ search_params params, su_state = state,
         su_codeVerifier = codeVerifier, su_redirectUri = redirectUri\<rparr>)"

definition buildNativeStepUpRequest :: "string \<Rightarrow> string \<times> (string \<times> string) list" where
  "buildNativeStepUpRequest stateBytes =
     (base64url_encode stateBytes, [(''scope'', ''openid''), (''prompt'', ''login''), (''max_age'', ''0'')])"

section \<open>Verification\<close>

datatype rejection = NoPending | StateMismatch | SubjectMismatch | MissingAuthTime | StaleAuth

datatype step_up_verification = Proved string string | Refused rejection

record exchange_result =
  ex_idClaims :: json
  ex_accessToken :: string
  ex_refreshToken :: string

type_synonym 'x exchange = "string \<Rightarrow> string \<Rightarrow> string \<Rightarrow> ('x, exchange_result) io"

definition js_gt :: "json \<Rightarrow> json \<Rightarrow> bool" where
  "js_gt a b = (case (js_number a, js_number b) of (Some x, Some y) \<Rightarrow> y < x | _ \<Rightarrow> False)"

definition checkClaimsOf :: "int \<Rightarrow> string \<Rightarrow> json \<Rightarrow> exchange_result \<Rightarrow> step_up_verification" where
  "checkClaimsOf nowSeconds uid pending r =
    (if json_member (ex_idClaims r) ''sub'' \<noteq> JStr uid then Refused SubjectMismatch
     else (case json_member (ex_idClaims r) ''auth_time'' of
       JNum t \<Rightarrow>
         (let authTime = JNum t;
              withinWindow = js_gt_int authTime (nowSeconds - STEP_UP_MAX_AGE_SECONDS);
              advanced = js_gt authTime (json_member pending ''authTimeFloor'') in
          if \<not> withinWindow \<or> \<not> advanced then Refused StaleAuth else Proved (ex_accessToken r) (ex_refreshToken r))
     | _ \<Rightarrow> Refused MissingAuthTime))"

definition verifyStepUpProof ::
    "'r redis \<Rightarrow> int \<Rightarrow> int \<Rightarrow> string \<Rightarrow> string \<Rightarrow> json \<Rightarrow> 'x exchange \<Rightarrow> json \<Rightarrow> json \<Rightarrow>
     ('r, 'x, step_up_verification) act" where
  "verifyStepUpProof R now nowSeconds uid code state exchange clientCodeVerifier clientRedirectUri =
     bindM (inRedis (takePendingAccountDeletion R now uid)) (\<lambda>stored. case text_or stored [] of
       [] \<Rightarrow> returnM (Refused NoPending)
     | c # cs \<Rightarrow>
       bindM (liftE (parseJson (c # cs))) (\<lambda>pending.
       bindM (liftE (member pending ''state'')) (\<lambda>parked.
       if \<not> js_strict_eq state parked then returnM (Refused StateMismatch)
       else (let native = js_truthy (json_member pending ''native'');
                 codeVerifier = (if native then clientCodeVerifier else json_member pending ''codeVerifier'');
                 redirectUri = (if native then clientRedirectUri else json_member pending ''redirectUri'') in
         if \<not> js_truthy codeVerifier \<or> \<not> js_truthy redirectUri then returnM (Refused StateMismatch)
         else bindM (inExt (exchange code (js_to_string codeVerifier) (js_to_string redirectUri))) (\<lambda>r.
              returnM (checkClaimsOf nowSeconds uid pending r))))))"

section \<open>Properties\<close>

lemma checkClaimsOf_Proved:
  assumes "checkClaimsOf nowSeconds uid pending r = Proved a f"
  shows "json_member (ex_idClaims r) ''sub'' = JStr uid \<and> a = ex_accessToken r \<and> f = ex_refreshToken r \<and>
    (\<exists>t q. json_member (ex_idClaims r) ''auth_time'' = JNum t \<and> js_parse_float t = Some q \<and> of_int nowSeconds - q < 300 \<and>
       (\<exists>p. js_number (json_member pending ''authTimeFloor'') = Some p \<and> p < q))"
  using assms
  by (auto simp: checkClaimsOf_def Let_def js_gt_int_def js_gt_def js_number_def [of "JNum _"] STEP_UP_MAX_AGE_SECONDS_def
      split: if_splits json.splits option.splits)


text \<open>C7: a step-up succeeds only for a request this very user has parked, with the parked state and, unless
  the record itself was parked as native, the parked verifier and address; the identity provider vouched for the same user, who
  authenticated less than 300 seconds ago and later than the floor of the request. Whatever the outcome, the request is used up: the next
  attempt finds none.\<close>

theorem step_up_proof_fresh_single_use:
  assumes "redis_up R view order" "kinds_ok (view (w_redis w))"
    and "verifyStepUpProof R t n uid code state exchange cv cr w = (r, w')"
  shows "fst (verifyStepUpProof R t n2 uid code2 state2 exchange2 cv2 cr2 w') = Inr (Refused NoPending) \<and>
    (\<forall>a f. r = Inr (Proved a f) \<longrightarrow> (\<exists>parked pending verifier uri res m m' q p.
       text_at t (view (w_redis w)) (accountDeleteKey uid) = Some parked \<and> json_parse parked = Some pending \<and>
       js_strict_eq state (json_member pending ''state'') \<and> exchange code verifier uri m = (Inr res, m') \<and>
       (\<not> js_truthy (json_member pending ''native'') \<longrightarrow> verifier = js_to_string (json_member pending ''codeVerifier'') \<and>
          uri = js_to_string (json_member pending ''redirectUri'')) \<and>
       json_member (ex_idClaims res) ''sub'' = JStr uid \<and> js_number (json_member (ex_idClaims res) ''auth_time'') = Some q \<and>
       js_number (json_member pending ''authTimeFloor'') = Some p \<and> p < q \<and> of_int n - q < 300 \<and>
       a = ex_accessToken res \<and> f = ex_refreshToken res))"
proof -
  let ?take = "takePendingAccountDeletion R t uid"
  define s1 where "s1 = snd (?take (w_redis w))"
  note took = redis_up.takePendingAccountDeletion_ok [OF assms(1,2), where t = t and uid = uid]
  have first: "inRedis ?take w = (Inr (text_at t (view (w_redis w)) (accountDeleteKey uid)), w\<lparr>w_redis := s1\<rparr>)"
    using took(1) by (simp add: inRedis_run s1_def)
  have "w_redis w' = s1"
    using assms(3) first
    by (auto simp: verifyStepUpProof_def bindM_run inExt_run Let_def split: list.splits if_splits sum.splits)
  then have again: "fst (?take (w_redis w')) = Inr None"
    using redis_up.takePendingAccountDeletion_ok(1) [OF assms(1) took(2), where t = t and uid = uid] took(3) by (simp add: s1_def)
  have used: "fst (verifyStepUpProof R t n2 uid code2 state2 exchange2 cv2 cr2 w') = Inr (Refused NoPending)"
    by (simp add: verifyStepUpProof_def bindM_run inRedis_run again text_or_def)
  have "\<exists>parked pending verifier uri res m m'.
       text_at t (view (w_redis w)) (accountDeleteKey uid) = Some parked \<and> json_parse parked = Some pending \<and>
       js_strict_eq state (json_member pending ''state'') \<and> exchange code verifier uri m = (Inr res, m') \<and>
       (\<not> js_truthy (json_member pending ''native'') \<longrightarrow> verifier = js_to_string (json_member pending ''codeVerifier'') \<and>
          uri = js_to_string (json_member pending ''redirectUri'')) \<and> checkClaimsOf n uid pending res = Proved a f"
    if "r = Inr (Proved a f)" for a f
  proof -
    have "text_or (text_at t (view (w_redis w)) (accountDeleteKey uid)) [] \<noteq> []"
      using assms(3) first that by (auto simp: verifyStepUpProof_def)
    then obtain c cs where p: "text_at t (view (w_redis w)) (accountDeleteKey uid) = Some (c # cs)"
      by (cases "text_at t (view (w_redis w)) (accountDeleteKey uid)") (auto simp: text_or_def neq_Nil_conv split: if_splits)
    show ?thesis using assms(3) first that p
      by (auto simp: verifyStepUpProof_def text_or_def bindM_run inExt_run parseJson_def member_def Let_def prod_eq_iff
          split: if_splits sum.splits option.splits)
  qed
  then show ?thesis using used checkClaimsOf_Proved
    by (fastforce simp: js_number_def [of "JNum _"])
qed


definition parked_request :: json where
  "parked_request = JObj [(''state'', JStr ''s''), (''codeVerifier'', JStr ''v''), (''redirectUri'', JStr ''r''),
     (''authTimeFloor'', JNum ''100'')]"

definition parked_world :: "(kv, unit) world" where
  "parked_world = \<lparr>w_redis = (\<lambda>_. None)(accountDeleteKey ''u'' \<mapsto> \<lparr>e_val = RText (stringify parked_request), e_exp = None\<rparr>),
     w_audits = [], w_ext = ()\<rparr>"

definition fresh_login :: "unit exchange" where
  "fresh_login code verifier uri = returnM \<lparr>ex_idClaims = JObj [(''sub'', JStr ''u''), (''auth_time'', JNum ''200'')],
     ex_accessToken = ''a'', ex_refreshToken = ''f''\<rparr>"

lemma demo_proof: "fst (verifyStepUpProof ref_redis 0 300 ''u'' ''c'' (JStr ''s'') fresh_login JUndef JUndef parked_world) = Inr (Proved ''a'' ''f'')"
proof -
  have n: "js_parse_float ''200'' = Some 200" "js_parse_float ''100'' = Some 100" by code_simp+
  have p: "json_parse (stringify parked_request) = Some parked_request"
    by (rule json_parse_stringify) (simp add: parked_request_def number_token_def is_digit_def is_num_char_def)
  have "stringify parked_request \<noteq> []" by (simp add: parked_request_def)
  then obtain c cs where c: "stringify parked_request = c # cs" by (cases "stringify parked_request") auto
  have "text_at 0 (w_redis parked_world) (accountDeleteKey ''u'') = Some (c # cs)" by (simp add: parked_world_def text_at_def live_def c)
  moreover have "kinds_ok (w_redis parked_world)"
    by (auto simp: kinds_ok_def parked_world_def holds_set_def holds_text_def live_def)
  ultimately show ?thesis
    using ref.takePendingAccountDeletion_ok(1) [of "w_redis parked_world" 0 "''u''"] p unfolding c
    by (simp add: verifyStepUpProof_def bindM_run inRedis_run inExt_run text_or_def parseJson_def parked_request_def member_def json_member_def
        js_truthy_def fresh_login_def checkClaimsOf_def js_gt_int_def js_gt_def js_number_def n STEP_UP_MAX_AGE_SECONDS_def Let_def)
qed

theorem step_up_proof_fresh_single_use_witness:
  "\<exists>w'. verifyStepUpProof ref_redis 0 300 ''u'' ''c'' (JStr ''s'') fresh_login JUndef JUndef parked_world = (Inr (Proved ''a'' ''f''), w') \<and>
    fst (verifyStepUpProof ref_redis 0 300 ''u'' ''c'' (JStr ''s'') fresh_login JUndef JUndef w') = Inr (Refused NoPending)"
proof -
  have k: "kinds_ok (w_redis parked_world)" by (auto simp: kinds_ok_def parked_world_def holds_set_def holds_text_def live_def)
  obtain w' where "verifyStepUpProof ref_redis 0 300 ''u'' ''c'' (JStr ''s'') fresh_login JUndef JUndef parked_world = (Inr (Proved ''a'' ''f''), w')"
    using demo_proof by (metis prod.collapse)
  with step_up_proof_fresh_single_use [OF ref.redis_up_axioms k this] show ?thesis by blast
qed

end
