(* ===== verification/Account_Deletion.thy ===== *)
theory Account_Deletion
  imports Step_Up Destination_Driver Mc_Client
begin

text \<open>
  \<open>bff-server/account-deletion.ts\<close>: the ordered erasure of an account. The steps are a record of operations, as in the
  source, and \<open>defaultSteps\<close> binds them to the operations of the other components. The documents, the movie service and
  the network are one state behind the identity provider's client; \<open>withNet\<close> runs an operation of theirs in the world of a
  request. The catch block of the source, which audits the step that failed, is attached to each step (\<open>atStep\<close>).
\<close>

definition DELETION_STEPS :: "string list" where
  "DELETION_STEPS = [''tearDownUserBackups'', ''deleteCollections'', ''removeAgentConfig'', ''clearTransientState'',
     ''terminateSessions'', ''logoutIdpSessions'', ''deleteIdentity'']"

record ('r, 'x) deletion_steps =
  dl_tearDownUserBackups :: "string \<Rightarrow> ('r, 'x, unit) act"
  dl_deleteCollections :: "string \<Rightarrow> string \<Rightarrow> ('r, 'x, int) act"
  dl_removeAgentConfig :: "string \<Rightarrow> ('r, 'x, unit) act"
  dl_clearTransientState :: "string \<Rightarrow> ('r, 'x, unit) act"
  dl_terminateSessions :: "string \<Rightarrow> ('r, 'x, unit) act"
  dl_logoutIdpSessions :: "string \<Rightarrow> ('r, 'x, unit) act"
  dl_deleteIdentity :: "string \<Rightarrow> ('r, 'x, unit) act"
  dl_revokeStepUpToken :: "string \<Rightarrow> ('r, 'x, unit) act"

section \<open>The steps\<close>

definition collection_path :: "json \<Rightarrow> string" where
  "collection_path i = ''/api/v1/collections/'' @ encodeURIComponent (js_to_string i)"

fun deleteEachCollection :: "'x mc_client \<Rightarrow> int \<Rightarrow> json list \<Rightarrow> ('x, int) io" where
  "deleteEachCollection M deleted [] = returnM deleted"
| "deleteEachCollection M deleted (c # cs) = bindM (liftE (member c ''id'')) (\<lambda>i.
     thenM (catchM (thenM (mc_delete M (collection_path i)) (returnM ()))
       (\<lambda>err. if response_status err = Some 404 then returnM () else throwM err))
     (deleteEachCollection M (deleted + 1) cs))"

definition deleteCollections :: "(string \<Rightarrow> 'x mc_client) \<Rightarrow> string \<Rightarrow> ('x, int) io" where
  "deleteCollections mk token = (let M = mk token in
     bindM (mc_get M ''/api/v1/collections'' []) (\<lambda>data.
     deleteEachCollection M 0 (case data of JArr collections \<Rightarrow> collections | _ \<Rightarrow> [])))"

definition clearTransientState :: "'r redis \<Rightarrow> int \<Rightarrow> string \<Rightarrow> ('r, unit) io" where
  "clearTransientState R now uid =
     thenM (invalidateUserProfile R now uid)
    (thenM (clearAgentUiSnapshot R now uid)
    (thenM (clearAgentImportFile R now uid)
    (thenM (takeBackupConsentRequest R now uid) (returnM ()))))"

definition inNet :: "('m, 'a) io \<Rightarrow> ('r, 'm idp, 'a) act" where
  "inNet m = inExt (on_part idp_http idp_http_update m)"

definition withNet :: "('r, 'm, 'a) act \<Rightarrow> ('r, 'm idp, 'a) act" where
  "withNet m = (\<lambda>w. let q = m \<lparr>w_redis = w_redis w, w_audits = w_audits w, w_ext = idp_http (w_ext w)\<rparr> in
     (fst q, w\<lparr>w_redis := w_redis (snd q), w_audits := w_audits (snd q), w_ext := (w_ext w)\<lparr>idp_http := w_ext (snd q)\<rparr>\<rparr>))"

record ('r, 'm) account_ctx =
  ad_redis :: "'r redis"
  ad_now :: int
  ad_kc :: "'m kc_ctx"
  ad_grants :: "'m grants"
  ad_dests :: "('m, destination) coll"
  ad_jobs :: "('m, job) coll"
  ad_runs :: "('m, backup_run) coll"
  ad_client :: "string \<Rightarrow> 'm mc_client"

definition defaultSteps :: "('r, 'm) account_ctx \<Rightarrow> ('r, 'm idp) deletion_steps" where
  "defaultSteps X = \<lparr>
     dl_tearDownUserBackups = (\<lambda>uid. withNet (tearDownUserBackups (ad_grants X) (revokeOfflineTokenAtIdp (ad_grants X))
        (ad_dests X) (ad_jobs X) (ad_runs X) uid)),
     dl_deleteCollections = (\<lambda>uid token. inNet (deleteCollections (ad_client X) token)),
     dl_removeAgentConfig = (\<lambda>uid. inNet (removeConfig (gr_configs (ad_grants X)) uid)),
     dl_clearTransientState = (\<lambda>uid. inRedis (clearTransientState (ad_redis X) (ad_now X) uid)),
     dl_terminateSessions = (\<lambda>uid. inRedis (terminateAllSessions (ad_redis X) (ad_now X) uid)),
     dl_logoutIdpSessions = (\<lambda>uid. inExt (logoutUserSessions (ad_kc X) uid)),
     dl_deleteIdentity = (\<lambda>uid. inExt (deleteUser (ad_kc X) uid)),
     dl_revokeStepUpToken = (\<lambda>token. inExt (revokeToken (ad_kc X) token ''refresh_token''))\<rparr>"

section \<open>The pipeline\<close>

definition atStep :: "string \<Rightarrow> string \<Rightarrow> ('r, 'x, 'a) act \<Rightarrow> ('r, 'x, 'a) act" where
  "atStep uid step run = catchM run (\<lambda>err.
     thenM (auditM ''account_deletion_failed'' [(''userId'', uid), (''step'', step)]) (throwM err))"

definition runAccountDeletion :: "('r, 'x) deletion_steps \<Rightarrow> string \<Rightarrow> string \<Rightarrow> string \<Rightarrow> ('r, 'x, int) act" where
  "runAccountDeletion S uid token renewal_token = finallyM
     (thenM (atStep uid ''tearDownUserBackups'' (dl_tearDownUserBackups S uid))
     (bindM (atStep uid ''deleteCollections'' (dl_deleteCollections S uid token)) (\<lambda>collectionsDeleted.
      thenM (atStep uid ''removeAgentConfig'' (dl_removeAgentConfig S uid))
     (thenM (atStep uid ''clearTransientState'' (dl_clearTransientState S uid))
     (thenM (atStep uid ''terminateSessions'' (dl_terminateSessions S uid))
     (thenM (atStep uid ''logoutIdpSessions'' (dl_logoutIdpSessions S uid))
     (thenM (atStep uid ''deleteIdentity'' (dl_deleteIdentity S uid))
     (thenM (auditM ''account_deletion_completed'' [(''userId'', uid), (''collectionsDeleted'', show_int collectionsDeleted)])
            (returnM collectionsDeleted)))))))))
     (quietly (dl_revokeStepUpToken S renewal_token))"

section \<open>The order\<close>

text \<open>The reference: a list of named steps run until the first that fails.\<close>

fun runUntil :: "(string \<times> ('s, unit) io) list \<Rightarrow> 's \<Rightarrow> (string \<times> exn) option \<times> 's" where
  "runUntil [] s = (None, s)"
| "runUntil ((nm, m) # ms) s = (case fst (m s) of Inl e \<Rightarrow> (Some (nm, e), snd (m s)) | Inr u \<Rightarrow> runUntil ms (snd (m s)))"

definition deletionPlan :: "('r, 'x) deletion_steps \<Rightarrow> string \<Rightarrow> string \<Rightarrow> (string \<times> ('r, 'x, unit) act) list" where
  "deletionPlan S uid token = [(''tearDownUserBackups'', dl_tearDownUserBackups S uid),
     (''deleteCollections'', thenM (dl_deleteCollections S uid token) (returnM ())),
     (''removeAgentConfig'', dl_removeAgentConfig S uid), (''clearTransientState'', dl_clearTransientState S uid),
     (''terminateSessions'', dl_terminateSessions S uid), (''logoutIdpSessions'', dl_logoutIdpSessions S uid),
     (''deleteIdentity'', dl_deleteIdentity S uid)]"

definition audited :: "string \<Rightarrow> (string \<times> string) list \<Rightarrow> ('r, 'x) world \<Rightarrow> ('r, 'x) world" where
  "audited n fs w = w\<lparr>w_audits := w_audits w @ [\<lparr>au_name = n, au_fields = fs\<rparr>]\<rparr>"

lemma atStep_run:
  "atStep uid step m w = (case fst (m w) of Inl e \<Rightarrow> (Inl e, audited ''account_deletion_failed'' [(''userId'', uid), (''step'', step)] (snd (m w)))
     | Inr x \<Rightarrow> (Inr x, snd (m w)))"
  by (simp add: atStep_def catchM_run bindM_run auditM_run audited_def split: sum.split)

text \<open>Steps whose results nobody reads, in a row.\<close>

fun inOrder :: "string \<Rightarrow> (string \<times> ('r, 'x, unit) act) list \<Rightarrow> ('r, 'x, 'a) act \<Rightarrow> ('r, 'x, 'a) act" where
  "inOrder uid [] k = k"
| "inOrder uid ((step, m) # ms) k = thenM (atStep uid step m) (inOrder uid ms k)"

lemma inOrder_runUntil:
  "inOrder uid ms k w = (case runUntil ms w of
     (Some (step, e), w1) \<Rightarrow> (Inl e, audited ''account_deletion_failed'' [(''userId'', uid), (''step'', step)] w1)
   | (None, w1) \<Rightarrow> k w1)"
proof (induction ms arbitrary: w)
  case (Cons p ms)
  obtain step m where p: "p = (step, m)" by fastforce
  obtain r w' where m: "m w = (r, w')" by fastforce
  show ?case using Cons.IH m unfolding p by (cases r) (simp_all add: bindM_run atStep_run)
qed simp

definition laterSteps :: "('r, 'x) deletion_steps \<Rightarrow> string \<Rightarrow> (string \<times> ('r, 'x, unit) act) list" where
  "laterSteps S uid = [(''removeAgentConfig'', dl_removeAgentConfig S uid), (''clearTransientState'', dl_clearTransientState S uid),
     (''terminateSessions'', dl_terminateSessions S uid), (''logoutIdpSessions'', dl_logoutIdpSessions S uid),
     (''deleteIdentity'', dl_deleteIdentity S uid)]"

lemma deletion_in_order:
  "runAccountDeletion S uid token rt = finallyM
     (thenM (atStep uid ''tearDownUserBackups'' (dl_tearDownUserBackups S uid))
     (bindM (atStep uid ''deleteCollections'' (dl_deleteCollections S uid token)) (\<lambda>n. inOrder uid (laterSteps S uid)
        (thenM (auditM ''account_deletion_completed'' [(''userId'', uid), (''collectionsDeleted'', show_int n)]) (returnM n)))))
     (quietly (dl_revokeStepUpToken S rt))"
  by (simp add: runAccountDeletion_def laterSteps_def)

lemma plan_split:
  "deletionPlan S uid token = (''tearDownUserBackups'', dl_tearDownUserBackups S uid) #
     (''deleteCollections'', thenM (dl_deleteCollections S uid token) (returnM ())) # laterSteps S uid"
  by (simp add: deletionPlan_def laterSteps_def)

section \<open>Properties\<close>

text \<open>C8: the deletion runs the published steps in the published order and none after the first that fails;
  a failure is audited with the name of its step and leaves with the step's own error, a success is audited with the count, and the
  step-up token is given up on every path, without its failure changing the outcome.\<close>

theorem deletion_follows_the_plan:
  "map fst (deletionPlan S uid token) = DELETION_STEPS \<and>
   (case runUntil (deletionPlan S uid token) w of
      (Some (step, e), w1) \<Rightarrow> runAccountDeletion S uid token rt w = (Inl e, snd (dl_revokeStepUpToken S rt
         (audited ''account_deletion_failed'' [(''userId'', uid), (''step'', step)] w1)))
    | (None, w1) \<Rightarrow> (\<exists>n. runAccountDeletion S uid token rt w = (Inr n, snd (dl_revokeStepUpToken S rt
         (audited ''account_deletion_completed'' [(''userId'', uid), (''collectionsDeleted'', show_int n)] w1)))))"
proof
  show "map fst (deletionPlan S uid token) = DELETION_STEPS" by (simp add: deletionPlan_def DELETION_STEPS_def)
  obtain r1 w1 where m1: "dl_tearDownUserBackups S uid w = (r1, w1)" by fastforce
  obtain r2 w2 where m2: "dl_deleteCollections S uid token w1 = (r2, w2)" by fastforce
  show "case runUntil (deletionPlan S uid token) w of
      (Some (step, e), w1) \<Rightarrow> runAccountDeletion S uid token rt w = (Inl e, snd (dl_revokeStepUpToken S rt
         (audited ''account_deletion_failed'' [(''userId'', uid), (''step'', step)] w1)))
    | (None, w1) \<Rightarrow> (\<exists>n. runAccountDeletion S uid token rt w = (Inr n, snd (dl_revokeStepUpToken S rt
         (audited ''account_deletion_completed'' [(''userId'', uid), (''collectionsDeleted'', show_int n)] w1))))"
  proof (cases r1)
    case (Inl e)
    then show ?thesis unfolding deletion_in_order plan_split
      using m1 by (simp add: finallyM_run quietly_run bindM_run atStep_run)
  next
    case r1: (Inr u)
    show ?thesis
    proof (cases r2)
      case (Inl e)
      then show ?thesis unfolding deletion_in_order plan_split
        using m1 m2 r1 by (simp add: finallyM_run quietly_run bindM_run atStep_run)
    next
      case (Inr n)
      then show ?thesis unfolding deletion_in_order plan_split
        using m1 m2 r1 by (auto simp: finallyM_run quietly_run bindM_run atStep_run inOrder_runUntil audited_def auditM_run
            split: prod.split option.split)
    qed
  qed
qed


section \<open>What survives a deletion\<close>

lemma unknown_ids_count:
  assumes "\<And>m. colls m = v \<Longrightarrow> \<exists>ti m'. mc_delete M ''/api/v1/collections/undefined'' m = (Inl (HttpError 404 ti), m') \<and> colls m' = v"
    and "\<forall>c \<in> set cs. member c ''id'' = Inr JUndef" "colls m = v"
  shows "\<exists>m'. deleteEachCollection M n cs m = (Inr (n + int (length cs)), m') \<and> colls m' = v"
  using assms(2,3)
proof (induction cs arbitrary: n m)
  case (Cons c cs)
  obtain ti m1 where d: "mc_delete M ''/api/v1/collections/undefined'' m = (Inl (HttpError 404 ti), m1)" "colls m1 = v"
    using assms(1) Cons.prems(2) by blast
  obtain m2 where "deleteEachCollection M (n + 1) cs m1 = (Inr (n + 1 + int (length cs)), m2)" "colls m2 = v"
    using Cons.IH [OF _ d(2), of "n + 1"] Cons.prems(1) by auto
  moreover have "collection_path JUndef = ''/api/v1/collections/undefined''"
    by (simp add: collection_path_def encodeURIComponent_def uri_unreserved_def)
  ultimately show ?case using Cons.prems d
    by (simp add: bindM_run catchM_run response_status_def algebra_simps)
qed simp

text \<open>C9: the movie service names the id of a listed collection \<open>collectionId\<close>, the step reads \<open>id\<close>; so
  the deletion of every collection asks for the collection \<open>undefined\<close>, the answer 404 counts as done, and the step reports that
  all collections are deleted while every one of them is still there.\<close>

theorem collections_survive_deletion:
  assumes "mc_get (ad_client X token) ''/api/v1/collections'' [] (idp_http (w_ext w)) = (Inr (JArr cs), m1)"
    and "colls m1 = colls (idp_http (w_ext w))" "\<forall>c \<in> set cs. member c ''id'' = Inr JUndef"
    and "\<And>m. colls m = colls (idp_http (w_ext w)) \<Longrightarrow> \<exists>ti m'.
      mc_delete (ad_client X token) ''/api/v1/collections/undefined'' m = (Inl (HttpError 404 ti), m') \<and> colls m' = colls (idp_http (w_ext w))"
  shows "\<exists>w'. dl_deleteCollections (defaultSteps X) uid token w = (Inr (int (length cs)), w') \<and>
    colls (idp_http (w_ext w')) = colls (idp_http (w_ext w))"
proof -
  obtain m2 where "deleteEachCollection (ad_client X token) 0 cs m1 = (Inr (0 + int (length cs)), m2)" "colls m2 = colls (idp_http (w_ext w))"
    using unknown_ids_count [OF assms(4,3,2), of 0] by blast
  with assms(1) show ?thesis
    by (simp add: defaultSteps_def inNet_def inExt_run on_part_def deleteCollections_def Let_def)
qed

definition service_answers :: "string list mc_client" where
  "service_answers = \<lparr>mc_get = (\<lambda>p ps ids. (Inr (JArr (map (\<lambda>i. JObj [(''collectionId'', JStr i), (''name'', JStr i)]) ids)), ids)),
     mc_post = (\<lambda>p j ids. (Inl typeError, ids)),
     mc_delete = (\<lambda>p ids. if p \<in> (\<lambda>i. ''/api/v1/collections/'' @ i) ` set ids then (Inr JUndef, filter (\<lambda>i. p \<noteq> ''/api/v1/collections/'' @ i) ids)
        else (Inl (HttpError 404 None), ids))\<rparr>"


definition two_kept :: "(unit, string list idp) world" where
  "two_kept = \<lparr>w_redis = (), w_audits = [],
     w_ext = \<lparr>idp_discovery = None, idp_ensured = [], idp_jwks = None, idp_jwks_time = 0, idp_http = [''c1'', ''c2'']\<rparr>\<rparr>"

theorem collections_survive_deletion_witness:
  "\<forall>X :: (unit, string list) account_ctx. \<exists>w'.
     dl_deleteCollections (defaultSteps (X\<lparr>ad_client := (\<lambda>_. service_answers)\<rparr>)) ''u'' ''t'' two_kept = (Inr 2, w') \<and>
     idp_http (w_ext w') = [''c1'', ''c2'']"
proof
  fix X :: "(unit, string list) account_ctx"
  let ?cs = "map (\<lambda>i. JObj [(''collectionId'', JStr i), (''name'', JStr i)]) [''c1'', ''c2'']"
  have "\<exists>w'. dl_deleteCollections (defaultSteps (X\<lparr>ad_client := (\<lambda>_. service_answers)\<rparr>)) ''u'' ''t'' two_kept = (Inr (int (length ?cs)), w') \<and>
     idp_http (w_ext w') = idp_http (w_ext two_kept)"
  proof (rule collections_survive_deletion [where ?m1.0 = "[''c1'', ''c2'']" and colls = "\<lambda>m. m"])
    show "mc_get (ad_client (X\<lparr>ad_client := (\<lambda>_. service_answers)\<rparr>) ''t'') ''/api/v1/collections'' [] (idp_http (w_ext two_kept)) =
      (Inr (JArr ?cs), [''c1'', ''c2''])" by (simp add: service_answers_def two_kept_def)
    show "[''c1'', ''c2''] = idp_http (w_ext two_kept)" by (simp add: two_kept_def)
    show "\<forall>c \<in> set ?cs. member c ''id'' = Inr JUndef" by (simp add: member_def json_member_def)
    fix m assume "m = idp_http (w_ext two_kept)"
    then show "\<exists>ti m'. mc_delete (ad_client (X\<lparr>ad_client := (\<lambda>_. service_answers)\<rparr>) ''t'') ''/api/v1/collections/undefined'' m =
      (Inl (HttpError 404 ti), m') \<and> m' = idp_http (w_ext two_kept)" by (simp add: service_answers_def two_kept_def)
  qed
  then show "\<exists>w'. dl_deleteCollections (defaultSteps (X\<lparr>ad_client := (\<lambda>_. service_answers)\<rparr>)) ''u'' ''t'' two_kept = (Inr 2, w') \<and>
     idp_http (w_ext w') = [''c1'', ''c2'']" by (simp add: two_kept_def)
qed

end
