(* ===== verification/Account_Routes.thy ===== *)
theory Account_Routes
  imports Account_Deletion
begin

text \<open>
  The routes of an account's deletion: \<open>app/bff-api/account/delete-challenge+api.ts\<close>, \<open>app/bff-api/account/delete+api.ts\<close> and
  \<open>bff-server/account-route-support.ts\<close>. A request comes as its headers, its query values and the text of its body; the
  origin of its address and the random bytes are arguments. Log lines are diagnostic and dropped, audits are kept.
\<close>

definition ACCOUNT_SETTINGS_PATH :: string where "ACCOUNT_SETTINGS_PATH = ''/settings/account''"
definition ACCOUNT_DELETED_PATH :: string where "ACCOUNT_DELETED_PATH = ''/account-deleted''"

definition deletionCallbackUri :: "string \<Rightarrow> string" where
  "deletionCallbackUri origin = origin @ ''/bff-api/account/delete''"

definition problemResponse :: "string \<Rightarrow> int \<Rightarrow> string option \<Rightarrow> response" where
  "problemResponse title status detail = \<lparr>rp_status = status,
     rp_body = JObj ([(''type'', JStr ''about:blank''), (''title'', JStr title), (''status'', JNum (show_int status))]
       @ (if text_or detail [] = [] then [] else [(''detail'', JStr (text_or detail []))])),
     rp_headers = securityHeaders @ [(''Content-Type'', ''application/problem+json'')]\<rparr>"

definition errorStatus :: "exn \<Rightarrow> int" where
  "errorStatus err = (case err of RateLimitError n \<Rightarrow> 429 | AuthError a \<Rightarrow> ae_status a | HttpError st t \<Rightarrow> st | _ \<Rightarrow> 500)"

definition redirectTo :: "string \<Rightarrow> string list \<Rightarrow> response" where
  "redirectTo location extraCookies = \<lparr>rp_status = 302, rp_body = JNull,
     rp_headers = securityHeaders @ [(''Location'', location)] @ map (\<lambda>c. (''Set-Cookie'', c)) extraCookies\<rparr>"

section \<open>The context of a request\<close>

record ('r, 'm) route_ctx =
  rx_renewal :: "('r, 'm) renewal"
  rx_others :: "nat \<Rightarrow> ('r, 'm idp) world \<Rightarrow> ('r, 'm idp) world"
  rx_now :: int
  rx_trust :: bool

definition route_env :: "('r, 'm) route_ctx \<Rightarrow> env" where "route_env X = kcx_env (rn_kc (rx_renewal X))"

definition signedIn :: "('r, 'm) route_ctx \<Rightarrow> (string \<Rightarrow> header_value option) \<Rightarrow> ('r, 'm idp, caller) act" where
  "signedIn X headers = bindM (requireAuth (rx_renewal X) (rx_others X) (rx_now X) headers) (\<lambda>c.
     thenM (liftE (requireMcUser (ca_user c))) (returnM c))"

definition ipField :: "string option \<Rightarrow> (string \<times> string) list" where
  "ipField ip = (case ip of Some i \<Rightarrow> [(''ip'', i)] | None \<Rightarrow> [])"

fun rejection_text :: "rejection \<Rightarrow> string" where
  "rejection_text NoPending = ''no_pending''"
| "rejection_text StateMismatch = ''state_mismatch''"
| "rejection_text SubjectMismatch = ''subject_mismatch''"
| "rejection_text MissingAuthTime = ''missing_auth_time''"
| "rejection_text StaleAuth = ''stale_auth''"

definition auditRejected :: "string \<Rightarrow> string option \<Rightarrow> rejection \<Rightarrow> ('r, 'x, unit) act" where
  "auditRejected uid ip reason = auditM ''account_deletion_reauth_rejected''
     ((''userId'', uid) # ipField ip @ [(''reason'', rejection_text reason)])"

definition stepUpExchange :: "'m kc_ctx \<Rightarrow> 'm idp exchange" where
  "stepUpExchange K code codeVerifier redirectUri =
     bindM (exchangeCodeForTokens K code codeVerifier redirectUri) (\<lambda>tokens.
     bindM (liftE (decodeJwtPayload (id_token tokens))) (\<lambda>claims.
     returnM \<lparr>ex_idClaims = (if claims = JNull then JObj [] else claims), ex_accessToken = access_token tokens,
        ex_refreshToken = refresh_token tokens\<rparr>))"


section \<open>The destructive routes\<close>

text \<open>What verification and erasure made of a request: refused, broken before a verdict, not deleted, or deleted.\<close>

datatype deletion_outcome = Unconfirmed rejection | Broken | NotDeleted | Deleted

definition verifyThenDelete ::
    "('r, 'm) route_ctx \<Rightarrow> ('r, 'm idp) deletion_steps \<Rightarrow> string \<Rightarrow> string \<Rightarrow> json \<Rightarrow> json \<Rightarrow> json \<Rightarrow>
     ('r, 'm idp, deletion_outcome) act" where
  "verifyThenDelete X S uid code state clientCodeVerifier clientRedirectUri =
     bindM (attemptM (verifyStepUpProof (rn_redis (rx_renewal X)) (rx_now X) (rx_now X div 1000) uid code state
        (stepUpExchange (rn_kc (rx_renewal X))) clientCodeVerifier clientRedirectUri)) (\<lambda>proof. case proof of
       Inl err \<Rightarrow> returnM Broken
     | Inr (Refused reason) \<Rightarrow> returnM (Unconfirmed reason)
     | Inr (Proved token renewal_token) \<Rightarrow>
         bindM (attemptM (runAccountDeletion S uid token renewal_token)) (\<lambda>done. case done of
           Inl err \<Rightarrow> returnM NotDeleted | Inr n \<Rightarrow> returnM Deleted))"

definition settingsError :: "string \<Rightarrow> response" where
  "settingsError reason = redirectTo (ACCOUNT_SETTINGS_PATH @ ''?error='' @ reason) []"

definition deleteAccount ::
    "('r, 'm) route_ctx \<Rightarrow> ('r, 'm idp) deletion_steps \<Rightarrow> (string \<Rightarrow> header_value option) \<Rightarrow> string option \<Rightarrow> string option \<Rightarrow>
     ('r, 'm idp, response) act" where
  "deleteAccount X S headers code state = (let ip = extractClientIp headers (rx_trust X) in
     bindM (attemptM (signedIn X headers)) (\<lambda>auth. case auth of
       Inl err \<Rightarrow> returnM (problemResponse ''Not signed in'' (errorStatus err) None)
     | Inr c \<Rightarrow> (let uid = up_id (ca_user c) in
         if text_or code [] = [] \<or> text_or state [] = []
         then thenM (auditRejected uid ip NoPending) (returnM (settingsError ''expired''))
         else bindM (verifyThenDelete X S uid (text_or code []) (JStr (text_or state [])) JUndef JUndef) (\<lambda>result. case result of
            Broken \<Rightarrow> returnM (settingsError ''reauth'')
          | Unconfirmed reason \<Rightarrow> thenM (auditRejected uid ip reason)
              (returnM (settingsError (if reason = NoPending then ''expired'' else ''reauth'')))
          | NotDeleted \<Rightarrow> returnM (settingsError ''failed'')
          | Deleted \<Rightarrow> returnM (redirectTo ACCOUNT_DELETED_PATH (buildClearAuthCookies (route_env X)))))))"

definition unconfirmed :: response where
  "unconfirmed = problemResponse ''We could not confirm it was you'' 401 (Some ''Your account has not been deleted.'')"

definition parsedBody :: "json \<Rightarrow> string \<Rightarrow> json" where
  "parsedBody fallback body = (case json_parse body of Some j \<Rightarrow> j | None \<Rightarrow> fallback)"

definition deleteAccountNative ::
    "('r, 'm) route_ctx \<Rightarrow> ('r, 'm idp) deletion_steps \<Rightarrow> (string \<Rightarrow> header_value option) \<Rightarrow> string \<Rightarrow> ('r, 'm idp, response) act" where
  "deleteAccountNative X S headers bodyText = (let ip = extractClientIp headers (rx_trust X) in
     bindM (attemptM (signedIn X headers)) (\<lambda>auth. case auth of
       Inl err \<Rightarrow> returnM (problemResponse ''Not signed in'' (errorStatus err) None)
     | Inr c \<Rightarrow> (let uid = up_id (ca_user c); body = parsedBody JNull bodyText; field = (\<lambda>k. json_member body k) in
         if \<not> (js_truthy (field ''code'') \<and> js_truthy (field ''state'') \<and> js_truthy (field ''codeVerifier'') \<and> js_truthy (field ''redirectUri''))
         then thenM (auditRejected uid ip NoPending)
           (returnM (problemResponse ''That request is no longer valid'' 400 (Some ''Start again from Settings.'')))
         else bindM (verifyThenDelete X S uid (js_to_string (field ''code'')) (field ''state'')
              (field ''codeVerifier'') (field ''redirectUri'')) (\<lambda>result. case result of
            Broken \<Rightarrow> returnM unconfirmed
          | Unconfirmed reason \<Rightarrow> thenM (auditRejected uid ip reason) (returnM unconfirmed)
          | NotDeleted \<Rightarrow> returnM (problemResponse ''Your account was not deleted'' 500 (Some ''Please try again.''))
          | Deleted \<Rightarrow> returnM \<lparr>rp_status = 200, rp_body = JObj [(''deleted'', JBool True)],
              rp_headers = securityHeaders @ map (\<lambda>c. (''Set-Cookie'', c)) (buildClearAuthCookies (route_env X))\<rparr>))))"

section \<open>The challenge\<close>

definition webParked :: "step_up_request \<Rightarrow> json \<Rightarrow> int \<Rightarrow> json" where
  "webParked q authTimeFloor nowSeconds = JObj [(''state'', JStr (su_state q)), (''codeVerifier'', JStr (su_codeVerifier q)),
     (''redirectUri'', JStr (su_redirectUri q)), (''authTimeFloor'', authTimeFloor), (''requestedAt'', JNum (show_int nowSeconds))]"

definition nativeParked :: "string \<Rightarrow> json \<Rightarrow> int \<Rightarrow> json" where
  "nativeParked state authTimeFloor nowSeconds = JObj [(''state'', JStr state), (''authTimeFloor'', authTimeFloor),
     (''requestedAt'', JNum (show_int nowSeconds)), (''native'', JBool True)]"

definition authTimeFloorOf :: "json \<Rightarrow> json" where
  "authTimeFloorOf payload = (case json_member payload ''auth_time'' of JNum t \<Rightarrow> JNum t | _ \<Rightarrow> JNum ''0'')"

definition okResponse :: "(string \<times> json) list \<Rightarrow> response" where
  "okResponse body = \<lparr>rp_status = 200, rp_body = JObj body, rp_headers = securityHeaders\<rparr>"

definition startStepUp ::
    "('r, 'm) route_ctx \<Rightarrow> crypto \<Rightarrow> string \<Rightarrow> string \<Rightarrow> string \<Rightarrow> string option \<Rightarrow> caller \<Rightarrow> json \<Rightarrow> ('r, 'm idp, response) act" where
  "startStepUp X C verifierBytes stateBytes origin ip c body =
    (let R = rn_redis (rx_renewal X); now = rx_now X; uid = up_id (ca_user c);
         authTimeFloor = authTimeFloorOf (ca_payload c) in
     if json_member body ''platform'' = JStr ''native''
     then (case buildNativeStepUpRequest stateBytes of (state, authorizationParams) \<Rightarrow>
        thenM (inRedis (setPendingAccountDeletion R now uid (stringify (nativeParked state authTimeFloor (now div 1000)))))
       (thenM (auditM ''account_deletion_requested'' ((''userId'', uid) # ipField ip @ [(''platform'', ''native'')]))
       (returnM (okResponse [(''state'', JStr state),
          (''authorizationParams'', JObj (map (\<lambda>(k, v). (k, JStr v)) authorizationParams))]))))
     else (let q = buildStepUpRequest C (route_env X) verifierBytes stateBytes (deletionCallbackUri origin) in
        thenM (inRedis (setPendingAccountDeletion R now uid (stringify (webParked q authTimeFloor (now div 1000)))))
       (thenM (auditM ''account_deletion_requested'' ((''userId'', uid) # ipField ip))
       (returnM (okResponse [(''authorizationUrl'', JStr (su_authorizationUrl q))])))))"

definition lastAdmin :: "('r, 'm) route_ctx \<Rightarrow> caller \<Rightarrow> ('r, 'm idp, bool) act" where
  "lastAdmin X c = (if isAdmin (ca_user c)
     then bindM (inExt (countUsersInClientRole (rn_kc (rx_renewal X)) MCAdmin)) (\<lambda>n. returnM (n \<le> 1))
     else returnM False)"

definition deleteChallenge ::
    "('r, 'm) route_ctx \<Rightarrow> crypto \<Rightarrow> string \<Rightarrow> string \<Rightarrow> string \<Rightarrow> (string \<Rightarrow> header_value option) \<Rightarrow> string \<Rightarrow>
     ('r, 'm idp, response) act" where
  "deleteChallenge X C verifierBytes stateBytes origin headers bodyText = (let ip = extractClientIp headers (rx_trust X) in
     catchM (thenM (checkAccountDeletionRateLimit (rn_redis (rx_renewal X)) (rx_now X) ip)
       (bindM (signedIn X headers) (\<lambda>c. bindM (lastAdmin X c) (\<lambda>last_one.
        if last_one
        then thenM (auditM ''account_deletion_refused_last_admin'' ((''userId'', up_id (ca_user c)) # ipField ip))
          (returnM (problemResponse ''You are the only administrator'' 409
             (Some ''Give another account the administrator role before deleting this one.'')))
        else startStepUp X C verifierBytes stateBytes origin ip c (parsedBody (JObj []) bodyText)))))
     (\<lambda>err. returnM (problemResponse ''Could not start account deletion'' (errorStatus err) None)))"

section \<open>Properties\<close>

lemma verifyThenDelete_cases:
  assumes "verifyThenDelete X S uid code state cv cr w = (r, w')"
  shows "(\<forall>T. verifyThenDelete X T uid code state cv cr w = (r, w')) \<or>
    (\<exists>a f w2. verifyStepUpProof (rn_redis (rx_renewal X)) (rx_now X) (rx_now X div 1000) uid code state
        (stepUpExchange (rn_kc (rx_renewal X))) cv cr w = (Inr (Proved a f), w2) \<and> w' = snd (runAccountDeletion S uid a f w2) \<and>
       r = Inr (case fst (runAccountDeletion S uid a f w2) of Inl e \<Rightarrow> NotDeleted | Inr n \<Rightarrow> Deleted))"
proof -
  obtain v w2 where v: "verifyStepUpProof (rn_redis (rx_renewal X)) (rx_now X) (rx_now X div 1000) uid code state
        (stepUpExchange (rn_kc (rx_renewal X))) cv cr w = (v, w2)" by fastforce
  have run: "verifyThenDelete X T uid code state cv cr w = (case v of
       Inl err \<Rightarrow> (Inr Broken, w2) | Inr (Refused reason) \<Rightarrow> (Inr (Unconfirmed reason), w2)
     | Inr (Proved a f) \<Rightarrow> (Inr (case fst (runAccountDeletion T uid a f w2) of Inl e \<Rightarrow> NotDeleted | Inr n \<Rightarrow> Deleted),
         snd (runAccountDeletion T uid a f w2)))" for T
    using v by (simp add: verifyThenDelete_def bindM_run attemptM_run split: sum.split step_up_verification.split)
  show ?thesis
  proof (cases "\<exists>a f. v = Inr (Proved a f)")
    case True
    then show ?thesis using run [of S] v assms by auto
  next
    case False
    then show ?thesis using run assms by (auto split: sum.splits step_up_verification.splits)
  qed
qed


text \<open>C6: the destructive route either never starts the erasure, and then neither its answer nor the state it
  leaves depends on the steps at all, or it runs them for the user of the live session, after a verified step-up of that very user.\<close>

theorem no_deletion_without_proof:
  "(\<forall>T. deleteAccount X T headers code state w = deleteAccount X S headers code state w) \<or>
   (\<exists>c w1 a f w2. signedIn X headers w = (Inr c, w1) \<and>
      verifyStepUpProof (rn_redis (rx_renewal X)) (rx_now X) (rx_now X div 1000) (up_id (ca_user c)) (text_or code []) (JStr (text_or state []))
        (stepUpExchange (rn_kc (rx_renewal X))) JUndef JUndef w1 = (Inr (Proved a f), w2) \<and>
      snd (deleteAccount X S headers code state w) = snd (runAccountDeletion S (up_id (ca_user c)) a f w2))"
proof -
  obtain r w1 where auth: "signedIn X headers w = (r, w1)" by fastforce
  show ?thesis
  proof (cases r)
    case (Inl e)
    then show ?thesis using auth by (simp add: deleteAccount_def bindM_run attemptM_run Let_def)
  next
    case c: (Inr c)
    let ?uid = "up_id (ca_user c)" and ?code = "text_or code []" and ?state = "text_or state []"
    let ?answer = "\<lambda>result. case result of
        Broken \<Rightarrow> returnM (settingsError ''reauth'')
      | Unconfirmed reason \<Rightarrow> thenM (auditRejected ?uid (extractClientIp headers (rx_trust X)) reason)
          (returnM (settingsError (if reason = NoPending then ''expired'' else ''reauth'')))
      | NotDeleted \<Rightarrow> returnM (settingsError ''failed'')
      | Deleted \<Rightarrow> returnM (redirectTo ACCOUNT_DELETED_PATH (buildClearAuthCookies (route_env X)))"
    show ?thesis
    proof (cases "?code = [] \<or> ?state = []")
      case True
      then show ?thesis using auth c by (simp add: deleteAccount_def bindM_run attemptM_run Let_def)
    next
      case False
      then have run: "deleteAccount X T headers code state w = bindM (verifyThenDelete X T ?uid ?code (JStr ?state) JUndef JUndef) ?answer w1" for T
        using auth c by (simp add: deleteAccount_def bindM_run [where s = w] attemptM_run Let_def)
      obtain q w' where v: "verifyThenDelete X S ?uid ?code (JStr ?state) JUndef JUndef w1 = (q, w')" by fastforce
      from verifyThenDelete_cases [OF v] show ?thesis
      proof
        assume same: "\<forall>T. verifyThenDelete X T ?uid ?code (JStr ?state) JUndef JUndef w1 = (q, w')"
        have "deleteAccount X T headers code state w = bindM (\<lambda>w. (q, w')) ?answer w1" for T
          unfolding run bindM_run same [rule_format] by (rule refl)
        note all = this
        show ?thesis by (rule disjI1) (simp only: all simp_thms)
      next
        assume "\<exists>a f w2. verifyStepUpProof (rn_redis (rx_renewal X)) (rx_now X) (rx_now X div 1000) ?uid ?code (JStr ?state)
            (stepUpExchange (rn_kc (rx_renewal X))) JUndef JUndef w1 = (Inr (Proved a f), w2) \<and> w' = snd (runAccountDeletion S ?uid a f w2) \<and>
          q = Inr (case fst (runAccountDeletion S ?uid a f w2) of Inl e \<Rightarrow> NotDeleted | Inr n \<Rightarrow> Deleted)"
        then obtain a f w2 where p: "verifyStepUpProof (rn_redis (rx_renewal X)) (rx_now X) (rx_now X div 1000) ?uid ?code (JStr ?state)
            (stepUpExchange (rn_kc (rx_renewal X))) JUndef JUndef w1 = (Inr (Proved a f), w2)" "w' = snd (runAccountDeletion S ?uid a f w2)"
          "q = Inr (case fst (runAccountDeletion S ?uid a f w2) of Inl e \<Rightarrow> NotDeleted | Inr n \<Rightarrow> Deleted)" by blast
        have "snd (deleteAccount X S headers code state w) = w'" unfolding run using v p(3) by (simp add: bindM_run split: sum.split)
        then show ?thesis using auth c p(1,2) by blast
      qed
    qed
  qed
qed

lemma webParked_members:
  "json_member (webParked q fl n) ''state'' = JStr (su_state q)" "json_member (webParked q fl n) ''native'' = JUndef"
  "json_member (webParked q fl n) ''codeVerifier'' = JStr (su_codeVerifier q)"
  "json_member (webParked q fl n) ''redirectUri'' = JStr (su_redirectUri q)" "json_member (webParked q fl n) ''authTimeFloor'' = fl"
  "webParked q fl n \<noteq> JNull" "webParked q fl n \<noteq> JUndef"
  by (simp_all add: webParked_def json_member_def)

lemma webParked_text: "plain_json fl \<Longrightarrow> \<exists>c cs. stringify (webParked q fl n) = c # cs \<and> json_parse (c # cs) = Some (webParked q fl n)"
proof -
  assume "plain_json fl"
  then have "plain_json (webParked q fl n)" by (simp add: webParked_def number_token_show_int)
  from json_parse_stringify [OF this] show ?thesis by (simp add: webParked_def)
qed

text \<open>C10: the request parked by the challenge is the one the callback finds: within its five minutes, with the
  parked state and a code whose exchange vouches for the same user, authenticated after the parked floor and less than 300 seconds ago, the
  verification succeeds with the tokens of that exchange.\<close>

theorem genuine_step_up_succeeds:
  assumes "redis_up R view order" "kinds_ok (view s0)" "t \<le> t2" "t2 < t + ACCOUNT_DELETE_TTL_SECONDS * 1000"
    and "setPendingAccountDeletion R t uid (stringify (webParked q fl n0)) s0 = (Inr (), w_redis w)"
    and "plain_json fl" "su_codeVerifier q \<noteq> []" "su_redirectUri q \<noteq> []"
    and "exchange code (su_codeVerifier q) (su_redirectUri q) (w_ext w) = (Inr res, x')"
    and "json_member (ex_idClaims res) ''sub'' = JStr uid" "json_member (ex_idClaims res) ''auth_time'' = JNum a"
    and "js_parse_float a = Some authenticated" "js_number fl = Some p" "p < authenticated" "of_int n - authenticated < 300"
  shows "fst (verifyStepUpProof R t2 n uid code (JStr (su_state q)) exchange cv cr w) = Inr (Proved (ex_accessToken res) (ex_refreshToken res))"
proof -
  obtain c cs where parked: "stringify (webParked q fl n0) = c # cs" "json_parse (c # cs) = Some (webParked q fl n0)"
    using webParked_text [OF assms(6)] by blast
  have "view (w_redis w) = put_text (accountDeleteKey uid) (c # cs) (Some (t + ACCOUNT_DELETE_TTL_SECONDS * 1000)) (view s0)"
    using redis_up.set_ex_view [OF assms(1), of ACCOUNT_DELETE_TTL_SECONDS t "accountDeleteKey uid" "c # cs" s0] assms(5)
    by (simp add: setPendingAccountDeletion_def parked(1) ACCOUNT_DELETE_TTL_SECONDS_def)
  then have stored: "text_at t2 (view (w_redis w)) (accountDeleteKey uid) = Some (c # cs)" "kinds_ok (view (w_redis w))"
    using assms(2,4) by simp_all
  define w1 where "w1 = w\<lparr>w_redis := snd (takePendingAccountDeletion R t2 uid (w_redis w))\<rparr>"
  have take: "inRedis (takePendingAccountDeletion R t2 uid) w = (Inr (Some (c # cs)), w1)"
    using redis_up.takePendingAccountDeletion_ok(1) [OF assms(1) stored(2), of t2 uid] stored(1) by (simp add: inRedis_run w1_def)
  have ext: "inExt (exchange code (su_codeVerifier q) (su_redirectUri q)) w1 = (Inr res, w1\<lparr>w_ext := x'\<rparr>)"
    using assms(9) by (simp add: inExt_run w1_def)
  have "checkClaimsOf n uid (webParked q fl n0) res = Proved (ex_accessToken res) (ex_refreshToken res)"
    using assms(10-15) by (simp add: checkClaimsOf_def webParked_members js_gt_int_def js_gt_def js_number_def [of "JNum _"]
        STEP_UP_MAX_AGE_SECONDS_def Let_def)
  then show ?thesis
    using take ext parked(2) assms(7,8)
    by (simp add: verifyStepUpProof_def text_or_def parseJson_def member_def webParked_members js_truthy_def Let_def)
qed

definition parked_step_up :: step_up_request where
  "parked_step_up = \<lparr>su_authorizationUrl = ''a'', su_state = ''s'', su_codeVerifier = ''v'', su_redirectUri = ''r''\<rparr>"

theorem genuine_step_up_succeeds_witness:
  "\<exists>w. setPendingAccountDeletion ref_redis 0 ''u'' (stringify (webParked parked_step_up (JNum ''100'') 0)) (\<lambda>_. None) = (Inr (), w_redis w) \<and>
     fst (verifyStepUpProof ref_redis 1000 300 ''u'' ''c'' (JStr ''s'') fresh_login JUndef JUndef w) = Inr (Proved ''a'' ''f'')"
proof -
  let ?text = "stringify (webParked parked_step_up (JNum ''100'') 0)"
  have n: "js_parse_float ''200'' = Some 200" "js_parse_float ''100'' = Some 100" by code_simp+
  have plain: "plain_json (JNum ''100'')" by (simp add: number_token_def is_digit_def is_num_char_def)
  have k: "kinds_ok (\<lambda>_. None)" by (auto simp: kinds_ok_def holds_set_def holds_text_def live_def)
  obtain s where parked: "setPendingAccountDeletion ref_redis 0 ''u'' ?text (\<lambda>_. None) = (Inr (), s)"
    by (simp add: setPendingAccountDeletion_def ref_redis_def ACCOUNT_DELETE_TTL_SECONDS_def)
  let ?w = "\<lparr>w_redis = s, w_audits = [], w_ext = ()\<rparr>"
  have "fst (verifyStepUpProof ref_redis 1000 300 ''u'' ''c'' (JStr (su_state parked_step_up)) fresh_login JUndef JUndef ?w) = Inr (Proved ''a'' ''f'')"
    using genuine_step_up_succeeds [where R = ref_redis and view = "\<lambda>s. s" and order = ref_order and ?s0.0 = "\<lambda>_. None" and t = 0
        and ?t2.0 = 1000 and uid = "''u''" and q = parked_step_up and fl = "JNum ''100''" and ?n0.0 = 0 and w = ?w and exchange = fresh_login
        and code = "''c''" and a = "''200''" and authenticated = 200 and p = 100 and n = 300 and cv = JUndef and cr = JUndef]
      ref.redis_up_axioms k parked plain n
    by (simp add: parked_step_up_def fresh_login_def json_member_def js_number_def ACCOUNT_DELETE_TTL_SECONDS_def)
  then show ?thesis using parked by (intro exI [of _ ?w]) (simp add: parked_step_up_def)
qed

end
