(* ===== verification/Spec2Isabelle.thy ===== *)
theory Spec2Isabelle
  imports Auth Backup_Schedule Demo_Idp Error_Handler Redis_Lock Job_Store Run_Store Snapshot_Reader Url_Guard Webdav_Driver Runner Account_Routes Offline_Token Agent_Config_Store
begin

text \<open>
  The server of MovieCollectionManager (\<open>src/frontend/mcm-app/src/bff-server\<close>, with \<open>config/env.ts\<close> and \<open>types/\<close>):
  the backend-for-frontend between the app, the identity provider, the movie service, Redis, the server's own document
  store and the storage destinations of a user's backups. Browser and app hold nothing but a session cookie; everything
  that authorises a request, and everything that acts for a user who is away, is done here.

  How the parts interact. A request enters through \<open>requireAuth\<close> (Auth), which reads the session (Session_Manager),
  opens its sealed tokens and renews them when they are about to lapse (Session_Tokens, under the lock of Lock_Service),
  and validates the access token (Token_Service). A failure leaves as one of the fixed responses of Error_Handler. The
  limits of Rate_Limiter count in Redis. A user's backup jobs (Job_Store) name collections and destinations
  (Destination_Store); the time of the next run is Backup_Schedule's. A run reads the user's collections
  (Snapshot_Reader over Mc_Client), builds one artifact (Artifact), stores it through the driver of its destination
  (Destination_Driver: S3_Driver or Webdav_Driver over the one Pinned_Transport) and prunes the older versions (Retention);
  Runner composes the run, and its outcome is a document of Run_Store. A scheduled run acts with the standing permission of
  Offline_Token, which is kept in the settings document of Agent_Config_Store and is revoked before anything else when
  the account goes. The erasure of an account (Account_Routes) starts with a fresh log-in that Step_Up verifies and then runs
  the ordered steps of Account_Deletion over the other components. Url_Guard says where the server may be pointed at, and
  pins the connection to what was checked.

  Theories and code, in order of import:
  \<^item> Mcm_Prelude, World: exceptions (\<open>types/errors.ts\<close> and the classes of the other modules), asynchronous operations as
    state transformers that return or throw, and the world of Redis, audit trail and external services.
  \<^item> Js_Date, Json, Js_Value, Codec, Http: what the source uses of the language and of Node's library (\<open>Date\<close>, JSON text,
    unchecked values, base64 and UTF-8, \<open>fetch\<close>, \<open>encodeURIComponent\<close>).
  \<^item> Env: \<open>config/env.ts\<close>. Redis, Mongo: the interfaces of the two stores as parameters, their documented behaviour as the
    locales \<open>redis_up\<close> and \<open>collection_up\<close>, a reference server for each, and the interpretation of the locale on it.
  \<^item> Cache_Service, Lock_Service: \<open>cache-service.ts\<close>; the lock contract \<open>lock_service\<close> is interpreted on its operations.
  \<^item> Keycloak, Secret_Crypto, Token_Service, Session_Tokens, Session_Manager, Auth, Demo_Idp: the files of those names, and
    a concrete identity provider on which successful runs are evaluated.
  \<^item> Rate_Limiter, Redis_Lock, Error_Handler: \<open>rate-limiter.ts\<close>, \<open>agent-rate-limiter.ts\<close>, \<open>agent-thread-owner.ts\<close>,
    \<open>redis-lock.ts\<close>, \<open>error-handler.ts\<close>, \<open>mc-api-error.ts\<close>, \<open>role-check.ts\<close>, \<open>resource-id.ts\<close>, \<open>ui-state-sanitizer.ts\<close>.
  \<^item> Backup_Schedule, Job_Store, Run_Store, Destination_Store, Agent_Config_Store, Offline_Token, Retention, Artifact,
    Mc_Client, Snapshot_Reader, Url_Guard: the \<open>backup-*.ts\<close> files of those names, \<open>agent-config-store.ts\<close>,
    \<open>mc-service-client.ts\<close>, \<open>agent-config-ssrf.ts\<close> and \<open>pinned-agent.ts\<close>.
  \<^item> Uri, Request_Signer, Pinned_Transport, S3_Driver, Webdav_Driver, Destination_Driver, Runner: the encoding of paths,
    \<open>backup-request-signer.ts\<close>, \<open>backup-destination-driver.ts\<close> (transport and factory), \<open>backup-driver-s3.ts\<close>,
    \<open>backup-driver-webdav.ts\<close> and \<open>backup-runner.ts\<close>.
  \<^item> Step_Up, Account_Deletion, Account_Routes: \<open>account-step-up.ts\<close>, \<open>account-deletion.ts\<close>, and the routes
    \<open>app/bff-api/account/*.ts\<close> with \<open>account-route-support.ts\<close>.

  What the lemmas show. Each store has its functional laws (what an operation leaves behind, on every branch) and, where
  clients rely on it, a contract stated as a locale and discharged on the model. Authentication, renewal, the session cap,
  the fixed windows, the claim of a due job, the order of an account's erasure, the pruning of versions and the address
  guards are properties over whole operations; both drivers refine an abstract store of objects; a run leaves the objects of
  other jobs alone; no account is erased without a fresh proof of presence, and the steps come in their published order;
  artifacts, sealed tokens and secrets have round trips; the schedule has a proof that the next run exists and lies in the future.

  Bounds. The trimming of sessions takes the present count as its fuel, which suffices because each turn lowers it
  (\<open>trimSessions\<close>); a paged read of the movie service takes the source's own \<open>MAX_PAGES\<close>; the listing of a bucket, which
  the source does not bound, takes \<open>s3_pages\<close>, and any bound above the number of keys is shown to be enough; the bisection of a clock change
  ends by the width of its interval; the JSON reader takes the length of its text, which its callers' lemmas show is enough.

  Not modelled: screens, components and hooks (rendering over third-party libraries), the movie service (Rust) and the
  assistant (Python), diagnostic log lines, and the repository's tooling. Cryptographic primitives, gzip, the URL parser,
  DNS, the time-zone database, \<open>fetch\<close> and the two database servers are parameters.
\<close>

end
